(* ===== verification/Prelude.thy ===== *)
theory Prelude
  imports Main "HOL-Library.Word"
begin

text \<open>
  Shared vocabulary of the development: the machine integers of the C sources, C strings as
  byte lists, the integer status codes and message numbers of libssh2, the collections of
  rewrite rules the components feed, and the generic lemmas on words and lists they share.
\<close>

unbundle bit_operations_syntax

type_synonym u8 = "8 word"
type_synonym u16 = "16 word"
type_synonym u32 = "32 word"
type_synonym u64 = "64 word"
type_synonym bytes = "u8 list"
type_synonym rc = int

named_theorems wire_simps
named_theorems chan_defs
named_theorems len_simps

subsection \<open>C strings\<close>

text \<open>
  A string literal is its bytes, without the terminating NUL.  A \<open>char *\<close> that the code
  reads up to its NUL is a byte list in which reading at or beyond the end yields 0.
\<close>

definition str :: "string \<Rightarrow> bytes" where
  "str s = map of_char s"

definition chr_at :: "bytes \<Rightarrow> nat \<Rightarrow> u8" where
  "chr_at s i = (if i < length s then s ! i else 0)"

definition c_strlen :: "bytes \<Rightarrow> nat" where
  "c_strlen s = length (takeWhile (\<lambda>c. c \<noteq> 0) s)"

fun c_strncmp_eq :: "bytes \<Rightarrow> bytes \<Rightarrow> nat \<Rightarrow> bool" where
  "c_strncmp_eq a b 0 = True"
| "c_strncmp_eq [] [] (Suc n) = True"
| "c_strncmp_eq (x # a) [] (Suc n) = (x = 0)"
| "c_strncmp_eq [] (y # b) (Suc n) = (y = 0)"
| "c_strncmp_eq (x # a) (y # b) (Suc n) = (x = y \<and> (x = 0 \<or> c_strncmp_eq a b n))"

lemma length_str [simp]: "length (str s) = length s"
  by (simp add: str_def)

lemma chr_at_simps [simp]:
  "chr_at [] i = 0" "chr_at (x # s) 0 = x" "chr_at (x # s) (Suc i) = chr_at s i"
  by (simp_all add: chr_at_def)

lemma c_strncmp_eq_take:
  assumes "0 \<notin> set (take n b)" "n \<le> length a" "n \<le> length b"
  shows "c_strncmp_eq a b n \<longleftrightarrow> take n a = take n b"
  using assms by (induction a b n rule: c_strncmp_eq.induct) auto

lemma c_strlen_no_nul: "0 \<notin> set s \<Longrightarrow> c_strlen s = length s"
  unfolding c_strlen_def by (induction s) auto

subsection \<open>Status codes (\<open>include/libssh2.h\<close>)\<close>

abbreviation (input) LIBSSH2_ERROR_NONE :: int where "LIBSSH2_ERROR_NONE \<equiv> 0"
abbreviation (input) LIBSSH2_ERROR_INVALID_MAC :: int where "LIBSSH2_ERROR_INVALID_MAC \<equiv> - 4"
abbreviation (input) LIBSSH2_ERROR_ALLOC :: int where "LIBSSH2_ERROR_ALLOC \<equiv> - 6"
abbreviation (input) LIBSSH2_ERROR_SOCKET_SEND :: int where "LIBSSH2_ERROR_SOCKET_SEND \<equiv> - 7"
abbreviation (input) LIBSSH2_ERROR_TIMEOUT :: int where "LIBSSH2_ERROR_TIMEOUT \<equiv> - 9"
abbreviation (input) LIBSSH2_ERROR_DECRYPT :: int where "LIBSSH2_ERROR_DECRYPT \<equiv> - 12"
abbreviation (input) LIBSSH2_ERROR_SOCKET_DISCONNECT :: int where "LIBSSH2_ERROR_SOCKET_DISCONNECT \<equiv> - 13"
abbreviation (input) LIBSSH2_ERROR_PROTO :: int where "LIBSSH2_ERROR_PROTO \<equiv> - 14"
abbreviation (input) LIBSSH2_ERROR_CHANNEL_OUTOFORDER :: int where "LIBSSH2_ERROR_CHANNEL_OUTOFORDER \<equiv> - 20"
abbreviation (input) LIBSSH2_ERROR_CHANNEL_FAILURE :: int where "LIBSSH2_ERROR_CHANNEL_FAILURE \<equiv> - 21"
abbreviation (input) LIBSSH2_ERROR_CHANNEL_UNKNOWN :: int where "LIBSSH2_ERROR_CHANNEL_UNKNOWN \<equiv> - 23"
abbreviation (input) LIBSSH2_ERROR_CHANNEL_WINDOW_EXCEEDED :: int where "LIBSSH2_ERROR_CHANNEL_WINDOW_EXCEEDED \<equiv> - 24"
abbreviation (input) LIBSSH2_ERROR_CHANNEL_PACKET_EXCEEDED :: int where "LIBSSH2_ERROR_CHANNEL_PACKET_EXCEEDED \<equiv> - 25"
abbreviation (input) LIBSSH2_ERROR_CHANNEL_CLOSED :: int where "LIBSSH2_ERROR_CHANNEL_CLOSED \<equiv> - 26"
abbreviation (input) LIBSSH2_ERROR_CHANNEL_EOF_SENT :: int where "LIBSSH2_ERROR_CHANNEL_EOF_SENT \<equiv> - 27"
abbreviation (input) LIBSSH2_ERROR_SCP_PROTOCOL :: int where "LIBSSH2_ERROR_SCP_PROTOCOL \<equiv> - 28"
abbreviation (input) LIBSSH2_ERROR_SFTP_PROTOCOL :: int where "LIBSSH2_ERROR_SFTP_PROTOCOL \<equiv> - 31"
abbreviation (input) LIBSSH2_ERROR_METHOD_NOT_SUPPORTED :: int where "LIBSSH2_ERROR_METHOD_NOT_SUPPORTED \<equiv> - 33"
abbreviation (input) LIBSSH2_ERROR_INVAL :: int where "LIBSSH2_ERROR_INVAL \<equiv> - 34"
abbreviation (input) LIBSSH2_ERROR_EAGAIN :: int where "LIBSSH2_ERROR_EAGAIN \<equiv> - 37"
abbreviation (input) LIBSSH2_ERROR_BUFFER_TOO_SMALL :: int where "LIBSSH2_ERROR_BUFFER_TOO_SMALL \<equiv> - 38"
abbreviation (input) LIBSSH2_ERROR_BAD_USE :: int where "LIBSSH2_ERROR_BAD_USE \<equiv> - 39"
abbreviation (input) LIBSSH2_ERROR_OUT_OF_BOUNDARY :: int where "LIBSSH2_ERROR_OUT_OF_BOUNDARY \<equiv> - 41"
abbreviation (input) LIBSSH2_ERROR_SOCKET_RECV :: int where "LIBSSH2_ERROR_SOCKET_RECV \<equiv> - 43"
abbreviation (input) LIBSSH2_ERROR_ENCRYPT :: int where "LIBSSH2_ERROR_ENCRYPT \<equiv> - 44"
abbreviation (input) LIBSSH2_ERROR_KNOWN_HOSTS :: int where "LIBSSH2_ERROR_KNOWN_HOSTS \<equiv> - 46"
abbreviation (input) LIBSSH2_ERROR_CHANNEL_WINDOW_FULL :: int where "LIBSSH2_ERROR_CHANNEL_WINDOW_FULL \<equiv> - 47"
abbreviation (input) LIBSSH2_ERROR_RANDGEN :: int where "LIBSSH2_ERROR_RANDGEN \<equiv> - 49"
abbreviation (input) LIBSSH2_ERROR_MAC_FAILURE :: int where "LIBSSH2_ERROR_MAC_FAILURE \<equiv> - 52"

subsection \<open>Words\<close>

lemma and_0xFF: "x AND 0xFF = take_bit 8 (x :: 'a :: len word)"
  using take_bit_eq_mask [of 8 x] by (simp add: mask_eq_exp_minus_1)

lemma ucast_and_0xFF [simp]: "ucast (x AND 0xFF :: 'a :: len word) = (ucast x :: u8)"
  unfolding and_0xFF
  by (rule bit_word_eqI) (auto simp: bit_ucast_iff bit_take_bit_iff dest: bit_imp_le_length)

lemma xor_eq_0_word [simp]: "x XOR y = 0 \<longleftrightarrow> x = (y :: 'a :: len word)"
  by (metis xor.left_neutral xor.assoc xor_self_eq xor.right_neutral)

lemma unat_of_nat_u32: "n < 2 ^ 32 \<Longrightarrow> unat (of_nat n :: u32) = n"
  by (simp add: unat_of_nat take_bit_nat_eq_self)

lemma unat_of_nat_u64: "n < 2 ^ 64 \<Longrightarrow> unat (of_nat n :: u64) = n"
  by (simp add: unat_of_nat take_bit_nat_eq_self)

lemma unat_u8_lt [simp]: "unat (x :: u8) < 256"
  using unsigned_less [of x] by simp

lemma unat_u32_lt [simp]: "unat (x :: u32) < 4294967296"
  using unsigned_less [of x] by simp

subsection \<open>Lists\<close>

definition slice :: "nat \<Rightarrow> nat \<Rightarrow> 'a list \<Rightarrow> 'a list" where
  "slice i n xs = take n (drop i xs)"

lemma length_slice [len_simps]: "i + n \<le> length xs \<Longrightarrow> length (slice i n xs) = n"
  by (simp add: slice_def)

lemma slice_append_left: "slice (length xs) (length ys) (xs @ ys @ zs) = ys"
  by (simp add: slice_def)

lemma slice_0_append [simp]: "slice 0 (length xs) (xs @ ys) = xs"
  by (simp add: slice_def)

lemma set_slice: "set (slice i n xs) \<subseteq> set xs"
  unfolding slice_def using set_take_subset set_drop_subset by fastforce

end
