(* ===== verification/Wire.thy ===== *)
theory Wire
  imports Prelude
begin

text \<open>
  Byte order, the packet writers \<open>ssh2_store_*\<close> and the bounds-checked readers over
  \<open>struct string_buf\<close> of \<open>misc.c\<close>.  A writer's \<open>unsigned char **buf\<close> is the list of
  bytes written so far; a reader returns what it stored through its out-parameter (\<open>None\<close>
  for a return of -1) together with the buffer, whose read pointer may have moved even when
  the call failed, as in the code.
\<close>

subsection \<open>Byte order\<close>

definition ssh2_ntohu32 :: "bytes \<Rightarrow> u32" where
  "ssh2_ntohu32 b =
     push_bit 24 (ucast (b ! 0)) OR push_bit 16 (ucast (b ! 1)) OR
     push_bit 8 (ucast (b ! 2)) OR ucast (b ! 3)"

definition ssh2_ntohu64 :: "bytes \<Rightarrow> u64" where
  "ssh2_ntohu64 b =
     push_bit 56 (ucast (b ! 0)) OR push_bit 48 (ucast (b ! 1)) OR
     push_bit 40 (ucast (b ! 2)) OR push_bit 32 (ucast (b ! 3)) OR
     push_bit 24 (ucast (b ! 4)) OR push_bit 16 (ucast (b ! 5)) OR
     push_bit 8 (ucast (b ! 6)) OR ucast (b ! 7)"

definition ssh2_htonu32 :: "u32 \<Rightarrow> bytes" where
  "ssh2_htonu32 v =
     [ucast (drop_bit 24 v AND 0xFF), ucast (drop_bit 16 v AND 0xFF),
      ucast (drop_bit 8 v AND 0xFF), ucast (v AND 0xFF)]"

fun ssh2_swap_bytes_loop :: "bytes \<Rightarrow> nat \<Rightarrow> nat \<Rightarrow> bytes" where
  "ssh2_swap_bytes_loop buf start 0 = buf"
| "ssh2_swap_bytes_loop buf start (Suc e) =
     (if start < Suc e
      then ssh2_swap_bytes_loop (buf[Suc e := buf ! start, start := buf ! Suc e]) (Suc start) e
      else buf)"

definition ssh2_swap_bytes :: "bytes \<Rightarrow> bytes" where
  "ssh2_swap_bytes buf =
     (if length buf \<ge> 2 then ssh2_swap_bytes_loop buf 0 (length buf - 1) else buf)"

subsection \<open>Writers\<close>

definition ssh2_store_u32 :: "bytes \<Rightarrow> u32 \<Rightarrow> bytes" where
  "ssh2_store_u32 buf v = buf @ ssh2_htonu32 v"

definition ssh2_store_u64 :: "bytes \<Rightarrow> u64 \<Rightarrow> bytes" where
  "ssh2_store_u64 buf v = buf @
     [ucast (drop_bit 56 v AND 0xFF), ucast (drop_bit 48 v AND 0xFF),
      ucast (drop_bit 40 v AND 0xFF), ucast (drop_bit 32 v AND 0xFF),
      ucast (drop_bit 24 v AND 0xFF), ucast (drop_bit 16 v AND 0xFF),
      ucast (drop_bit 8 v AND 0xFF), ucast (v AND 0xFF)]"

text \<open>
  The writers of variable-length fields return the buffer and the code's success flag (the
  \<open>assert\<close> before the return holds exactly when the flag is 1).
\<close>

definition ssh2_store_str :: "bytes \<Rightarrow> bytes \<Rightarrow> bytes \<times> bool" where
  "ssh2_store_str buf s =
     (let len = length s;
          len_stored = (of_nat len :: u32);
          buf = ssh2_store_u32 buf len_stored;
          buf = (if len_stored \<noteq> 0 then buf @ take (unat len_stored) s else buf)
      in (buf, unat len_stored = len))"

definition ssh2_store_hybrid_str :: "bytes \<Rightarrow> bytes \<Rightarrow> bytes \<Rightarrow> bytes \<times> bool" where
  "ssh2_store_hybrid_str buf s1 s2 =
     (let len_1 = (of_nat (length s1) :: u64); len_2 = (of_nat (length s2) :: u64) in
      if len_1 > 0xFFFFFFFF - len_2 then (buf, False)
      else
        let len_stored = (ucast len_1 :: u32) + ucast len_2;
            buf = ssh2_store_u32 buf len_stored;
            buf = (if len_1 \<noteq> 0 then buf @ s1 else buf);
            buf = (if len_2 \<noteq> 0 then buf @ s2 else buf)
        in (buf, ucast len_stored = len_1 + len_2))"

definition ssh2_store_bignum_bytes :: "bytes \<Rightarrow> bytes \<Rightarrow> bytes \<times> bool" where
  "ssh2_store_bignum_bytes buf bs =
     (let p = dropWhile (\<lambda>b. b = 0) bs;
          len = length p;
          extraByte = (if len > 0 \<and> p ! 0 AND 0x80 \<noteq> 0 then 1 else 0 :: u32);
          len_stored = (of_nat len :: u32);
          len_stored = (if extraByte \<noteq> 0 \<and> len_stored = 0xFFFFFFFF
                        then len_stored - 1 else len_stored);
          buf = ssh2_store_u32 buf (len_stored + extraByte);
          buf = (if extraByte \<noteq> 0 then buf @ [0] else buf);
          buf = (if len_stored \<noteq> 0 then buf @ take (unat len_stored) p else buf)
      in (buf, unat len_stored = len))"

subsection \<open>Readers\<close>

record string_buf =
  sb_data :: bytes
  sb_ptr :: nat   \<comment> \<open>offset of the code's read pointer from \<open>data\<close>\<close>
  sb_len :: nat

definition string_buf_of :: "bytes \<Rightarrow> string_buf" where
  "string_buf_of d = \<lparr>sb_data = d, sb_ptr = 0, sb_len = length d\<rparr>"

text \<open>\<open>left\<close> is a \<open>size_t\<close> difference of pointers: it wraps when the read pointer is past the end.\<close>

definition ssh2_check_length :: "string_buf \<Rightarrow> nat \<Rightarrow> bool" where
  "ssh2_check_length b requested_len =
     (let left = nat ((int (sb_len b) - int (sb_ptr b)) mod 2 ^ 64)
      in requested_len \<le> left \<and> left \<le> sb_len b)"

definition ssh2_eob :: "string_buf \<Rightarrow> bool" where
  "ssh2_eob b \<longleftrightarrow> sb_len b \<le> sb_ptr b"

definition advance :: "nat \<Rightarrow> string_buf \<Rightarrow> string_buf" where
  "advance n b = b\<lparr>sb_ptr := sb_ptr b + n\<rparr>"

definition ssh2_get_byte :: "string_buf \<Rightarrow> u8 option \<times> string_buf" where
  "ssh2_get_byte b =
     (if \<not> ssh2_check_length b 1 then (None, b)
      else (Some (sb_data b ! sb_ptr b), advance 1 b))"

definition ssh2_get_boolean :: "string_buf \<Rightarrow> u8 option \<times> string_buf" where
  "ssh2_get_boolean b =
     (if \<not> ssh2_check_length b 1 then (None, b)
      else (Some (if sb_data b ! sb_ptr b = 0 then 0 else 1), advance 1 b))"

definition ssh2_get_u32 :: "string_buf \<Rightarrow> u32 option \<times> string_buf" where
  "ssh2_get_u32 b =
     (if \<not> ssh2_check_length b 4 then (None, b)
      else (Some (ssh2_ntohu32 (drop (sb_ptr b) (sb_data b))), advance 4 b))"

definition ssh2_get_u64 :: "string_buf \<Rightarrow> u64 option \<times> string_buf" where
  "ssh2_get_u64 b =
     (if \<not> ssh2_check_length b 8 then (None, b)
      else (Some (ssh2_ntohu64 (drop (sb_ptr b) (sb_data b))), advance 8 b))"

text \<open>
  \<open>ssh2_get_string\<close> and \<open>ssh2_get_chars\<close> differ in the pointer type of the result
  only.  The result pointer into the buffer is the slice it designates.
\<close>

definition ssh2_get_string :: "string_buf \<Rightarrow> bytes option \<times> string_buf" where
  "ssh2_get_string b =
     (case ssh2_get_u32 b of
        (None, b) \<Rightarrow> (None, b)
      | (Some data_len, b) \<Rightarrow>
          if \<not> ssh2_check_length b (unat data_len) then (None, b)
          else (Some (slice (sb_ptr b) (unat data_len) (sb_data b)), advance (unat data_len) b))"

definition ssh2_get_chars :: "string_buf \<Rightarrow> bytes option \<times> string_buf" where
  "ssh2_get_chars b =
     (case ssh2_get_u32 b of
        (None, b) \<Rightarrow> (None, b)
      | (Some data_len, b) \<Rightarrow>
          if \<not> ssh2_check_length b (unat data_len) then (None, b)
          else (Some (slice (sb_ptr b) (unat data_len) (sb_data b)), advance (unat data_len) b))"

definition ssh2_match_string :: "string_buf \<Rightarrow> bytes \<Rightarrow> bool \<times> string_buf" where
  "ssh2_match_string b match =
     (case ssh2_get_chars b of
        (None, b) \<Rightarrow> (False, b)
      | (Some out, b) \<Rightarrow>
          (let match_len = c_strlen match in
           if length out \<noteq> match_len \<or> \<not> c_strncmp_eq out match match_len then (False, b)
           else (True, b)))"

text \<open>
  \<open>alloc\<close> says whether the session's allocator returns memory.  A copied string keeps its
  terminating NUL; an empty one is a NULL pointer (\<open>None\<close>) with length 0.
\<close>

definition ssh2_copy_string ::
    "bool \<Rightarrow> string_buf \<Rightarrow> (bytes option \<times> nat) option \<times> string_buf" where
  "ssh2_copy_string alloc b =
     (case ssh2_get_string b of
        (None, b) \<Rightarrow> (None, b)
      | (Some s, b) \<Rightarrow>
          if s \<noteq> [] then
            if length s \<ge> 2 ^ 64 - 1 then (None, b)
            else if alloc then (Some (Some (s @ [0]), length s), b)
            else (None, b)
          else (Some (None, 0), b))"

definition ssh2_get_bignum_bytes :: "string_buf \<Rightarrow> bytes option \<times> string_buf" where
  "ssh2_get_bignum_bytes b =
     (case ssh2_get_u32 b of
        (None, b) \<Rightarrow> (None, b)
      | (Some data_len, b) \<Rightarrow>
          if \<not> ssh2_check_length b (unat data_len) then (None, b)
          else (Some (dropWhile (\<lambda>x. x = 0) (slice (sb_ptr b) (unat data_len) (sb_data b))),
                advance (unat data_len) b))"

fun ssh2_timingsafe_bcmp_loop :: "int \<Rightarrow> bytes \<Rightarrow> bytes \<Rightarrow> nat \<Rightarrow> int" where
  "ssh2_timingsafe_bcmp_loop ret p1 p2 0 = ret"
| "ssh2_timingsafe_bcmp_loop ret p1 p2 (Suc n) =
     ssh2_timingsafe_bcmp_loop (ret OR uint (hd p1 XOR hd p2)) (tl p1) (tl p2) n"

definition ssh2_timingsafe_bcmp :: "bytes \<Rightarrow> bytes \<Rightarrow> nat \<Rightarrow> int" where
  "ssh2_timingsafe_bcmp b1 b2 n =
     (if ssh2_timingsafe_bcmp_loop 0 b1 b2 n \<noteq> 0 then 1 else 0)"


subsection \<open>Byte order: lemmas\<close>

lemma length_htonu32 [simp, len_simps]: "length (ssh2_htonu32 v) = 4"
  by (simp add: ssh2_htonu32_def)

lemma length_store_u32 [simp, len_simps]: "length (ssh2_store_u32 buf v) = length buf + 4"
  by (simp add: ssh2_store_u32_def)

lemma length_store_u64 [simp, len_simps]: "length (ssh2_store_u64 buf v) = length buf + 8"
  by (simp add: ssh2_store_u64_def)

lemma ntohu32_append [wire_simps]: "length b = 4 \<Longrightarrow> ssh2_ntohu32 (b @ t) = ssh2_ntohu32 b"
  by (simp add: ssh2_ntohu32_def nth_append)

lemma ntohu32_htonu32 [wire_simps]: "ssh2_ntohu32 (ssh2_htonu32 v) = v"
proof (rule bit_word_eqI)
  fix n assume "n < LENGTH(32)"
  then have "n < 8 \<or> (8 \<le> n \<and> n < 16) \<or> (16 \<le> n \<and> n < 24) \<or> (24 \<le> n \<and> n < 32)" by auto
  then show "bit (ssh2_ntohu32 (ssh2_htonu32 v)) n = bit v n"
    unfolding ssh2_ntohu32_def ssh2_htonu32_def ucast_and_0xFF
    by (elim disjE conjE) (auto simp: bit_simps)
qed

lemma ntohu32_htonu32_append [wire_simps]: "ssh2_ntohu32 (ssh2_htonu32 v @ t) = v"
  by (simp add: ntohu32_append ntohu32_htonu32)

lemma length_4_conv: "length b = 4 \<longleftrightarrow> (\<exists>a0 a1 a2 a3. b = [a0, a1, a2, a3])"
  by (auto simp: numeral_eq_Suc length_Suc_conv)

lemma htonu32_ntohu32 [wire_simps]: "length b = 4 \<Longrightarrow> ssh2_htonu32 (ssh2_ntohu32 b) = b"
  unfolding length_4_conv
proof (elim exE)
  fix a0 a1 a2 a3 assume b: "b = [a0, a1, a2, a3]"
  show "ssh2_htonu32 (ssh2_ntohu32 b) = b"
    unfolding b ssh2_ntohu32_def ssh2_htonu32_def ucast_and_0xFF list.inject
    by (intro conjI; simp; rule bit_word_eqI)
       (auto simp: bit_simps dest: bit_imp_le_length)
qed

lemma htonu32_inj: "ssh2_htonu32 v = ssh2_htonu32 w \<longleftrightarrow> v = w"
  by (metis ntohu32_htonu32)

definition u64_bytes :: "u64 \<Rightarrow> bytes" where
  "u64_bytes v = ssh2_store_u64 [] v"

lemma length_u64_bytes [simp]: "length (u64_bytes v) = 8"
  by (simp add: u64_bytes_def)

lemma store_u64_conv: "ssh2_store_u64 buf v = buf @ u64_bytes v"
  by (simp add: ssh2_store_u64_def u64_bytes_def)

lemma ntohu64_u64_bytes [wire_simps]: "ssh2_ntohu64 (u64_bytes v @ t) = v"
proof (rule bit_word_eqI)
  fix n assume "n < LENGTH(64)"
  then have "n < 8 \<or> (8 \<le> n \<and> n < 16) \<or> (16 \<le> n \<and> n < 24) \<or> (24 \<le> n \<and> n < 32) \<or>
      (32 \<le> n \<and> n < 40) \<or> (40 \<le> n \<and> n < 48) \<or> (48 \<le> n \<and> n < 56) \<or> (56 \<le> n \<and> n < 64)"
    by auto
  then show "bit (ssh2_ntohu64 (u64_bytes v @ t)) n = bit v n"
    unfolding ssh2_ntohu64_def u64_bytes_def ssh2_store_u64_def ucast_and_0xFF
    by (elim disjE conjE; simp add: bit_simps less_diff_conv2)
qed

subsection \<open>\<open>ssh2_swap_bytes\<close> reverses\<close>

lemma swap_loop_length [simp]: "length (ssh2_swap_bytes_loop buf i e) = length buf"
  by (induction buf i e rule: ssh2_swap_bytes_loop.induct) auto

lemma swap_loop_nth:
  "e < length buf \<Longrightarrow> i \<le> Suc e \<Longrightarrow> k < length buf \<Longrightarrow>
   ssh2_swap_bytes_loop buf i e ! k = (if i \<le> k \<and> k \<le> e then buf ! (i + e - k) else buf ! k)"
proof (induction buf i e arbitrary: k rule: ssh2_swap_bytes_loop.induct)
  case (1 buf i)
  then show ?case by (cases i) auto
next
  case (2 buf i e)
  show ?case
  proof (cases "i < Suc e")
    case True
    let ?b = "buf[Suc e := buf ! i, i := buf ! Suc e]"
    have "ssh2_swap_bytes_loop ?b (Suc i) e ! k =
        (if Suc i \<le> k \<and> k \<le> e then ?b ! (Suc i + e - k) else ?b ! k)"
      using 2 True by simp
    then show ?thesis
      using True 2 by (auto simp: nth_list_update not_le)
  next
    case False
    then show ?thesis using 2 by (auto simp: le_Suc_eq)
  qed
qed

lemma swap_bytes_rev: "ssh2_swap_bytes buf = rev buf"
proof (cases "length buf \<ge> 2")
  case True
  then show ?thesis
    by (auto intro!: nth_equalityI simp: ssh2_swap_bytes_def swap_loop_nth rev_nth)
next
  case False
  then consider "buf = []" | a where "buf = [a]"
    by (cases buf; cases "tl buf") auto
  then show ?thesis
    by cases (simp_all add: ssh2_swap_bytes_def)
qed

subsection \<open>Readers: bounds\<close>

text \<open>A buffer whose length field is the size of its memory; the read pointer may be anywhere.\<close>

definition sb_ok :: "string_buf \<Rightarrow> bool" where
  "sb_ok b \<longleftrightarrow> sb_len b = length (sb_data b) \<and> sb_len b < 2 ^ 63 \<and> sb_ptr b < 2 ^ 63"

definition rest :: "string_buf \<Rightarrow> bytes" where
  "rest b = drop (sb_ptr b) (sb_data b)"

lemma check_length_iff: "sb_ok b \<Longrightarrow> ssh2_check_length b n \<longleftrightarrow> sb_ptr b + n \<le> sb_len b"
  unfolding ssh2_check_length_def sb_ok_def Let_def
proof (elim conjE)
  assume l: "sb_len b < 2 ^ 63" and p: "sb_ptr b < 2 ^ 63"
  show "(n \<le> nat ((int (sb_len b) - int (sb_ptr b)) mod 2 ^ 64) \<and>
      nat ((int (sb_len b) - int (sb_ptr b)) mod 2 ^ 64) \<le> sb_len b) \<longleftrightarrow> sb_ptr b + n \<le> sb_len b"
  proof (cases "sb_ptr b \<le> sb_len b")
    case True
    then have "(int (sb_len b) - int (sb_ptr b)) mod 2 ^ 64 = int (sb_len b) - int (sb_ptr b)"
      using l by (intro mod_pos_pos_trivial) auto
    then show ?thesis using True by auto
  next
    case False
    have "(int (sb_len b) - int (sb_ptr b)) mod 2 ^ 64 =
        (int (sb_len b) - int (sb_ptr b) + 2 ^ 64) mod 2 ^ 64" by simp
    also have "\<dots> = int (sb_len b) - int (sb_ptr b) + 2 ^ 64"
      using False p l by (intro mod_pos_pos_trivial) auto
    finally show ?thesis using False p l by auto
  qed
qed

lemma sb_ok_string_buf_of [simp]: "length d < 2 ^ 63 \<Longrightarrow> sb_ok (string_buf_of d)"
  by (simp add: sb_ok_def string_buf_of_def)

lemma rest_string_buf_of [simp]: "rest (string_buf_of d) = d"
  by (simp add: rest_def string_buf_of_def)

lemma rest_advance [simp]: "rest (advance n b) = drop n (rest b)"
  by (simp add: rest_def advance_def add.commute)

lemma advance_advance [simp]: "advance n (advance m b) = advance (m + n) b"
  by (simp add: advance_def)

lemma advance_fields [simp]:
  "sb_data (advance n b) = sb_data b" "sb_len (advance n b) = sb_len b"
  "sb_ptr (advance n b) = sb_ptr b + n"
  by (simp_all add: advance_def)

lemma sb_ok_advance [intro]: "sb_ok b \<Longrightarrow> n \<le> length (rest b) \<Longrightarrow> sb_ok (advance n b)"
  by (auto simp: sb_ok_def rest_def advance_def)

lemma check_length_rest:
  "sb_ok b \<Longrightarrow> 0 < n \<Longrightarrow> ssh2_check_length b n \<longleftrightarrow> n \<le> length (rest b)"
  by (auto simp: check_length_iff rest_def sb_ok_def)

lemma check_length_le_rest: "sb_ok b \<Longrightarrow> ssh2_check_length b n \<Longrightarrow> n \<le> length (rest b)"
  by (auto simp: check_length_iff rest_def sb_ok_def)

text \<open>
  Every reader, on every outcome: the buffer stays well-formed, its bytes are untouched, and the
  read pointer never passes the end unless it was past it already.
\<close>

definition reads_safely :: "string_buf \<Rightarrow> 'a option \<times> string_buf \<Rightarrow> bool" where
  "reads_safely b r \<longleftrightarrow>
     sb_data (snd r) = sb_data b \<and> sb_len (snd r) = sb_len b \<and>
     sb_ptr b \<le> sb_ptr (snd r) \<and>
     (sb_ptr b < sb_ptr (snd r) \<longrightarrow> sb_ptr (snd r) \<le> sb_len b)"

lemma reads_safely_ok: "sb_ok b \<Longrightarrow> reads_safely b r \<Longrightarrow> sb_ok (snd r)"
  unfolding sb_ok_def reads_safely_def
  by (metis le_less_trans le_neq_implies_less)

lemma get_byte_safe: "sb_ok b \<Longrightarrow> reads_safely b (ssh2_get_byte b)"
  by (auto simp: ssh2_get_byte_def reads_safely_def check_length_iff)

lemma get_boolean_safe: "sb_ok b \<Longrightarrow> reads_safely b (ssh2_get_boolean b)"
  by (auto simp: ssh2_get_boolean_def reads_safely_def check_length_iff)

lemma get_u32_safe: "sb_ok b \<Longrightarrow> reads_safely b (ssh2_get_u32 b)"
  by (auto simp: ssh2_get_u32_def reads_safely_def check_length_iff)

lemma get_u64_safe: "sb_ok b \<Longrightarrow> reads_safely b (ssh2_get_u64 b)"
  by (auto simp: ssh2_get_u64_def reads_safely_def check_length_iff)

lemma get_u32_cases:
  assumes "sb_ok b"
  obtains "ssh2_get_u32 b = (None, b)"
  | v where "ssh2_get_u32 b = (Some v, advance 4 b)" "sb_ok (advance 4 b)" "sb_ptr b + 4 \<le> sb_len b"
      "v = ssh2_ntohu32 (rest b)"
proof (cases "ssh2_check_length b 4")
  case True
  moreover from this have "sb_ptr b + 4 \<le> sb_len b" using assms by (simp add: check_length_iff)
  moreover from this have "sb_ok (advance 4 b)" using assms by (simp add: sb_ok_def)
  ultimately show thesis by (intro that(2)) (simp_all add: ssh2_get_u32_def rest_def)
next
  case False
  then show thesis by (intro that(1)) (simp add: ssh2_get_u32_def)
qed

lemma get_string_safe: "sb_ok b \<Longrightarrow> reads_safely b (ssh2_get_string b)"
  by (erule get_u32_cases [of b])
     (auto simp: ssh2_get_string_def reads_safely_def check_length_iff)

lemma get_chars_eq_get_string: "ssh2_get_chars b = ssh2_get_string b"
  by (simp add: ssh2_get_chars_def ssh2_get_string_def)

lemma get_bignum_safe: "sb_ok b \<Longrightarrow> reads_safely b (ssh2_get_bignum_bytes b)"
  by (erule get_u32_cases [of b])
     (auto simp: ssh2_get_bignum_bytes_def reads_safely_def check_length_iff)

lemma get_string_in_bounds:
  assumes "sb_ok b" "ssh2_get_string b = (Some s, b')"
  shows "sb_ptr b' = sb_ptr b + 4 + length s \<and> sb_ptr b' \<le> sb_len b \<and>
    s = slice (sb_ptr b + 4) (length s) (sb_data b) \<and> length s = unat (ssh2_ntohu32 (rest b))"
  using assms(1)
proof (cases rule: get_u32_cases)
  case 1
  then show ?thesis using assms by (simp add: ssh2_get_string_def)
next
  case (2 v)
  then show ?thesis
    using assms by (auto simp: ssh2_get_string_def check_length_iff slice_def sb_ok_def
        split: if_splits)
qed


subsection \<open>The contract of a wire format\<close>

text \<open>
  What a field's writer and reader owe each other: the reader returns the written value, moves
  past exactly its bytes, and is safe on every other input.  Reading several fields in a row
  follows from the contract alone.
\<close>

fun get_many :: "(string_buf \<Rightarrow> 'a option \<times> string_buf) \<Rightarrow> nat \<Rightarrow> string_buf \<Rightarrow>
    'a list option \<times> string_buf" where
  "get_many g 0 b = (Some [], b)"
| "get_many g (Suc n) b =
     (case g b of
        (None, b) \<Rightarrow> (None, b)
      | (Some v, b) \<Rightarrow>
          (case get_many g n b of (None, b) \<Rightarrow> (None, b) | (Some vs, b) \<Rightarrow> (Some (v # vs), b)))"

definition get_pair :: "(string_buf \<Rightarrow> 'a option \<times> string_buf) \<Rightarrow>
    (string_buf \<Rightarrow> 'b option \<times> string_buf) \<Rightarrow> string_buf \<Rightarrow> ('a \<times> 'b) option \<times> string_buf" where
  "get_pair g h b =
     (case g b of
        (None, b) \<Rightarrow> (None, b)
      | (Some x, b) \<Rightarrow> (case h b of (None, b) \<Rightarrow> (None, b) | (Some y, b) \<Rightarrow> (Some (x, y), b)))"

locale codec =
  fixes enc :: "'a \<Rightarrow> bytes"
    and get :: "string_buf \<Rightarrow> 'a option \<times> string_buf"
    and fits :: "'a \<Rightarrow> bool"
  assumes get_enc: "sb_ok b \<Longrightarrow> fits v \<Longrightarrow> rest b = enc v @ t \<Longrightarrow>
      get b = (Some v, advance (length (enc v)) b)"
    and get_safe: "sb_ok b \<Longrightarrow> reads_safely b (get b)"
begin

lemma get_ok: "sb_ok b \<Longrightarrow> sb_ok (snd (get b))"
  using get_safe reads_safely_ok by blast

lemma roundtrip:
  "fits v \<Longrightarrow> length (enc v @ t) < 2 ^ 63 \<Longrightarrow>
   get (string_buf_of (enc v @ t)) = (Some v, advance (length (enc v)) (string_buf_of (enc v @ t)))"
  by (rule get_enc) simp_all

lemma enc_inj: "fits v \<Longrightarrow> fits w \<Longrightarrow> length (enc v) < 2 ^ 63 \<Longrightarrow> enc v = enc w \<Longrightarrow> v = w"
  using roundtrip [of v "[]"] roundtrip [of w "[]"] by simp

lemma get_many_enc:
  "sb_ok b \<Longrightarrow> list_all fits vs \<Longrightarrow> rest b = concat (map enc vs) @ t \<Longrightarrow>
   get_many get (length vs) b = (Some vs, advance (length (concat (map enc vs))) b)"
proof (induction vs arbitrary: b)
  case Nil
  then show ?case by (simp add: advance_def)
next
  case (Cons v vs)
  then have g: "get b = (Some v, advance (length (enc v)) b)"
    by (intro get_enc [where t = "concat (map enc vs) @ t"]) simp_all
  have "sb_ok (advance (length (enc v)) b)"
    using Cons.prems by (intro sb_ok_advance) simp_all
  then have "get_many get (length vs) (advance (length (enc v)) b) =
      (Some vs, advance (length (concat (map enc vs))) (advance (length (enc v)) b))"
    using Cons.prems by (intro Cons.IH) simp_all
  then show ?case by (simp add: g)
qed

lemma get_many_safe: "sb_ok b \<Longrightarrow> reads_safely b (get_many get n b)"
proof (induction n arbitrary: b)
  case 0
  then show ?case by (simp add: reads_safely_def)
next
  case (Suc n)
  have "reads_safely b (get b)" "sb_ok (snd (get b))"
    using get_safe [OF Suc.prems] get_ok [OF Suc.prems] by auto
  with Suc.IH [of "snd (get b)"] show ?case
    by (cases "get b"; cases "fst (get b)"; cases "get_many get n (snd (get b))"; cases "fst (get_many get n (snd (get b)))")
       (auto simp: reads_safely_def)
qed

end

locale codec_pair = fst: codec enc1 get1 fits1 + snd: codec enc2 get2 fits2
  for enc1 :: "'a \<Rightarrow> bytes" and get1 fits1 and enc2 :: "'b \<Rightarrow> bytes" and get2 fits2
begin

lemma get_pair_enc:
  assumes "sb_ok b" "fits1 x" "fits2 y" "rest b = enc1 x @ enc2 y @ t"
  shows "get_pair get1 get2 b = (Some (x, y), advance (length (enc1 x @ enc2 y)) b)"
proof -
  have "get1 b = (Some x, advance (length (enc1 x)) b)"
    using assms by (intro fst.get_enc) simp_all
  moreover have "sb_ok (advance (length (enc1 x)) b)"
    using assms by (intro sb_ok_advance) simp_all
  then have "get2 (advance (length (enc1 x)) b) =
      (Some y, advance (length (enc2 y)) (advance (length (enc1 x)) b))"
    using assms by (intro snd.get_enc) simp_all
  ultimately show ?thesis by (simp add: get_pair_def)
qed

lemma get_pair_safe: "sb_ok b \<Longrightarrow> reads_safely b (get_pair get1 get2 b)"
  using fst.get_safe [of b] fst.get_ok [of b] snd.get_safe [of "snd (get1 b)"]
  by (cases "get1 b"; cases "get2 (snd (get1 b))"; cases "fst (get1 b)";
      cases "fst (get2 (snd (get1 b)))")
     (auto simp: get_pair_def reads_safely_def)

end

sublocale codec_pair \<subseteq> pair: codec
  "\<lambda>(x, y). enc1 x @ enc2 y" "get_pair get1 get2" "\<lambda>(x, y). fits1 x \<and> fits2 y"
  by unfold_locales (auto simp: get_pair_enc get_pair_safe)

subsection \<open>The formats of \<open>misc.c\<close> keep the contract\<close>

definition enc_string :: "bytes \<Rightarrow> bytes" where
  "enc_string s = ssh2_htonu32 (of_nat (length s)) @ s"

lemma length_enc_string [simp, len_simps]: "length (enc_string s) = 4 + length s"
  by (simp add: enc_string_def)

lemma store_str_conv:
  "length s < 2 ^ 32 \<Longrightarrow> ssh2_store_str buf s = (buf @ enc_string s, True)"
  by (auto simp: ssh2_store_str_def ssh2_store_u32_def enc_string_def Let_def unat_of_nat_u32
      simp flip: unat_eq_0)

lemma store_hybrid_str_conv:
  assumes "length s1 + length s2 < 2 ^ 32"
  shows "ssh2_store_hybrid_str buf s1 s2 = (buf @ enc_string (s1 @ s2), True)"
proof -
  let ?a = "of_nat (length s1) :: u64" and ?b = "of_nat (length s2) :: u64"
  have a: "unat ?a = length s1" and b: "unat ?b = length s2"
    using assms by (simp_all add: unat_of_nat_u64)
  have "unat (0xFFFFFFFF - ?b) = 0xFFFFFFFF - length s2"
    using assms b by (subst unat_sub) (auto simp: word_le_nat_alt)
  then have le: "\<not> ?a > 0xFFFFFFFF - ?b"
    using assms a by (simp add: word_less_nat_alt)
  have s: "(ucast ?a :: u32) + ucast ?b = of_nat (length s1 + length s2)"
    using assms by (simp add: unsigned_of_nat take_bit_nat_eq_self)
  have "(ucast (of_nat (length s1 + length s2) :: u32) :: u64) = ?a + ?b"
    using assms by (simp add: word_unat_eq_iff unat_of_nat_u32 unat_of_nat_u64 unsigned_ucast_eq
        take_bit_nat_eq_self unat_word_ariths a b flip: of_nat_add)
  with le s show ?thesis
    by (auto simp: ssh2_store_hybrid_str_def Let_def ssh2_store_u32_def enc_string_def
        a b simp flip: unat_eq_0)
qed

lemma get_byte_enc:
  "sb_ok b \<Longrightarrow> rest b = [v] @ t \<Longrightarrow> ssh2_get_byte b = (Some v, advance 1 b)"
  using nth_drop [of "sb_ptr b" "sb_data b" 0]
  by (cases "sb_ptr b < length (sb_data b)") (auto simp: ssh2_get_byte_def check_length_rest rest_def)

lemma get_u32_enc:
  "sb_ok b \<Longrightarrow> rest b = ssh2_htonu32 v @ t \<Longrightarrow> ssh2_get_u32 b = (Some v, advance 4 b)"
  by (simp add: ssh2_get_u32_def check_length_rest ntohu32_htonu32_append flip: rest_def)

lemma get_u64_enc:
  "sb_ok b \<Longrightarrow> rest b = u64_bytes v @ t \<Longrightarrow> ssh2_get_u64 b = (Some v, advance 8 b)"
  by (simp add: ssh2_get_u64_def check_length_rest ntohu64_u64_bytes flip: rest_def)

lemma get_string_enc:
  assumes "sb_ok b" "length s < 2 ^ 32" "rest b = enc_string s @ t"
  shows "ssh2_get_string b = (Some s, advance (4 + length s) b)"
proof -
  have g: "ssh2_get_u32 b = (Some (of_nat (length s)), advance 4 b)"
    using assms by (intro get_u32_enc) (simp_all add: enc_string_def)
  have ok: "sb_ok (advance 4 b)" and r: "rest (advance 4 b) = s @ t"
    using assms by (auto simp: enc_string_def intro!: sb_ok_advance)
  have "sb_ptr b + (4 + length s) \<le> sb_len b"
    using assms(1) arg_cong [OF assms(3), of length] by (simp add: rest_def sb_ok_def)
  then have "ssh2_check_length (advance 4 b) (length s)"
    using ok by (simp add: check_length_iff)
  moreover have "slice (sb_ptr b + 4) (length s) (sb_data b) = s"
    using r by (simp add: slice_def rest_def)
  ultimately show ?thesis
    using assms(2) by (simp add: ssh2_get_string_def g unat_of_nat_u32)
qed

interpretation byte_codec: codec "\<lambda>v. [v]" ssh2_get_byte "\<lambda>_. True"
  by unfold_locales (auto simp: get_byte_enc get_byte_safe)

interpretation u32_codec: codec ssh2_htonu32 ssh2_get_u32 "\<lambda>_. True"
  by unfold_locales (simp_all add: get_u32_enc get_u32_safe)

interpretation u64_codec: codec u64_bytes ssh2_get_u64 "\<lambda>_. True"
  by unfold_locales (simp_all add: get_u64_enc get_u64_safe)

interpretation string_codec: codec enc_string ssh2_get_string "\<lambda>s. length s < 2 ^ 32"
  by unfold_locales (simp_all add: get_string_enc get_string_safe)

interpretation string_pair_codec: codec_pair enc_string ssh2_get_string "\<lambda>s. length s < 2 ^ 32"
    enc_string ssh2_get_string "\<lambda>s. length s < 2 ^ 32"
  by unfold_locales


subsection \<open>Multiple-precision integers\<close>

definition mpint_bytes :: "bytes \<Rightarrow> bytes" where
  "mpint_bytes bs =
     (let p = dropWhile (\<lambda>b. b = 0) bs
      in (if p \<noteq> [] \<and> p ! 0 AND 0x80 \<noteq> 0 then 0 # p else p))"

lemma store_bignum_conv:
  assumes "length bs < 2 ^ 32 - 1"
  shows "ssh2_store_bignum_bytes buf bs = (buf @ enc_string (mpint_bytes bs), True)"
proof -
  let ?p = "dropWhile (\<lambda>b. b = 0) bs"
  have l: "length ?p < 2 ^ 32 - 1"
    using assms length_dropWhile_le [of "\<lambda>b. b = 0" bs] by linarith
  then have u: "unat (of_nat (length ?p) :: u32) = length ?p"
    by (intro unat_of_nat_u32) simp
  then have "(of_nat (length ?p) :: u32) \<noteq> 0xFFFFFFFF"
    using l by (auto simp: word_unat_eq_iff)
  then show ?thesis
    using u by (auto simp: ssh2_store_bignum_bytes_def mpint_bytes_def Let_def ssh2_store_u32_def
        enc_string_def add.commute simp flip: unat_eq_0)
qed

lemma get_bignum_get_string:
  "ssh2_get_bignum_bytes b =
   (map_option (dropWhile (\<lambda>x. x = 0)) (fst (ssh2_get_string b)), snd (ssh2_get_string b))"
  by (auto simp: ssh2_get_bignum_bytes_def ssh2_get_string_def split: prod.splits option.splits)

lemma dropWhile_mpint_bytes:
  "dropWhile (\<lambda>x. x = 0) (mpint_bytes bs) = dropWhile (\<lambda>x. x = 0) bs"
  by (simp add: mpint_bytes_def Let_def)

lemma mpint_nonneg: "mpint_bytes bs = [] \<or> hd (mpint_bytes bs) AND 0x80 = 0"
  by (cases "dropWhile (\<lambda>b. b = 0) bs") (auto simp: mpint_bytes_def Let_def)

lemma length_mpint_bytes: "length (mpint_bytes bs) \<le> Suc (length bs)"
  using length_dropWhile_le [of "\<lambda>b. b = 0" bs] by (auto simp: mpint_bytes_def Let_def)

subsection \<open>Constant-time comparison\<close>

lemma timingsafe_bcmp_loop_0:
  "n \<le> length p1 \<Longrightarrow> n \<le> length p2 \<Longrightarrow>
   ssh2_timingsafe_bcmp_loop ret p1 p2 n = 0 \<longleftrightarrow> ret = 0 \<and> take n p1 = take n p2"
proof (induction ret p1 p2 n rule: ssh2_timingsafe_bcmp_loop.induct)
  case (2 ret p1 p2 n)
  then obtain x q1 y q2 where "p1 = x # q1" "p2 = y # q2"
    by (cases p1; cases p2) auto
  with 2 show ?case by (auto simp: or_eq_0_iff uint_0_iff)
qed simp

text \<open>
  The constant-time comparison returns 0 exactly when the first n bytes of the two buffers
  agree, and 1 otherwise.
\<close>

theorem timingsafe_bcmp_correct:
  assumes "n \<le> length b1" "n \<le> length b2"
  shows "ssh2_timingsafe_bcmp b1 b2 n = (if take n b1 = take n b2 then 0 else 1)"
  using timingsafe_bcmp_loop_0 [OF assms, of 0] by (simp add: ssh2_timingsafe_bcmp_def)

theorem timingsafe_bcmp_correct_witness:
  "ssh2_timingsafe_bcmp [1, 2, 3] [1, 2, 4] 2 = 0 \<and> ssh2_timingsafe_bcmp [1, 2, 3] [1, 2, 4] 3 = 1"
  using timingsafe_bcmp_correct [of 2 "[1, 2, 3]" "[1, 2, 4]"]
    timingsafe_bcmp_correct [of 3 "[1, 2, 3]" "[1, 2, 4]"] by simp

subsection \<open>Messages of several strings\<close>

lemma fold_store_str:
  "\<forall>v \<in> set vs. length v < 2 ^ 32 \<Longrightarrow>
   fold (\<lambda>v buf. fst (ssh2_store_str buf v)) vs buf = buf @ concat (map enc_string vs)"
  by (induction vs arbitrary: buf) (simp_all add: store_str_conv)

text \<open>
  C27. A message written string by string with \<open>ssh2_store_str\<close>, whatever follows it, is read back
  by as many calls of \<open>ssh2_get_string\<close> as the strings that were written, in their order; the
  read pointer stops right behind the last of them.
\<close>

theorem strings_roundtrip:
  assumes "\<forall>v \<in> set vs. length v < 2 ^ 32"
    and "length (fold (\<lambda>v buf. fst (ssh2_store_str buf v)) vs [] @ t) < 2 ^ 63"
  shows "\<exists>b. get_many ssh2_get_string (length vs)
           (string_buf_of (fold (\<lambda>v buf. fst (ssh2_store_str buf v)) vs [] @ t)) = (Some vs, b) \<and>
         rest b = t"
  using assms string_codec.get_many_enc
    [of "string_buf_of (concat (map enc_string vs) @ t)" vs t]
  by (simp add: fold_store_str list_all_iff)

theorem strings_roundtrip_witness:
  "\<exists>b. get_many ssh2_get_string (Suc (Suc 0))
         (string_buf_of (fold (\<lambda>v buf. fst (ssh2_store_str buf v)) [[1, 2], []] [] @ [9])) =
       (Some [[1, 2], []], b) \<and> rest b = [9]"
  using strings_roundtrip [of "[[1, 2], []]" "[9]"]
  by (simp add: fold_store_str [of "[[1, 2], []]" "[]", simplified] del: get_many.simps)

text \<open>
  C26. Whatever bytes a message holds, a string (or character string, or multiple-precision integer)
  is only ever taken from inside the buffer: when the reader succeeds, the returned bytes are the
  ones between the length field and the new read pointer, which is not past the end; when it fails,
  the read pointer is still not past the end.
\<close>

theorem string_reader_in_bounds:
  assumes "length d < 2 ^ 63" "p \<le> length d"
    and "ssh2_get_string (advance p (string_buf_of d)) = (r, b)"
  shows "sb_data b = d \<and> sb_ptr b \<le> length d \<and>
    (case r of None \<Rightarrow> True
     | Some s \<Rightarrow> sb_ptr b = p + 4 + length s \<and> s = slice (p + 4) (length s) d)"
proof -
  let ?b = "advance p (string_buf_of d)"
  have ok: "sb_ok ?b"
    using assms by (auto intro!: sb_ok_advance)
  have f: "sb_data ?b = d" "sb_ptr ?b = p" "sb_len ?b = length d"
    by (simp_all add: string_buf_of_def)
  have "reads_safely ?b (r, b)"
    using get_string_safe [OF ok] assms by simp
  then have "sb_data b = d" "sb_ptr b \<le> length d"
    using assms(2) f by (auto simp: reads_safely_def simp del: advance_fields)
  moreover have "sb_ptr b = p + 4 + length s \<and> s = slice (p + 4) (length s) d" if "r = Some s" for s
    using get_string_in_bounds [OF ok, of s b] assms that unfolding f by blast
  ultimately show ?thesis by (auto split: option.splits)
qed

theorem string_reader_in_bounds_witness:
  "\<exists>b. ssh2_get_string (advance 0 (string_buf_of [0, 0, 0, 2, 7, 8, 9])) = (Some [7, 8], b) \<and>
     sb_ptr b = 6"
proof -
  have "fst (ssh2_get_string (advance 0 (string_buf_of [0, 0, 0, 2, 7, 8, 9]))) = Some [7, 8]"
    by code_simp
  then obtain b where b: "ssh2_get_string (advance 0 (string_buf_of [0, 0, 0, 2, 7, 8, 9])) =
      (Some [7, 8], b)"
    by (metis prod.collapse)
  from string_reader_in_bounds [OF _ _ this] have "sb_ptr b = 6" by simp
  with b show ?thesis by blast
qed



end
