(* ===== verification/Base64.thy ===== *)
theory Base64
  imports Prelude
begin

text \<open>
  \<open>ssh2_base64_decode\<close> and \<open>ssh2_base64_encode\<close> of \<open>misc.c\<close>.  The decoder writes into
  an allocated block of \<open>src_len\<close> bytes of arbitrary contents; every access to the block is
  checked in the model, and an access outside it is the outer \<open>None\<close>.  The lemmas show that
  no such access happens, that decoding is the regrouping of six-bit digits into bytes, and
  that it inverts encoding.
\<close>

subsection \<open>Model\<close>

definition ssh2_base64_reverse_table :: "int list" where
  "ssh2_base64_reverse_table =
     replicate 43 (-1) @ [62] @ replicate 3 (-1) @ [63] @ map int [52..<62] @
     replicate 7 (-1) @ map int [0..<26] @ replicate 6 (-1) @ map int [26..<52] @
     replicate 133 (-1)"

definition poke :: "bytes \<Rightarrow> nat \<Rightarrow> u8 \<Rightarrow> bytes option" where
  "poke d k x = (if k < length d then Some (d[k := x]) else None)"

definition peek :: "bytes \<Rightarrow> nat \<Rightarrow> u8 option" where
  "peek d k = (if k < length d then Some (d ! k) else None)"

text \<open>\<open>d[k] |= x\<close>\<close>

definition poke_or :: "bytes \<Rightarrow> nat \<Rightarrow> u8 \<Rightarrow> bytes option" where
  "poke_or d k x = Option.bind (peek d k) (\<lambda>y. poke d k (y OR x))"

definition low_byte :: "int \<Rightarrow> u8" where
  "low_byte v = word_of_int v"

text \<open>One digit \<open>v\<close> of the switch on \<open>i % 4\<close>: the block, the digit count and the output length.\<close>

definition base64_digit :: "int \<Rightarrow> bytes \<times> nat \<times> nat \<Rightarrow> (bytes \<times> nat \<times> nat) option" where
  "base64_digit v st =
     (case st of (d, i, len) \<Rightarrow>
        (if i mod 4 = 0 then
           map_option (\<lambda>d. (d, i + 1, len)) (poke d len (low_byte (push_bit 2 v)))
         else if i mod 4 = 1 then
           Option.bind (poke_or d len (low_byte (drop_bit 4 v)))
             (\<lambda>d. map_option (\<lambda>d. (d, i + 1, len + 1)) (poke d (len + 1) (low_byte (push_bit 4 v))))
         else if i mod 4 = 2 then
           Option.bind (poke_or d len (low_byte (drop_bit 2 v)))
             (\<lambda>d. map_option (\<lambda>d. (d, i + 1, len + 1)) (poke d (len + 1) (low_byte (push_bit 6 v))))
         else
           map_option (\<lambda>d. (d, i + 1, len + 1)) (poke_or d len (low_byte v))))"

fun base64_decode_loop :: "bytes \<Rightarrow> bytes \<times> nat \<times> nat \<Rightarrow> (bytes \<times> nat \<times> nat) option" where
  "base64_decode_loop [] st = Some st"
| "base64_decode_loop (c # s) st =
     (let v = ssh2_base64_reverse_table ! unat c
      in if v < 0 then base64_decode_loop s st
         else Option.bind (base64_digit v st) (base64_decode_loop s))"

text \<open>
  \<open>mem\<close> is the allocator's answer: \<open>None\<close>, or a block of \<open>length src\<close> bytes.  The result
  is the status, or the block and \<open>*datalen\<close>.
\<close>

definition ssh2_base64_decode :: "bytes option \<Rightarrow> bytes \<Rightarrow> (rc + bytes \<times> nat) option" where
  "ssh2_base64_decode mem src =
     (case mem of
        None \<Rightarrow> Some (Inl LIBSSH2_ERROR_ALLOC)
      | Some d \<Rightarrow>
          map_option (\<lambda>(d, i, len).
              if i mod 4 = 1 then Inl LIBSSH2_ERROR_INVAL else Inr (d, len))
            (base64_decode_loop src (d, 0, 0)))"

definition table64 :: bytes where
  "table64 = str ''ABCDEFGHIJKLMNOPQRSTUVWXYZabcdefghijklmnopqrstuvwxyz0123456789+/''"

definition base64_obuf :: "u8 \<Rightarrow> u8 \<Rightarrow> u8 \<Rightarrow> u8 list" where
  "base64_obuf b0 b1 b2 =
     [drop_bit 2 (b0 AND 0xFC),
      push_bit 4 (b0 AND 0x03) OR drop_bit 4 (b1 AND 0xF0),
      push_bit 2 (b1 AND 0x0F) OR drop_bit 6 (b2 AND 0xC0),
      b2 AND 0x3F]"

definition base64_char :: "u8 \<Rightarrow> u8" where
  "base64_char x = table64 ! unat x"

text \<open>One round of the encoding loop per group of up to three input bytes; \<open>CHR ''=''\<close> is 61.\<close>

fun base64_encode_loop :: "bytes \<Rightarrow> bytes" where
  "base64_encode_loop [] = []"
| "base64_encode_loop [a] =
     (let obuf = base64_obuf a 0 0
      in [base64_char (obuf ! 0), base64_char (obuf ! 1), 61, 61])"
| "base64_encode_loop [a, b] =
     (let obuf = base64_obuf a b 0
      in [base64_char (obuf ! 0), base64_char (obuf ! 1), base64_char (obuf ! 2), 61])"
| "base64_encode_loop (a # b # c # s) =
     (let obuf = base64_obuf a b c
      in [base64_char (obuf ! 0), base64_char (obuf ! 1),
          base64_char (obuf ! 2), base64_char (obuf ! 3)] @ base64_encode_loop s)"

definition ssh2_base64_encode :: "bool \<Rightarrow> bytes \<Rightarrow> nat \<times> bytes option" where
  "ssh2_base64_encode alloc inp =
     (if length inp = 0 then (0, None)
      else if \<not> alloc then (0, None)
      else let base64data = base64_encode_loop inp @ [0]
           in (c_strlen base64data, Some base64data))"

definition base64_encode_alloc :: "nat \<Rightarrow> nat" where
  "base64_encode_alloc insize = insize * 4 div 3 + 4"

subsection \<open>Digits\<close>

text \<open>The digit values of a text, and the bytes that a digit sequence denotes.\<close>

definition base64_digits :: "bytes \<Rightarrow> int list" where
  "base64_digits s = filter (\<lambda>v. 0 \<le> v) (map (\<lambda>c. ssh2_base64_reverse_table ! unat c) s)"

fun base64_value :: "int list \<Rightarrow> bytes" where
  "base64_value (p # q # r # s # vs) =
     (low_byte (push_bit 2 p) OR low_byte (drop_bit 4 q)) #
     (low_byte (push_bit 4 q) OR low_byte (drop_bit 2 r)) #
     (low_byte (push_bit 6 r) OR low_byte s) # base64_value vs"
| "base64_value [p, q, r] =
     [low_byte (push_bit 2 p) OR low_byte (drop_bit 4 q),
      low_byte (push_bit 4 q) OR low_byte (drop_bit 2 r)]"
| "base64_value [p, q] = [low_byte (push_bit 2 p) OR low_byte (drop_bit 4 q)]"
| "base64_value _ = []"

fun base64_digit_loop :: "int list \<Rightarrow> bytes \<times> nat \<times> nat \<Rightarrow> (bytes \<times> nat \<times> nat) option" where
  "base64_digit_loop [] st = Some st"
| "base64_digit_loop (v # vs) st = Option.bind (base64_digit v st) (base64_digit_loop vs)"

lemma decode_loop_digits: "base64_decode_loop s st = base64_digit_loop (base64_digits s) st"
proof (induction s arbitrary: st)
  case (Cons c s)
  then have "base64_decode_loop s = base64_digit_loop (base64_digits s)" by (simp add: ext)
  then show ?case by (simp add: base64_digits_def Let_def not_less)
qed (simp add: base64_digits_def)

lemma length_digits: "length (base64_digits s) \<le> length s"
  unfolding base64_digits_def by (metis length_filter_le length_map)

lemma length_value: "length (base64_value vs) \<le> length vs"
  by (induction vs rule: base64_value.induct) auto

lemma base64_digit_0:
  "i mod 4 = 0 \<Longrightarrow> len < length d \<Longrightarrow>
   base64_digit v (d, i, len) = Some (d[len := low_byte (push_bit 2 v)], Suc i, len)"
  by (simp add: base64_digit_def poke_def)

lemma base64_digit_1:
  "i mod 4 = 1 \<Longrightarrow> Suc len < length d \<Longrightarrow>
   base64_digit v (d, i, len) =
     Some (d[len := d ! len OR low_byte (drop_bit 4 v), Suc len := low_byte (push_bit 4 v)],
           Suc i, Suc len)"
  by (simp add: base64_digit_def poke_def poke_or_def peek_def)

lemma base64_digit_2:
  "i mod 4 = 2 \<Longrightarrow> Suc len < length d \<Longrightarrow>
   base64_digit v (d, i, len) =
     Some (d[len := d ! len OR low_byte (drop_bit 2 v), Suc len := low_byte (push_bit 6 v)],
           Suc i, Suc len)"
  by (simp add: base64_digit_def poke_def poke_or_def peek_def)

lemma base64_digit_3:
  "i mod 4 = 3 \<Longrightarrow> len < length d \<Longrightarrow>
   base64_digit v (d, i, len) = Some (d[len := d ! len OR low_byte v], Suc i, Suc len)"
  by (simp add: base64_digit_def poke_def poke_or_def peek_def)

lemmas base64_digit_steps = base64_digit_0 base64_digit_1 base64_digit_2 base64_digit_3

lemma take_Suc_update: "n < length d \<Longrightarrow> take (Suc n) (d[n := x]) = take n d @ [x]"
  by (simp add: take_Suc_conv_app_nth)

lemma Suc_mod_4:
  "(i :: nat) mod 4 = 0 \<Longrightarrow> Suc i mod 4 = 1" "i mod 4 = 1 \<Longrightarrow> Suc i mod 4 = 2"
  "i mod 4 = 2 \<Longrightarrow> Suc i mod 4 = 3" "i mod 4 = 3 \<Longrightarrow> Suc i mod 4 = 0"
  by presburger+

lemma digit_loop_value:
  "i mod 4 = 0 \<Longrightarrow> len + length vs \<le> length d \<Longrightarrow>
   \<exists>d'. base64_digit_loop vs (d, i, len) = Some (d', i + length vs, len + length (base64_value vs)) \<and>
     length d' = length d \<and> take (len + length (base64_value vs)) d' = take len d @ base64_value vs"
proof (induction vs arbitrary: d i len rule: base64_value.induct)
  case (1 p q r s vs)
  let ?a = "low_byte (push_bit 2 p) OR low_byte (drop_bit 4 q)"
  let ?b = "low_byte (push_bit 4 q) OR low_byte (drop_bit 2 r)"
  let ?c = "low_byte (push_bit 6 r) OR low_byte s"
  let ?d = "d[len := ?a, Suc len := ?b, Suc (Suc len) := ?c]"
  have m: "Suc i mod 4 = 1" "Suc (Suc i) mod 4 = 2" "Suc (Suc (Suc i)) mod 4 = 3"
      "Suc (Suc (Suc (Suc i))) mod 4 = 0"
    using "1.prems"(1) by presburger+
  have step: "base64_digit_loop (p # q # r # s # vs) (d, i, len) =
      base64_digit_loop vs (?d, Suc (Suc (Suc (Suc i))), Suc (Suc (Suc len)))"
    using "1.prems" m by (simp add: base64_digit_steps)
  have "\<exists>d'. base64_digit_loop vs (?d, Suc (Suc (Suc (Suc i))), Suc (Suc (Suc len))) =
        Some (d', Suc (Suc (Suc (Suc i))) + length vs, Suc (Suc (Suc len)) + length (base64_value vs)) \<and>
      length d' = length ?d \<and>
      take (Suc (Suc (Suc len)) + length (base64_value vs)) d' =
        take (Suc (Suc (Suc len))) ?d @ base64_value vs"
    using "1.prems" m by (intro "1.IH") simp_all
  moreover have "take (Suc (Suc (Suc len))) ?d = take len d @ [?a, ?b, ?c]"
    using "1.prems" by (simp add: take_Suc_update)
  ultimately show ?case unfolding step by auto
qed (simp_all add: base64_digit_steps Suc_mod_4 take_Suc_update)


subsection \<open>Decoding\<close>

text \<open>
  The decoder never leaves its block, whatever the text: it fails exactly on an allocation
  failure or one digit too many, and otherwise the first \<open>*datalen\<close> bytes of the block are the
  value of the text's digits.
\<close>

lemma base64_decode_digits:
  assumes "length d = length src"
  obtains d' where "length d' = length src"
    "take (length (base64_value (base64_digits src))) d' = base64_value (base64_digits src)"
    "ssh2_base64_decode (Some d) src =
       Some (if length (base64_digits src) mod 4 = 1 then Inl LIBSSH2_ERROR_INVAL
             else Inr (d', length (base64_value (base64_digits src))))"
proof -
  have "0 + length (base64_digits src) \<le> length d"
    using assms length_digits by simp
  from digit_loop_value [OF _ this, of 0] obtain d' where
    "base64_digit_loop (base64_digits src) (d, 0, 0) =
       Some (d', length (base64_digits src), length (base64_value (base64_digits src)))"
    "length d' = length d"
    "take (length (base64_value (base64_digits src))) d' = base64_value (base64_digits src)"
    by auto
  with assms show thesis
    by (intro that [of d']) (simp_all add: ssh2_base64_decode_def decode_loop_digits)
qed

subsection \<open>Encoding and decoding\<close>

lemma reverse_table64:
  "x < 64 \<Longrightarrow> ssh2_base64_reverse_table ! unat (table64 ! x) = int x"
proof -
  have "list_all (\<lambda>x. ssh2_base64_reverse_table ! unat (table64 ! x) = int x) [0..<64]"
    by code_simp
  then show "x < 64 \<Longrightarrow> ssh2_base64_reverse_table ! unat (table64 ! x) = int x"
    by (simp add: list_all_iff)
qed

lemma reverse_table_eq: "ssh2_base64_reverse_table ! 61 = -1"
  by code_simp

lemma table64_no_nul: "0 \<notin> set table64"
  by code_simp

lemma length_table64: "length table64 = 64"
  by (simp add: table64_def)


lemma u8_eqI: "(\<And>n. n < 8 \<Longrightarrow> bit (x :: u8) n = bit y n) \<Longrightarrow> x = y"
  by (rule bit_word_eqI) simp

lemma less_8_cases: "n < (8 :: nat) \<Longrightarrow> n \<in> {0, 1, 2, 3, 4, 5, 6, 7}"
  by auto

lemma bit_low_byte: "bit (low_byte v) n \<longleftrightarrow> n < 8 \<and> bit v n"
  by (simp add: low_byte_def bit_simps)

lemma bit_masks:
  "bit (0xFC :: u8) n \<longleftrightarrow> 2 \<le> n \<and> n < 8" "bit (0xF0 :: u8) n \<longleftrightarrow> 4 \<le> n \<and> n < 8"
  "bit (0xC0 :: u8) n \<longleftrightarrow> 6 \<le> n \<and> n < 8" "bit (0x3F :: u8) n \<longleftrightarrow> n < 6"
  "bit (0x0F :: u8) n \<longleftrightarrow> n < 4" "bit (0x03 :: u8) n \<longleftrightarrow> n < 2"
  by (cases "n < 8", drule less_8_cases, auto dest: bit_imp_le_length)+

lemmas b64_bits = bit_or_iff bit_and_iff bit_push_bit_iff bit_drop_bit_eq bit_low_byte bit_uint_iff
  bit_masks comp_apply

lemma Suc_Suc_diff_2: "2 \<le> n \<Longrightarrow> Suc (Suc (n - 2)) = n"
  by simp

lemma obuf_nth:
  "base64_obuf a b c ! 0 = drop_bit 2 (a AND 0xFC)"
  "base64_obuf a b c ! 1 = push_bit 4 (a AND 0x03) OR drop_bit 4 (b AND 0xF0)"
  "base64_obuf a b c ! 2 = push_bit 2 (b AND 0x0F) OR drop_bit 6 (c AND 0xC0)"
  "base64_obuf a b c ! 3 = c AND 0x3F"
  by (simp_all only: base64_obuf_def nth_Cons_0 nth_Cons_numeral One_nat_def nth_Cons_Suc
      pred_numeral_simps numeral_nat)

lemma obuf_value:
  "low_byte (push_bit 2 (uint (base64_obuf a b c ! 0))) OR
     low_byte (drop_bit 4 (uint (base64_obuf a b c ! 1))) = a"
  "low_byte (push_bit 4 (uint (base64_obuf a b c ! 1))) OR
     low_byte (drop_bit 2 (uint (base64_obuf a b c ! 2))) = b"
  "low_byte (push_bit 6 (uint (base64_obuf a b c ! 2))) OR
     low_byte (uint (base64_obuf a b c ! 3)) = (c :: u8)"
  unfolding obuf_nth
  by (rule u8_eqI; simp only: b64_bits;
      auto simp: less_diff_conv2 Suc_Suc_diff_2 dest: bit_imp_le_length)+

lemma obuf_take_bits:
  "take_bit 6 (base64_obuf a b c ! 0) = base64_obuf a b c ! 0"
  "take_bit 6 (base64_obuf a b c ! 1) = base64_obuf a b c ! 1"
  "take_bit 6 (base64_obuf a b c ! 2) = base64_obuf a b c ! 2"
  "take_bit 6 (base64_obuf a b c ! 3) = base64_obuf a b c ! 3"
  unfolding obuf_nth
  by (rule u8_eqI; simp only: b64_bits bit_take_bit_iff; auto simp: less_diff_conv2)+

lemma obuf_take_bit: "k \<in> {0, 1, 2, 3} \<Longrightarrow> take_bit 6 (base64_obuf a b c ! k) = base64_obuf a b c ! k"
  using obuf_take_bits [of a b c] by auto

lemma obuf_lt_64: "k \<in> {0, 1, 2, 3} \<Longrightarrow> unat (base64_obuf a b c ! k) < 64"
proof -
  assume "k \<in> {0, 1, 2, 3}"
  then have "unat (base64_obuf a b c ! k) = take_bit 6 (unat (base64_obuf a b c ! k))"
    by (metis obuf_take_bit unsigned_take_bit_eq)
  also have "\<dots> < 2 ^ 6" by (rule take_bit_nat_less_exp)
  finally show ?thesis by simp
qed

lemma digits_append [simp]: "base64_digits (s @ t) = base64_digits s @ base64_digits t"
  by (simp add: base64_digits_def)

lemma digits_eq [simp]: "base64_digits (61 # s) = base64_digits s"
  by (simp add: base64_digits_def reverse_table_eq)

lemma digits_Nil [simp]: "base64_digits [] = []"
  by (simp add: base64_digits_def)

lemma digits_char [simp]:
  "k \<in> {0, 1, 2, 3} \<Longrightarrow>
   base64_digits (base64_char (base64_obuf a b c ! k) # s) =
     uint (base64_obuf a b c ! k) # base64_digits s"
  using obuf_lt_64 [of k a b c] by (simp add: base64_digits_def base64_char_def reverse_table64)

lemma base64_value_encode: "base64_value (base64_digits (base64_encode_loop s)) = s"
  by (induction s rule: base64_encode_loop.induct) (simp_all add: Let_def obuf_value obuf_value [unfolded One_nat_def])

lemma length_digits_encode:
  "length (base64_digits (base64_encode_loop s)) mod 4 \<noteq> 1"
proof (induction s rule: base64_encode_loop.induct)
  case (4 a b c s)
  then show ?case by (simp add: Let_def)
qed (simp_all add: Let_def)

lemma length_encode: "length (base64_encode_loop s) = 4 * ((length s + 2) div 3)"
proof (induction s rule: base64_encode_loop.induct)
  case (4 a b c s)
  have "(length (a # b # c # s) + 2) div 3 = Suc ((length s + 2) div 3)"
    by simp
  then show ?case by (simp only: base64_encode_loop.simps Let_def length_append 4) simp
qed (simp_all add: Let_def)

lemma encode_no_nul: "0 \<notin> set (base64_encode_loop s)"
proof -
  have c: "base64_char (base64_obuf a b c ! k) \<noteq> 0" if "k \<in> {0, 1, 2, 3}" for a b c k
    using obuf_lt_64 [OF that, of a b c] table64_no_nul nth_mem
    by (metis base64_char_def length_table64)
  note cs = c [of 0, simplified] c [of 1, simplified] c [of 2, simplified] c [of 3, simplified]
  show ?thesis
    by (induction s rule: base64_encode_loop.induct) (simp_all add: Let_def cs eq_commute [of 0])
qed


lemma encode_result:
  "inp \<noteq> [] \<Longrightarrow> ssh2_base64_encode True inp =
     (length (base64_encode_loop inp), Some (base64_encode_loop inp @ [0]))"
  using encode_no_nul [of inp]
  by (auto simp: ssh2_base64_encode_def Let_def c_strlen_def takeWhile_append
      intro!: arg_cong [where f = length] takeWhile_eq_all_conv [THEN iffD2])

text \<open>
  C29. Decoding, into a block of \<open>src_len\<close> bytes with any contents, never reads or writes outside
  the block; it answers \<open>LIBSSH2_ERROR_INVAL\<close> exactly when one digit is left over, and otherwise
  \<open>*datalen\<close> is at most \<open>src_len\<close> and the bytes before it are the value of the digits of the text,
  all other characters being skipped.
\<close>

theorem base64_decode_correct:
  assumes "length d = length src"
  shows "\<exists>r. ssh2_base64_decode (Some d) src = Some r \<and>
    (if length (base64_digits src) mod 4 = 1 then r = Inl LIBSSH2_ERROR_INVAL
     else \<exists>d' n. r = Inr (d', n) \<and> length d' = length src \<and> n \<le> length src \<and>
            take n d' = base64_value (base64_digits src))"
proof -
  have "length (base64_value (base64_digits src)) \<le> length src"
    using length_value length_digits le_trans by blast
  moreover obtain d' where "length d' = length src"
    "take (length (base64_value (base64_digits src))) d' = base64_value (base64_digits src)"
    "ssh2_base64_decode (Some d) src =
       Some (if length (base64_digits src) mod 4 = 1 then Inl LIBSSH2_ERROR_INVAL
             else Inr (d', length (base64_value (base64_digits src))))"
    by (rule base64_decode_digits [OF assms])
  ultimately show ?thesis by simp
qed

theorem base64_decode_correct_witness:
  "\<exists>r. ssh2_base64_decode (Some [9, 9, 9, 9, 9]) (str ''eHl6='') = Some r \<and>
    (if length (base64_digits (str ''eHl6='')) mod 4 = 1 then r = Inl LIBSSH2_ERROR_INVAL
     else \<exists>d' n. r = Inr (d', n) \<and> length d' = length (str ''eHl6='') \<and>
            n \<le> length (str ''eHl6='') \<and>
            take n d' = base64_value (base64_digits (str ''eHl6='')))"
  by (rule base64_decode_correct) simp

text \<open>
  C30. Encoding then decoding returns the input: the encoder's text, of the length it reports,
  decodes (into any block) to exactly the bytes that were encoded.
\<close>

theorem base64_roundtrip:
  assumes "ssh2_base64_encode True inp = (n, Some txt)" and "length d = n"
  shows "\<exists>d'. ssh2_base64_decode (Some d) (take n txt) = Some (Inr (d', length inp)) \<and>
    take (length inp) d' = inp"
proof -
  have "inp \<noteq> []" using assms(1) by (auto simp: ssh2_base64_encode_def)
  then have n: "n = length (base64_encode_loop inp)" and t: "take n txt = base64_encode_loop inp"
    using assms(1) by (auto simp: encode_result)
  then show ?thesis
    using base64_decode_digits [of d "take n txt"] assms(2) length_digits_encode [of inp]
    by (auto simp: base64_value_encode)
qed

theorem base64_roundtrip_witness:
  "\<exists>d'. ssh2_base64_decode (Some (replicate 8 7)) (take 8 (str ''c2Z0cA=='' @ [0])) =
      Some (Inr (d', length (str ''sftp''))) \<and> take (length (str ''sftp'')) d' = str ''sftp''"
proof -
  have "ssh2_base64_encode True (str ''sftp'') = (8, Some (str ''c2Z0cA=='' @ [0]))"
    by code_simp
  from base64_roundtrip [OF this, of "replicate 8 7"] show ?thesis
    by (simp only: length_replicate)
qed



end
