(* ===== verification/DList.thy ===== *)
theory DList
  imports Prelude
begin

text \<open>
  The intrusive doubly linked lists of \<open>misc.c\<close> (\<open>struct list_head\<close>, \<open>struct list_node\<close>)
  on an explicit store, so that the aliasing between a node and its neighbours is part of the
  model.  Addresses are numbers, NULL is \<open>None\<close>.  The representation predicate \<open>dll\<close> says
  which list a head stands for; every operation is shown to act on that list as the other
  theories assume when they keep the session's packets and channels as HOL lists.
\<close>

type_synonym addr = nat

record list_node =
  node_next :: "addr option"
  node_prev :: "addr option"
  node_head :: addr

record list_head =
  head_last :: "addr option"
  head_first :: "addr option"

record lheap =
  nodes :: "addr \<Rightarrow> list_node"
  heads :: "addr \<Rightarrow> list_head"

definition set_next :: "addr \<Rightarrow> addr option \<Rightarrow> lheap \<Rightarrow> lheap" where
  "set_next n v s = s\<lparr>nodes := (nodes s)(n := (nodes s n)\<lparr>node_next := v\<rparr>)\<rparr>"

definition set_prev :: "addr \<Rightarrow> addr option \<Rightarrow> lheap \<Rightarrow> lheap" where
  "set_prev n v s = s\<lparr>nodes := (nodes s)(n := (nodes s n)\<lparr>node_prev := v\<rparr>)\<rparr>"

definition set_head :: "addr \<Rightarrow> addr \<Rightarrow> lheap \<Rightarrow> lheap" where
  "set_head n v s = s\<lparr>nodes := (nodes s)(n := (nodes s n)\<lparr>node_head := v\<rparr>)\<rparr>"

definition set_last :: "addr \<Rightarrow> addr option \<Rightarrow> lheap \<Rightarrow> lheap" where
  "set_last h v s = s\<lparr>heads := (heads s)(h := (heads s h)\<lparr>head_last := v\<rparr>)\<rparr>"

definition set_first :: "addr \<Rightarrow> addr option \<Rightarrow> lheap \<Rightarrow> lheap" where
  "set_first h v s = s\<lparr>heads := (heads s)(h := (heads s h)\<lparr>head_first := v\<rparr>)\<rparr>"

lemmas setters = set_next_def set_prev_def set_head_def set_last_def set_first_def

subsection \<open>Operations\<close>

definition ssh2_list_init :: "addr \<Rightarrow> lheap \<Rightarrow> lheap" where
  "ssh2_list_init h s = set_first h None (set_last h None s)"

definition ssh2_list_add :: "addr \<Rightarrow> addr \<Rightarrow> lheap \<Rightarrow> lheap" where
  "ssh2_list_add h entry s =
     (let s = set_head entry h s;
          s = set_next entry None s;
          s = set_prev entry (head_last (heads s h)) s;
          s = set_last h (Some entry) s
      in case node_prev (nodes s entry) of
           Some p \<Rightarrow> set_next p (Some entry) s
         | None \<Rightarrow> set_first h (Some entry) s)"

definition ssh2_list_first :: "addr \<Rightarrow> lheap \<Rightarrow> addr option" where
  "ssh2_list_first h s = head_first (heads s h)"

definition ssh2_list_next :: "addr \<Rightarrow> lheap \<Rightarrow> addr option" where
  "ssh2_list_next n s = node_next (nodes s n)"

definition ssh2_list_prev :: "addr \<Rightarrow> lheap \<Rightarrow> addr option" where
  "ssh2_list_prev n s = node_prev (nodes s n)"

definition ssh2_list_remove :: "addr \<Rightarrow> lheap \<Rightarrow> lheap" where
  "ssh2_list_remove entry s =
     (let s = (case node_prev (nodes s entry) of
                 Some p \<Rightarrow> set_next p (node_next (nodes s entry)) s
               | None \<Rightarrow> set_first (node_head (nodes s entry)) (node_next (nodes s entry)) s)
      in case node_next (nodes s entry) of
           Some n \<Rightarrow> set_prev n (node_prev (nodes s entry)) s
         | None \<Rightarrow> set_last (node_head (nodes s entry)) (node_prev (nodes s entry)) s)"

subsection \<open>The list a head stands for\<close>

fun hd_opt :: "'a list \<Rightarrow> 'a option" where
  "hd_opt [] = None"
| "hd_opt (x # xs) = Some x"

definition last_opt :: "'a list \<Rightarrow> 'a option" where
  "last_opt xs = (if xs = [] then None else Some (last xs))"

text \<open>\<open>dseg nd h p xs q\<close>: the nodes \<open>xs\<close> are linked in order, from \<open>p\<close> before them to \<open>q\<close> after.\<close>

fun dseg :: "(addr \<Rightarrow> list_node) \<Rightarrow> addr \<Rightarrow> addr option \<Rightarrow> addr list \<Rightarrow> addr option \<Rightarrow> bool" where
  "dseg nd h p [] q = True"
| "dseg nd h p (x # xs) q =
     (node_prev (nd x) = p \<and> node_head (nd x) = h \<and>
      node_next (nd x) = (case xs of [] \<Rightarrow> q | y # _ \<Rightarrow> Some y) \<and> dseg nd h (Some x) xs q)"

definition dll :: "lheap \<Rightarrow> addr \<Rightarrow> addr list \<Rightarrow> bool" where
  "dll s h xs \<longleftrightarrow> distinct xs \<and> head_first (heads s h) = hd_opt xs \<and>
     head_last (heads s h) = last_opt xs \<and> dseg (nodes s) h None xs None"

lemma last_opt_simps [simp]:
  "last_opt [] = None" "last_opt [x] = Some x" "last_opt (xs @ [x]) = Some x"
  "ys \<noteq> [] \<Longrightarrow> last_opt (x # ys) = last_opt ys"
  by (simp_all add: last_opt_def)

lemma last_opt_append: "last_opt (xs @ ys) = (if ys = [] then last_opt xs else last_opt ys)"
  by (simp add: last_opt_def)

lemma hd_opt_append: "hd_opt (xs @ ys) = (if xs = [] then hd_opt ys else hd_opt xs)"
  by (cases xs) simp_all

lemma hd_opt_eq_case: "hd_opt xs = (case xs of [] \<Rightarrow> None | y # _ \<Rightarrow> Some y)"
  by (cases xs) simp_all

definition hd_or :: "'a list \<Rightarrow> 'a option \<Rightarrow> 'a option" where
  "hd_or xs q = (case xs of [] \<Rightarrow> q | y # _ \<Rightarrow> Some y)"

definition last_or :: "'a option \<Rightarrow> 'a list \<Rightarrow> 'a option" where
  "last_or p xs = (if xs = [] then p else last_opt xs)"

lemma dseg_append:
  "dseg nd h p (xs @ ys) q \<longleftrightarrow> dseg nd h p xs (hd_or ys q) \<and> dseg nd h (last_or p xs) ys q"
proof (induction xs arbitrary: p)
  case Nil
  then show ?case by (simp add: last_or_def)
next
  case (Cons x xs)
  then show ?case
    by (cases xs) (auto simp: last_or_def last_opt_def hd_or_def split: list.splits)
qed

lemma dseg_cong:
  "(\<And>x. x \<in> set xs \<Longrightarrow> nd x = nd' x) \<Longrightarrow> dseg nd h p xs q = dseg nd' h p xs q"
  by (induction xs arbitrary: p) auto

lemma dseg_other [simp]: "z \<notin> set xs \<Longrightarrow> dseg (nd(z := w)) h p xs q = dseg nd h p xs q"
  by (rule dseg_cong) auto

text \<open>Relinking the end of a segment.\<close>

lemma dseg_new_end:
  "dseg nd h p (xs @ [x]) q \<Longrightarrow> x \<notin> set xs \<Longrightarrow>
   dseg (nd(x := (nd x)\<lparr>node_next := q'\<rparr>)) h p (xs @ [x]) q'"
  by (simp add: dseg_append hd_or_def)

lemma dseg_new_start:
  "dseg nd h p (x # xs) q \<Longrightarrow> x \<notin> set xs \<Longrightarrow>
   dseg (nd(x := (nd x)\<lparr>node_prev := p'\<rparr>)) h p' (x # xs) q"
  by simp

subsection \<open>The operations act on the list\<close>

lemma dll_init: "dll (ssh2_list_init h s) h []"
  by (simp add: dll_def ssh2_list_init_def setters)

lemma dll_first: "dll s h xs \<Longrightarrow> ssh2_list_first h s = hd_opt xs"
  by (simp add: dll_def ssh2_list_first_def)

lemma dll_next: "dll s h (xs @ x # ys) \<Longrightarrow> ssh2_list_next x s = hd_opt ys"
  by (auto simp: dll_def ssh2_list_next_def dseg_append hd_opt_eq_case)

lemma dll_prev: "dll s h (xs @ x # ys) \<Longrightarrow> ssh2_list_prev x s = last_opt xs"
  by (auto simp: dll_def ssh2_list_prev_def dseg_append last_or_def)

lemma dll_add:
  assumes "dll s h xs" "x \<notin> set xs"
  shows "dll (ssh2_list_add h x s) h (xs @ [x])"
proof (cases xs rule: rev_cases)
  case Nil
  then show ?thesis
    using assms by (simp add: dll_def ssh2_list_add_def setters Let_def)
next
  case (snoc ys y)
  then show ?thesis
    using assms
    by (auto simp: dll_def ssh2_list_add_def setters Let_def dseg_append hd_or_def last_or_def
        hd_opt_append last_opt_append last_opt_def)
qed

lemma dll_remove:
  assumes "dll s h (xs @ x # ys)"
  shows "dll (ssh2_list_remove x s) h (xs @ ys)"
proof (cases xs rule: rev_cases)
  case Nil
  then show ?thesis
    using assms
    by (cases ys) (auto simp: dll_def ssh2_list_remove_def setters Let_def last_opt_append)
next
  case (snoc zs z)
  then show ?thesis
    using assms
    by (cases ys) (auto simp: dll_def ssh2_list_remove_def setters Let_def dseg_append hd_or_def
        last_or_def hd_opt_append last_opt_append)
qed


lemma add_frame:
  assumes "dll s g ys" "g \<noteq> h" "dll s h xs" "set xs \<inter> set ys = {}" "x \<notin> set ys"
  shows "dll (ssh2_list_add h x s) g ys"
proof -
  have last: "head_last (heads s h) = Some p \<Longrightarrow> p \<notin> set ys" for p
    using assms(3,4) by (auto simp: disjoint_iff dll_def last_opt_def split: if_splits)
  show ?thesis
    using assms(1,2,5) last
    by (auto simp: dll_def ssh2_list_add_def setters Let_def split: option.splits)
qed

subsection \<open>The interface the session relies on\<close>

text \<open>
  A queue of records in the store, abstractly: adding appends, removing deletes one element and
  leaves the others in order, and walking from the first element by \<open>next\<close> visits the list.
  The client is the loop that the code runs over \<open>session->packets\<close>: fetch the successor, then
  maybe unlink and free the current element.
\<close>

fun sweep :: "('s \<Rightarrow> 'n \<Rightarrow> 'n option) \<Rightarrow> ('n \<Rightarrow> 's \<Rightarrow> 's) \<Rightarrow> ('n \<Rightarrow> bool) \<Rightarrow> nat \<Rightarrow> 'n option \<Rightarrow> 's \<Rightarrow> 's" where
  "sweep nxt del drop_it 0 cur s = s"
| "sweep nxt del drop_it (Suc n) None s = s"
| "sweep nxt del drop_it (Suc n) (Some x) s =
     (let next = nxt s x
      in sweep nxt del drop_it n next (if drop_it x then del x s else s))"

locale linked_queue =
  fixes repr :: "'s \<Rightarrow> 'n list \<Rightarrow> bool"
    and first :: "'s \<Rightarrow> 'n option" and nxt :: "'s \<Rightarrow> 'n \<Rightarrow> 'n option"
    and add :: "'n \<Rightarrow> 's \<Rightarrow> 's" and del :: "'n \<Rightarrow> 's \<Rightarrow> 's"
  assumes first_repr: "repr s xs \<Longrightarrow> first s = hd_opt xs"
    and nxt_repr: "repr s (xs @ x # ys) \<Longrightarrow> nxt s x = hd_opt ys"
    and add_repr: "repr s xs \<Longrightarrow> x \<notin> set xs \<Longrightarrow> repr (add x s) (xs @ [x])"
    and del_repr: "repr s (xs @ x # ys) \<Longrightarrow> repr (del x s) (xs @ ys)"
begin

lemma repr_unique_first: "repr s xs \<Longrightarrow> repr s ys \<Longrightarrow> hd_opt xs = hd_opt ys"
  using first_repr by metis

lemma sweep_repr_from:
  "length ys \<le> n \<Longrightarrow> repr s (xs @ ys) \<Longrightarrow>
   repr (sweep nxt del p n (hd_opt ys) s) (xs @ filter (\<lambda>x. \<not> p x) ys)"
proof (induction n arbitrary: xs ys s)
  case 0
  then show ?case by simp
next
  case (Suc n)
  show ?case
  proof (cases ys)
    case Nil
    then show ?thesis using Suc.prems by simp
  next
    case (Cons y zs)
    have nx: "nxt s y = hd_opt zs" using Suc.prems Cons nxt_repr by simp
    show ?thesis
    proof (cases "p y")
      case True
      have "repr (del y s) (xs @ zs)" using Suc.prems Cons del_repr by simp
      then show ?thesis using Suc.IH [of zs "del y s" xs] Suc.prems Cons True nx by simp
    next
      case False
      then show ?thesis using Suc.IH [of zs s "xs @ [y]"] Suc.prems Cons nx by simp
    qed
  qed
qed

lemma sweep_repr:
  "repr s xs \<Longrightarrow> length xs \<le> n \<Longrightarrow>
   repr (sweep nxt del p n (first s) s) (filter (\<lambda>x. \<not> p x) xs)"
  using sweep_repr_from [of xs n s "[]" p] by (simp add: first_repr)

lemma drain_repr:
  "repr s xs \<Longrightarrow> length xs \<le> n \<Longrightarrow> first (sweep nxt del (\<lambda>_. True) n (first s) s) = None"
  using sweep_repr [of s xs n "\<lambda>_. True"] first_repr by fastforce

end

interpretation lq: linked_queue "\<lambda>s xs. dll s h xs" "ssh2_list_first h"
  "\<lambda>s x. ssh2_list_next x s" "ssh2_list_add h" ssh2_list_remove for h
  by unfold_locales (simp_all add: dll_first dll_next dll_add dll_remove)

text \<open>
  C35. The loop over a list that unlinks some of the elements it visits (the shape of
  \<open>ssh2_channel_flush\<close> and of the packet readers) leaves the head standing for exactly the
  elements that were not unlinked, in their order.
\<close>

theorem list_sweep_filters:
  assumes "dll s h xs"
  shows "dll (sweep (\<lambda>s x. ssh2_list_next x s) ssh2_list_remove p (length xs)
           (ssh2_list_first h s) s) h (filter (\<lambda>x. \<not> p x) xs)"
  using lq.sweep_repr [OF assms] by simp

theorem list_sweep_filters_witness:
  "dll (sweep (\<lambda>s x. ssh2_list_next x s) ssh2_list_remove even (length [7, 8, 9 :: addr])
     (ssh2_list_first 0
        (ssh2_list_add 0 9 (ssh2_list_add 0 8 (ssh2_list_add 0 7 (ssh2_list_init 0
           \<lparr>nodes = (\<lambda>_. \<lparr>node_next = None, node_prev = None, node_head = 5\<rparr>),
            heads = (\<lambda>_. \<lparr>head_last = Some 3, head_first = Some 4\<rparr>)\<rparr>)))))
        (ssh2_list_add 0 9 (ssh2_list_add 0 8 (ssh2_list_add 0 7 (ssh2_list_init 0
           \<lparr>nodes = (\<lambda>_. \<lparr>node_next = None, node_prev = None, node_head = 5\<rparr>),
            heads = (\<lambda>_. \<lparr>head_last = Some 3, head_first = Some 4\<rparr>)\<rparr>)))))
     0 (filter (\<lambda>x. \<not> even x) [7, 8, 9])"
proof (rule list_sweep_filters)
  let ?s = "ssh2_list_init 0
           \<lparr>nodes = (\<lambda>_. \<lparr>node_next = None, node_prev = None, node_head = 5\<rparr>),
            heads = (\<lambda>_. \<lparr>head_last = Some 3, head_first = Some 4\<rparr>)\<rparr>"
  have "dll ?s 0 []" by (rule dll_init)
  then have "dll (ssh2_list_add 0 7 ?s) 0 ([] @ [7])" by (rule dll_add) simp
  then have "dll (ssh2_list_add 0 8 (ssh2_list_add 0 7 ?s)) 0 (([] @ [7]) @ [8])"
    by (rule dll_add) simp
  then have "dll (ssh2_list_add 0 9 (ssh2_list_add 0 8 (ssh2_list_add 0 7 ?s))) 0 ((([] @ [7]) @ [8]) @ [9])"
    by (rule dll_add) simp
  then show "dll (ssh2_list_add 0 9 (ssh2_list_add 0 8 (ssh2_list_add 0 7 ?s))) 0 [7, 8, 9]"
    by simp
qed

end
