(* ===== verification/Scp.thy ===== *)
theory Scp
  imports Prelude
begin

text \<open>
  The text processing of \<open>scp.c\<close> and \<open>misc.c\<close>: the decimal and octal reader
  \<open>ssh2_str_number\<close>, the parser of the remote end's \<open>C<mode> <size> <name>\<close> line, and the
  quoting of a path for the remote shell.
\<close>

subsection \<open>\<open>ssh2_str_number\<close>\<close>

definition valid_digit :: "u8 \<Rightarrow> u8 \<Rightarrow> bool" where
  "valid_digit x m \<longleftrightarrow> 48 \<le> x \<and> x \<le> m"

definition digit_of :: "u8 \<Rightarrow> int" where
  "digit_of c = uint c - 48"

text \<open>
  The two do-while loops: \<open>small\<close> selects the one for \<open>max < base\<close>.  A failing reader leaves
  \<open>*nump\<close> at 0 and \<open>*linep\<close> unchanged, so an error carries its code only.
\<close>

fun str_number_loop :: "bool \<Rightarrow> int \<Rightarrow> int \<Rightarrow> u8 \<Rightarrow> int \<Rightarrow> bytes \<Rightarrow> rc + int \<times> bytes" where
  "str_number_loop small maxv base m num [] = Inr (num, [])"
| "str_number_loop small maxv base m num (c # p) =
     (let n = digit_of c in
      if (if small then num * base + n > maxv else num > (maxv - n) div base) then Inl (- 2)
      else let num = num * base + n in
        if valid_digit (chr_at p 0) m then str_number_loop small maxv base m num p
        else Inr (num, p))"

definition ssh2_str_number :: "bytes \<Rightarrow> int \<Rightarrow> int \<Rightarrow> rc + int \<times> bytes" where
  "ssh2_str_number line maxv base =
     (let m = (if base = 10 then 57 else 55) in
      if \<not> valid_digit (chr_at line 0) m then Inl (- 1)
      else str_number_loop (maxv < base) maxv base m 0 line)"

subsection \<open>\<open>ssh2_scp_parse_c_fields\<close>\<close>

abbreviation (input) SCP_C_FIELDS_OK :: int where "SCP_C_FIELDS_OK \<equiv> 0"
abbreviation (input) SCP_C_FIELDS_INCOMPLETE :: int where "SCP_C_FIELDS_INCOMPLETE \<equiv> 1"
abbreviation (input) SCP_C_FIELDS_MALFORMED :: int where "SCP_C_FIELDS_MALFORMED \<equiv> - 1"

text \<open>\<open>long\<close> is 32 bits wide on the plugin's platform (Windows x64).\<close>

definition LONG_MAX :: int where "LONG_MAX = 2 ^ 31 - 1"
definition INT64_MAX :: int where "INT64_MAX = 2 ^ 63 - 1"

text \<open>The return code with the contents of \<open>*mode_out\<close> and \<open>*size_out\<close> afterwards.\<close>

definition ssh2_scp_parse_c_fields :: "bytes \<Rightarrow> int \<Rightarrow> int \<Rightarrow> rc \<times> int \<times> int" where
  "ssh2_scp_parse_c_fields buf mode0 size0 =
     (if length buf < 1 \<or> buf ! 0 \<noteq> 67 then (SCP_C_FIELDS_MALFORMED, mode0, size0)
      else
        let mode_txt = takeWhile (\<lambda>c. valid_digit c 55) (drop 1 buf);
            i = 1 + length mode_txt
        in if mode_txt = [] then
             (if i \<ge> length buf then SCP_C_FIELDS_INCOMPLETE else SCP_C_FIELDS_MALFORMED, mode0, size0)
           else if i \<ge> length buf then (SCP_C_FIELDS_INCOMPLETE, mode0, size0)
           else if buf ! i \<noteq> 32 then (SCP_C_FIELDS_MALFORMED, mode0, size0)
           else
             let size_txt = takeWhile (\<lambda>c. valid_digit c 57) (drop (i + 1) buf);
                 j = i + 1 + length size_txt
             in if size_txt = [] then
                  (if j \<ge> length buf then SCP_C_FIELDS_INCOMPLETE else SCP_C_FIELDS_MALFORMED,
                   mode0, size0)
                else if j \<ge> length buf then (SCP_C_FIELDS_INCOMPLETE, mode0, size0)
                else if buf ! j \<noteq> 32 \<and> buf ! j \<noteq> 13 \<and> buf ! j \<noteq> 10
                then (SCP_C_FIELDS_MALFORMED, mode0, size0)
                else if length mode_txt \<ge> 32 \<or> length size_txt \<ge> 32
                then (SCP_C_FIELDS_MALFORMED, mode0, size0)
                else
                  case ssh2_str_number mode_txt LONG_MAX 8 of
                    Inl e \<Rightarrow> (SCP_C_FIELDS_MALFORMED, mode0, size0)
                  | Inr (num, end) \<Rightarrow>
                      if chr_at end 0 \<noteq> 0 then (SCP_C_FIELDS_MALFORMED, mode0, size0)
                      else
                        case ssh2_str_number size_txt INT64_MAX 10 of
                          Inl e \<Rightarrow> (SCP_C_FIELDS_MALFORMED, num, 0)
                        | Inr (sz, end) \<Rightarrow>
                            (if chr_at end 0 \<noteq> 0 then SCP_C_FIELDS_MALFORMED else SCP_C_FIELDS_OK,
                             num, sz))"

subsection \<open>\<open>scp_shell_quotearg\<close>\<close>

datatype quote_state = UQSTRING | SQSTRING | QSTRING

text \<open>The characters put before a source character, and the state after it.\<close>

definition quote_prefix :: "quote_state \<Rightarrow> u8 \<Rightarrow> bytes \<times> quote_state" where
  "quote_prefix state c =
     (if c = 39 then
        (case state of UQSTRING \<Rightarrow> [34] | QSTRING \<Rightarrow> [] | SQSTRING \<Rightarrow> [39, 34], QSTRING)
      else if c = 33 then
        (case state of UQSTRING \<Rightarrow> [92] | QSTRING \<Rightarrow> [34, 92] | SQSTRING \<Rightarrow> [39, 92], UQSTRING)
      else
        (case state of UQSTRING \<Rightarrow> [39] | QSTRING \<Rightarrow> [34, 39] | SQSTRING \<Rightarrow> [], SQSTRING))"

definition quote_close :: "quote_state \<Rightarrow> bytes" where
  "quote_close state = (case state of UQSTRING \<Rightarrow> [] | QSTRING \<Rightarrow> [34] | SQSTRING \<Rightarrow> [39])"

text \<open>\<open>dst + n >= endp\<close> after \<open>dst\<close> has been written: no room for \<open>n\<close> characters and the NUL.\<close>

definition no_room :: "nat \<Rightarrow> bytes \<Rightarrow> nat \<Rightarrow> bool" where
  "no_room bufsize dst n \<longleftrightarrow> bufsize \<le> length dst + n"

definition quote_finish :: "nat \<Rightarrow> quote_state \<Rightarrow> bytes \<Rightarrow> nat \<times> bytes" where
  "quote_finish bufsize state dst =
     (let cl = quote_close state in
      if cl \<noteq> [] \<and> no_room bufsize dst 1 then (0, dst)
      else let dst = dst @ cl in
        if no_room bufsize dst 1 then (0, dst) else (length dst, dst @ [0]))"

fun quote_loop :: "nat \<Rightarrow> quote_state \<Rightarrow> bytes \<Rightarrow> bytes \<Rightarrow> nat \<times> bytes" where
  "quote_loop bufsize state dst [] = quote_finish bufsize state dst"
| "quote_loop bufsize state dst (c # src) =
     (if c = 0 \<or> \<not> length dst < bufsize - 1 then quote_finish bufsize state dst
      else
        let (pre, state') = quote_prefix state c in
        if pre \<noteq> [] \<and> no_room bufsize dst (length pre) then (0, dst)
        else let dst = dst @ pre in
          if no_room bufsize dst 1 then (0, dst)
          else quote_loop bufsize state' (dst @ [c]) src)"

definition scp_shell_quotearg :: "bytes \<Rightarrow> nat \<Rightarrow> nat \<times> bytes" where
  "scp_shell_quotearg path bufsize = quote_loop bufsize UQSTRING [] path"

definition shell_quotedsize :: "bytes \<Rightarrow> nat" where
  "shell_quotedsize s = 3 * c_strlen s + 2"


subsection \<open>Numbers: the reader computes the value of the longest digit prefix\<close>

definition num_value :: "int \<Rightarrow> int \<Rightarrow> bytes \<Rightarrow> int" where
  "num_value base num ds = foldl (\<lambda>a c. a * base + digit_of c) num ds"

lemma num_value_simps [simp]:
  "num_value base num [] = num"
  "num_value base num (c # ds) = num_value base (num * base + digit_of c) ds"
  by (simp_all add: num_value_def)

lemma digit_nonneg: "valid_digit c m \<Longrightarrow> 0 \<le> digit_of c"
  by (simp add: valid_digit_def digit_of_def word_le_def)

lemma num_value_ge:
  "0 < base \<Longrightarrow> 0 \<le> num \<Longrightarrow> list_all (\<lambda>c. valid_digit c m) ds \<Longrightarrow> num \<le> num_value base num ds"
proof (induction ds arbitrary: num)
  case (Cons c ds)
  then have "0 \<le> digit_of c" using digit_nonneg by auto
  moreover have "num \<le> num * base"
    using Cons.prems by (simp add: mult_le_cancel_left1)
  ultimately have "num \<le> num * base + digit_of c" by linarith
  moreover have "num * base + digit_of c \<le> num_value base (num * base + digit_of c) ds"
    using Cons calculation by (intro Cons.IH) auto
  ultimately show ?case by simp
qed simp

lemma big_check_iff:
  "base = 8 \<or> base = 10 \<Longrightarrow> num > (maxv - n) div base \<longleftrightarrow> num * base + n > (maxv :: int)"
  by (elim disjE; hypsubst; presburger)

lemma chr_at_0: "chr_at p 0 = (case p of [] \<Rightarrow> 0 | c # _ \<Rightarrow> c)"
  by (cases p) simp_all

lemma valid_digit_0 [simp]: "\<not> valid_digit 0 m"
  by (simp add: valid_digit_def)

lemma str_number_loop_value:
  assumes "base = 8 \<or> base = 10" "0 \<le> num" "p \<noteq> []" "valid_digit (hd p) m"
  shows "str_number_loop small maxv base m num p =
    (let v = num_value base num (takeWhile (\<lambda>c. valid_digit c m) p) in
     if v \<le> maxv then Inr (v, dropWhile (\<lambda>c. valid_digit c m) p) else Inl (- 2))"
  using assms(2-)
proof (induction p arbitrary: num)
  case (Cons c p)
  have v: "valid_digit c m" and b: "0 < base" using Cons.prems assms(1) by auto
  define num' where "num' = num * base + digit_of c"
  have n': "0 \<le> num'"
    unfolding num'_def using Cons.prems(1) b digit_nonneg [OF v] by simp
  have step: "str_number_loop small maxv base m num (c # p) =
      (if num' > maxv then Inl (- 2)
       else if valid_digit (chr_at p 0) m then str_number_loop small maxv base m num' p
       else Inr (num', p))"
    using big_check_iff [OF assms(1), of maxv "digit_of c" num] by (simp add: Let_def num'_def)
  have le: "num' \<le> num_value base num' (takeWhile (\<lambda>c. valid_digit c m) p)"
    using b n' by (intro num_value_ge) (auto simp: list_all_iff dest: set_takeWhileD)
  show ?case
  proof (cases "valid_digit (chr_at p 0) m")
    case True
    then have p: "p \<noteq> []" "valid_digit (hd p) m" by (auto simp: chr_at_0 split: list.splits)
    show ?thesis
      using Cons.IH [OF n' p] le v True
      by (auto simp: step Let_def num'_def simp del: str_number_loop.simps)
  next
    case False
    then have "takeWhile (\<lambda>c. valid_digit c m) p = [] \<and> dropWhile (\<lambda>c. valid_digit c m) p = p"
      by (cases p) (auto simp: chr_at_0)
    then show ?thesis
      using v False by (simp add: step Let_def num'_def del: str_number_loop.simps)
  qed
qed simp

text \<open>The largest digit of a base, as the code computes it.\<close>

definition max_digit :: "int \<Rightarrow> u8" where
  "max_digit base = (if base = 10 then 57 else 55)"

lemma str_number_value:
  assumes "base = 8 \<or> base = 10"
  shows "ssh2_str_number line maxv base =
    (let ds = takeWhile (\<lambda>c. valid_digit c (max_digit base)) line;
         v = num_value base 0 ds
     in if ds = [] then Inl (- 1) else if v \<le> maxv then Inr (v, drop (length ds) line) else Inl (- 2))"
proof (cases line)
  case Nil
  then show ?thesis by (simp add: ssh2_str_number_def)
next
  case (Cons c p)
  show ?thesis
  proof (cases "valid_digit c (max_digit base)")
    case True
    then have "str_number_loop (maxv < base) maxv base (max_digit base) 0 line =
      (let v = num_value base 0 (takeWhile (\<lambda>c. valid_digit c (max_digit base)) line) in
       if v \<le> maxv then Inr (v, dropWhile (\<lambda>c. valid_digit c (max_digit base)) line) else Inl (- 2))"
      using Cons by (intro str_number_loop_value assms) auto
    then show ?thesis
      using True Cons by (simp add: ssh2_str_number_def max_digit_def Let_def dropWhile_eq_drop del: str_number_loop.simps)
  next
    case False
    then show ?thesis
      using Cons by (simp add: ssh2_str_number_def max_digit_def Let_def)
  qed
qed




subsection \<open>The \<open>C\<close> line\<close>

lemma takeWhile_all: "list_all P xs \<Longrightarrow> takeWhile P xs = xs"
  by (simp add: list_all_iff takeWhile_eq_all_conv)

lemma str_number_digits:
  assumes "base = 8 \<or> base = 10" "list_all (\<lambda>c. valid_digit c (max_digit base)) ds" "ds \<noteq> []"
  shows "ssh2_str_number ds maxv base =
    (if num_value base 0 ds \<le> maxv then Inr (num_value base 0 ds, []) else Inl (- 2))"
  using assms by (simp add: str_number_value takeWhile_all Let_def)

lemma takeWhile_stop: "list_all P xs \<Longrightarrow> \<not> P y \<Longrightarrow> takeWhile P (xs @ y # zs) = xs"
  by (simp add: list_all_iff takeWhile_append2)

lemma parse_c_fields_shape:
  assumes "list_all (\<lambda>c. valid_digit c 55) ms" "list_all (\<lambda>c. valid_digit c 57) ss"
    and "t \<in> {32, 13, 10 :: u8}"
    and buf_def: "buf = 67 # ms @ 32 # ss @ t # name"
  shows "takeWhile (\<lambda>c. valid_digit c 55) (drop 1 buf) = ms" "buf ! (1 + length ms) = 32"
    "takeWhile (\<lambda>c. valid_digit c 57) (drop (1 + length ms + 1) buf) = ss"
    "buf ! (1 + length ms + 1 + length ss) = t"
    "length buf = 3 + length ms + length ss + length name"
proof -
  have "\<not> valid_digit t 57" "\<not> valid_digit 32 55"
    using assms(3) by (auto simp: valid_digit_def)
  then show "takeWhile (\<lambda>c. valid_digit c 55) (drop 1 buf) = ms" 
      "takeWhile (\<lambda>c. valid_digit c 57) (drop (1 + length ms + 1) buf) = ss"
    using assms(1,2) by (simp_all add: buf_def takeWhile_stop)
  show "buf ! (1 + length ms) = 32" "buf ! (1 + length ms + 1 + length ss) = t"
    by (simp_all add: buf_def nth_append)
  show "length buf = 3 + length ms + length ss + length name"
    by (simp add: buf_def)
qed



subsection \<open>Quoting\<close>

text \<open>
  What the remote shell makes of a command word built from quoted pieces.  The reading is the
  strictest the two shell families agree on: outside quotes only the quote characters and a
  backslash escape are accepted, inside single quotes everything but \<open>!\<close> stands for itself, and
  inside double quotes nothing but the apostrophe is accepted; anything else is \<open>None\<close>.
\<close>

fun sh_word :: "quote_state \<Rightarrow> bytes \<Rightarrow> bytes option" where
  "sh_word UQSTRING [] = Some []"
| "sh_word SQSTRING [] = None"
| "sh_word QSTRING [] = None"
| "sh_word UQSTRING (c # s) =
     (if c = 39 then sh_word SQSTRING s
      else if c = 34 then sh_word QSTRING s
      else if c = 92 then (case s of [] \<Rightarrow> None | d # s' \<Rightarrow> map_option ((#) d) (sh_word UQSTRING s'))
      else None)"
| "sh_word SQSTRING (c # s) =
     (if c = 39 then sh_word UQSTRING s
      else if c = 33 then None else map_option ((#) c) (sh_word SQSTRING s))"
| "sh_word QSTRING (c # s) =
     (if c = 34 then sh_word UQSTRING s
      else if c = 39 then map_option ((#) c) (sh_word QSTRING s) else None)"

text \<open>The quoting without a buffer: what is emitted from a state for the rest of the path.\<close>

fun quote_text :: "quote_state \<Rightarrow> bytes \<Rightarrow> bytes" where
  "quote_text state [] = quote_close state"
| "quote_text state (c # src) =
     (let (pre, state') = quote_prefix state c in pre @ c # quote_text state' src)"

lemma sh_word_quote_text: "0 \<notin> set src \<Longrightarrow> sh_word st (quote_text st src) = Some src"
proof (induction src arbitrary: st)
  case Nil
  then show ?case by (cases st) (simp_all add: quote_close_def)
next
  case (Cons c src)
  then show ?case
    by (cases st) (auto simp: quote_prefix_def)
qed

definition slack :: "quote_state \<Rightarrow> nat" where
  "slack st = (case st of UQSTRING \<Rightarrow> 0 | _ \<Rightarrow> 1)"

lemma quote_prefix_length:
  "quote_prefix st c = (pre, st') \<Longrightarrow> length pre + 1 + slack st' \<le> 3 + slack st"
  by (cases st) (auto simp: quote_prefix_def slack_def split: if_splits)

lemma quote_close_length: "length (quote_close st) = slack st"
  by (cases st) (simp_all add: quote_close_def slack_def)

lemma quote_loop_text:
  "0 \<notin> set src \<Longrightarrow> length dst + slack st + 3 * length src + 1 < bufsize \<Longrightarrow>
   quote_loop bufsize st dst src =
     (length (dst @ quote_text st src), dst @ quote_text st src @ [0]) \<and>
   length (quote_text st src) \<le> slack st + 3 * length src"
proof (induction src arbitrary: st dst)
  case Nil
  then show ?case
    by (simp add: quote_finish_def Let_def no_room_def quote_close_length)
next
  case (Cons c src)
  obtain pre st' where p: "quote_prefix st c = (pre, st')" by fastforce
  note l = quote_prefix_length [OF p]
  have "quote_loop bufsize st' (dst @ pre @ [c]) src =
      (length ((dst @ pre @ [c]) @ quote_text st' src), (dst @ pre @ [c]) @ quote_text st' src @ [0]) \<and>
      length (quote_text st' src) \<le> slack st' + 3 * length src"
    using Cons.prems l by (intro Cons.IH) auto
  then show ?case
    using Cons.prems l by (auto simp: p no_room_def Let_def)
qed

text \<open>
  C32. For every path, a buffer of the size the code computes is large enough, and the shell reads
  the quoted text back as exactly the path: no character of a file name can end the command word,
  start another one or be expanded.
\<close>

theorem shell_quote_safe:
  assumes "0 \<notin> set path"
  shows "\<exists>q. scp_shell_quotearg path (shell_quotedsize path) = (length q, q @ [0]) \<and>
    length q \<le> 3 * length path \<and> sh_word UQSTRING q = Some path"
proof -
  have "length ([] :: bytes) + slack UQSTRING + 3 * length path + 1 < shell_quotedsize path"
    using assms by (simp add: shell_quotedsize_def c_strlen_no_nul slack_def)
  from quote_loop_text [OF assms this] show ?thesis
    using sh_word_quote_text [OF assms, of UQSTRING]
    by (auto simp: scp_shell_quotearg_def slack_def)
qed

theorem shell_quote_safe_witness:
  "\<exists>q. scp_shell_quotearg (str ''it's a!b'') (shell_quotedsize (str ''it's a!b'')) = (length q, q @ [0]) \<and>
    length q \<le> 3 * length (str ''it's a!b'') \<and> sh_word UQSTRING q = Some (str ''it's a!b'')"
  by (rule shell_quote_safe) code_simp

end
