(* ===== verification/Session.thy ===== *)
theory Session
  imports Wire
begin

text \<open>
  The state that the components of \<open>src/libssh2\<close> share: the method tables' entries
  (\<open>struct crypt_method\<close>, \<open>mac_method\<close>, \<open>comp_method\<close>, \<open>kex_method\<close>, \<open>hostkey_method\<close>), the
  channels, the packet queue, the transport buffers and the session (\<open>libssh2_priv.h\<close>).

  The outside world is part of the state: \<open>sock_in\<close> and \<open>sock_out\<close> are what the next calls of
  \<open>recv\<close> and \<open>send\<close> do, \<open>wire\<close> is what has left through the socket, \<open>allocs\<close> says which allocations
  succeed, \<open>rands\<close> what \<open>ssh2_random\<close> delivers, \<open>clock\<close> what \<open>ssh2_now\<close> reads and \<open>polls\<close> what \<open>poll\<close> returns.  \<open>fault\<close> is set when the C program would leave its
  defined behaviour: a failed assertion, a store or copy outside a block, a NULL dereference, a
  division by zero.  A buffer that is handed to \<open>ssh2_transport_send\<close> is named (\<open>ptr\<close>), because
  that function compares addresses.  Cipher, MAC and compression contexts are opaque byte
  strings, passed through the functions of their method.
\<close>

unbundle bit_operations_syntax

subsection \<open>Methods\<close>

type_synonym abstr = bytes
type_synonym ptr = "string \<times> nat"

definition SSH2_CRYPT_FLAG_INTEGRATED_MAC :: u32 where "SSH2_CRYPT_FLAG_INTEGRATED_MAC = 1"
definition SSH2_CRYPT_FLAG_PKTLEN_AAD :: u32 where "SSH2_CRYPT_FLAG_PKTLEN_AAD = 2"
definition SSH2_CRYPT_FLAG_REQUIRES_FULL_PACKET :: u32 where "SSH2_CRYPT_FLAG_REQUIRES_FULL_PACKET = 4"

abbreviation (input) FIRST_BLOCK :: int where "FIRST_BLOCK \<equiv> 1"
abbreviation (input) MIDDLE_BLOCK :: int where "MIDDLE_BLOCK \<equiv> 0"
abbreviation (input) LAST_BLOCK :: int where "LAST_BLOCK \<equiv> 2"

text \<open>
  \<open>cm_crypt seq mem n fl abs\<close> works in place on the memory \<open>mem\<close> that starts at the block pointer,
  with \<open>n\<close> the length argument; it may touch bytes behind \<open>n\<close> (the tag).

  \<open>cm_init iv secret encrypt privkeyfile ok abs\<close> and \<open>pm_init compr ok abs\<close> set a context up, \<open>ok\<close> telling
  whether the allocation of the context succeeds; \<open>mm_init key abs\<close> cannot fail.  Every cipher has an
  \<open>init\<close> and a \<open>dtor\<close>, which leaves a NULL context; a MAC's \<open>dtor\<close> may leave the context as it is.  A
  compression method without \<open>init\<close> has no \<open>dtor\<close> either.
\<close>

record crypt_method =
  cm_name :: bytes
  cm_blocksize :: nat
  cm_auth_len :: nat
  cm_flags :: u32
  cm_get_len :: "(u32 \<Rightarrow> bytes \<Rightarrow> abstr \<Rightarrow> rc \<times> u32 \<times> abstr) option"
  cm_crypt :: "u32 \<Rightarrow> bytes \<Rightarrow> nat \<Rightarrow> int \<Rightarrow> abstr \<Rightarrow> rc \<times> bytes \<times> abstr"
  cm_iv_len :: nat
  cm_secret_len :: nat
  cm_init :: "bytes \<Rightarrow> bytes \<Rightarrow> bool \<Rightarrow> bool \<Rightarrow> bool \<Rightarrow> abstr \<Rightarrow> rc \<times> abstr"

record mac_method =
  mm_name :: bytes
  mm_mac_len :: nat
  mm_key_len :: nat
  mm_init :: "bytes \<Rightarrow> abstr \<Rightarrow> abstr"
  mm_dtor :: "abstr \<Rightarrow> abstr"
  mm_etm :: bool
  mm_hash :: "u32 \<Rightarrow> bytes \<Rightarrow> bytes \<Rightarrow> abstr \<Rightarrow> rc \<times> bytes \<times> abstr"

record comp_method =
  pm_name :: bytes
  pm_compress :: bool
  pm_use_in_auth :: bool
  pm_comp :: "nat \<Rightarrow> bytes \<Rightarrow> abstr \<Rightarrow> rc \<times> bytes \<times> abstr"
  pm_decomp :: "nat \<Rightarrow> bytes \<Rightarrow> abstr \<Rightarrow> rc \<times> bytes \<times> abstr"
  pm_init :: "(bool \<Rightarrow> bool \<Rightarrow> abstr option \<Rightarrow> rc \<times> abstr option) option"

text \<open>Of the function pointers of the next two only their presence is kept.\<close>

record kex_method =
  km_name :: bytes
  km_exchange_keys :: bool
  km_cleanup :: bool
  km_flags :: u32

record hostkey_method =
  hm_name :: bytes
  hm_sig_verify :: bool
  hm_encrypt :: bool
  hm_dtor :: bool

subsection \<open>Non-blocking states\<close>

datatype nb_state =
    NB_idle | NB_allocated | NB_created
  | NB_sent | NB_sent1 | NB_sent2 | NB_sent3 | NB_sent4 | NB_sent5 | NB_sent6 | NB_sent7
  | NB_jump1 | NB_jump2 | NB_jump3 | NB_jump4 | NB_jump5
  | NB_error_closing | NB_end | NB_jumpauthagent

instantiation nb_state :: linorder
begin

fun nb_index :: "nb_state \<Rightarrow> nat" where
  "nb_index NB_idle = 0" | "nb_index NB_allocated = 1" | "nb_index NB_created = 2"
| "nb_index NB_sent = 3" | "nb_index NB_sent1 = 4" | "nb_index NB_sent2 = 5"
| "nb_index NB_sent3 = 6" | "nb_index NB_sent4 = 7" | "nb_index NB_sent5 = 8"
| "nb_index NB_sent6 = 9" | "nb_index NB_sent7 = 10" | "nb_index NB_jump1 = 11"
| "nb_index NB_jump2 = 12" | "nb_index NB_jump3 = 13" | "nb_index NB_jump4 = 14"
| "nb_index NB_jump5 = 15" | "nb_index NB_error_closing = 16" | "nb_index NB_end = 17"
| "nb_index NB_jumpauthagent = 18"

definition less_eq_nb_state :: "nb_state \<Rightarrow> nb_state \<Rightarrow> bool" where
  "less_eq_nb_state a b \<longleftrightarrow> nb_index a \<le> nb_index b"

definition less_nb_state :: "nb_state \<Rightarrow> nb_state \<Rightarrow> bool" where
  "less_nb_state a b \<longleftrightarrow> nb_index a < nb_index b"

instance
proof
  fix a b :: nb_state
  show "a \<le> b \<Longrightarrow> b \<le> a \<Longrightarrow> a = b"
    by (cases a; cases b) (simp_all add: less_eq_nb_state_def)
qed (auto simp: less_eq_nb_state_def less_nb_state_def)

end

subsection \<open>Channels, listeners and queued packets\<close>

record channel_data =
  cd_id :: u32
  window_size_initial :: u32
  window_size :: u32
  packet_size :: u32
  cd_close :: bool
  cd_eof :: bool
  extended_data_ignore_mode :: int

record channel =
  channel_type :: bytes
  exit_status :: int
  exit_status_received :: bool
  exit_signal :: "bytes option"
  ch_local :: channel_data
  ch_remote :: channel_data
  adjust_queue :: u32
  read_avail :: u64
  flush_state :: nb_state
  flush_refund_bytes :: u64
  flush_flush_bytes :: u64
  adjust_state :: nb_state
  adjust_adjust :: bytes
  read_state :: nb_state
  write_state :: nb_state
  write_packet :: bytes
  write_bufwrite :: nat
  close_state :: nb_state
  close_packet :: bytes
  wait_eof_state :: nb_state
  wait_closed_state :: nb_state
  free_state :: nb_state
  extData2_state :: nb_state
  process_state :: nb_state
  process_packet :: bytes
  process_local_channel :: bytes
  process_requirev_start :: int
  sendsignal_state :: nb_state
  sendsignal_packet :: bytes

text \<open>What \<open>SSH2_CALLOC\<close> leaves: everything zero.\<close>

definition channel_data_0 :: channel_data where
  "channel_data_0 = \<lparr>cd_id = 0, window_size_initial = 0, window_size = 0, packet_size = 0,
     cd_close = False, cd_eof = False, extended_data_ignore_mode = 0\<rparr>"

definition channel_0 :: channel where
  "channel_0 = \<lparr>channel_type = [], exit_status = 0, exit_status_received = False,
     exit_signal = None, ch_local = channel_data_0, ch_remote = channel_data_0,
     adjust_queue = 0, read_avail = 0, flush_state = NB_idle, flush_refund_bytes = 0,
     flush_flush_bytes = 0, adjust_state = NB_idle, adjust_adjust = [], read_state = NB_idle,
     write_state = NB_idle, write_packet = [], write_bufwrite = 0, close_state = NB_idle,
     close_packet = [], wait_eof_state = NB_idle, wait_closed_state = NB_idle,
     free_state = NB_idle, extData2_state = NB_idle, process_state = NB_idle,
     process_packet = [], process_local_channel = [], process_requirev_start = 0,
     sendsignal_state = NB_idle, sendsignal_packet = []\<rparr>"

record listener =
  ls_host :: bytes
  ls_port :: int
  ls_queue :: "channel list"
  ls_queue_size :: int
  ls_queue_maxsize :: int

text \<open>\<open>pkt_data\<close> is the whole block; only its first \<open>pkt_len\<close> bytes (\<open>data_len\<close>) count.\<close>

record packet =
  pkt_data :: bytes
  pkt_len :: nat
  pkt_head :: nat

subsection \<open>Endpoints and transport buffers\<close>

record endpoint_data =
  kexinit :: "bytes option"
  crypt :: "crypt_method option"
  crypt_abstract :: abstr
  mac :: "mac_method option"
  seqno :: u32
  mac_abstract :: abstr
  comp :: "comp_method option"
  comp_abstract :: "abstr option"
  crypt_prefs :: "bytes option"
  mac_prefs :: "bytes option"
  comp_prefs :: "bytes option"
  lang_prefs :: "bytes option"
  banner :: "bytes option"

definition PACKETBUFSIZE :: nat where "PACKETBUFSIZE = 35000"
definition MAX_SSH_PACKET_LEN :: nat where "MAX_SSH_PACKET_LEN = 35000"
definition LIBSSH2_PACKET_MAXPAYLOAD :: nat where "LIBSSH2_PACKET_MAXPAYLOAD = 40000"
definition LIBSSH2_PACKET_MAXDECOMP :: nat where "LIBSSH2_PACKET_MAXDECOMP = 40000"

text \<open>
  \<open>tp_buf\<close> holds the bytes of \<open>buf\<close> below the write index, so that index is its length.
  \<open>tp_payload\<close> is the allocated block, \<open>tp_wptr\<close> the offset of the write pointer in it.
\<close>

record transportpacket =
  tp_buf :: bytes
  tp_init :: bytes
  tp_readidx :: nat
  tp_packet_length :: u32
  tp_padding_length :: u8
  tp_data_num :: nat
  tp_total_num :: nat
  tp_payload :: "bytes option"
  tp_wptr :: nat
  tp_outbuf :: bytes
  tp_ototal_num :: nat
  tp_odata :: "ptr option"
  tp_olen :: nat
  tp_osent :: nat

subsection \<open>The session\<close>

datatype recv_event = Recv_bytes bytes | Recv_err int
datatype send_event = Send_upto nat | Send_err int

datatype socket_state = SOCKET_CONNECTED | SOCKET_DISCONNECTED | SOCKET_UNKNOWN

definition SSH2_STATE_INITIAL_KEX :: u32 where "SSH2_STATE_INITIAL_KEX = 0x01"
definition SSH2_STATE_EXCHANGING_KEYS :: u32 where "SSH2_STATE_EXCHANGING_KEYS = 0x02"
definition SSH2_STATE_NEWKEYS :: u32 where "SSH2_STATE_NEWKEYS = 0x04"
definition SSH2_STATE_AUTHENTICATED :: u32 where "SSH2_STATE_AUTHENTICATED = 0x08"
definition SSH2_STATE_KEX_ACTIVE :: u32 where "SSH2_STATE_KEX_ACTIVE = 0x10"

lemmas state_bits = SSH2_STATE_INITIAL_KEX_def SSH2_STATE_EXCHANGING_KEYS_def
  SSH2_STATE_NEWKEYS_def SSH2_STATE_AUTHENTICATED_def SSH2_STATE_KEX_ACTIVE_def

definition LIBSSH2_SESSION_BLOCK_INBOUND :: u32 where "LIBSSH2_SESSION_BLOCK_INBOUND = 1"
definition LIBSSH2_SESSION_BLOCK_OUTBOUND :: u32 where "LIBSSH2_SESSION_BLOCK_OUTBOUND = 2"

text \<open>
  The state of an exchange of keys.  Of \<open>struct kmdhgGPshakex_state\<close> the fields are kept that live from one
  call to the next; \<open>xs_h_sig_comp\<close> is the exchange hash.  A pointer is \<open>None\<close> when it is NULL.
\<close>

record kmdhgGPshakex_state =
  xs_state :: nb_state
  xs_e_packet :: "bytes option"
  xs_x :: bytes
  xs_k_value :: "bytes option"
  xs_h_sig_comp :: bytes
  xs_req_start :: int
  xs_burn_state :: nb_state

record key_exchange_state_low =
  lo_state :: nb_state
  lo_req_start :: int
  lo_exchange :: kmdhgGPshakex_state
  lo_p :: nat
  lo_g :: nat
  lo_request :: bytes
  lo_data :: "bytes option"
  lo_private_key :: "bytes option"
  lo_public_key_oct :: "bytes option"
  lo_curve25519_public_key :: "bytes option"
  lo_curve25519_private_key :: "bytes option"
  lo_mlkem_public_key :: "bytes option"
  lo_mlkem_private_key :: "bytes option"

definition exchange_state_0 :: kmdhgGPshakex_state where
  "exchange_state_0 =
     \<lparr>xs_state = NB_idle, xs_e_packet = None, xs_x = [], xs_k_value = None, xs_h_sig_comp = [],
      xs_req_start = 0, xs_burn_state = NB_idle\<rparr>"

definition key_state_low_0 :: key_exchange_state_low where
  "key_state_low_0 =
     \<lparr>lo_state = NB_idle, lo_req_start = 0, lo_exchange = exchange_state_0, lo_p = 0, lo_g = 0,
      lo_request = [], lo_data = None, lo_private_key = None, lo_public_key_oct = None,
      lo_curve25519_public_key = None, lo_curve25519_private_key = None, lo_mlkem_public_key = None,
      lo_mlkem_private_key = None\<rparr>"

record key_exchange_state =
  ks_state :: nb_state
  ks_req_start :: int
  ks_low :: key_exchange_state_low
  ks_data :: "bytes option"
  ks_oldlocal :: "bytes option"

definition key_exchange_state_0 :: key_exchange_state where
  "key_exchange_state_0 =
     \<lparr>ks_state = NB_idle, ks_req_start = 0, ks_low = key_state_low_0, ks_data = None, ks_oldlocal = None\<rparr>"

record listen_state =
  qs_state :: nb_state
  qs_packet :: bytes
  qs_sender_channel :: u32
  qs_initial_window_size :: u32
  qs_packet_size :: u32
  qs_host :: bytes
  qs_port :: u32
  qs_shost :: bytes
  qs_sport :: u32
  qs_channel :: "channel option"

definition listen_state_0 :: listen_state where
  "listen_state_0 = \<lparr>qs_state = NB_idle, qs_packet = [], qs_sender_channel = 0,
     qs_initial_window_size = 0, qs_packet_size = 0, qs_host = [], qs_port = 0,
     qs_shost = [], qs_sport = 0, qs_channel = None\<rparr>"

record session =
  st :: u32
  kex :: "kex_method option"
  kex_prefs :: "bytes option"
  hostkey :: "hostkey_method option"
  hostkey_prefs :: "bytes option"
  sign_algo_prefs :: "bytes option"
  burn_optimistic_kexinit :: u32
  kex_strict :: bool
  flag_compress :: bool
  remote :: endpoint_data
  local :: endpoint_data
  packets :: "packet list"
  channels :: "channel list"
  listeners :: "listener list"
  next_channel :: u32
  socket_st :: socket_state
  block_directions :: u32
  api_block_mode :: bool
  err_code :: int
  tp :: transportpacket
  kexinit_state :: nb_state
  kexinit_data :: "bytes option"
  startup_key_state :: key_exchange_state
  readPack_state :: nb_state
  readPack_encrypted :: bool
  fullpacket_state :: nb_state
  fullpacket_macstate :: int
  fullpacket_payload_len :: nat
  fullpacket_packet_type :: u8
  fullpacket_required_type :: u8
  packAdd_state :: nb_state
  packAdd_channelp :: "u32 option"
  packAdd_Qlstn_state :: listen_state
  packAdd_x11open_state :: listen_state
  packAdd_authagent_state :: listen_state
  has_x11_cb :: bool
  has_authagent_cb :: bool
  macerror_cb :: "(bytes \<Rightarrow> int) option"
  server_sign_algorithms :: "bytes option"
  packet_read_timeout :: int
  disconnect_state :: nb_state
  disconnect_data :: bytes
  keepalive_interval :: int
  keepalive_want_reply :: bool
  keepalive_last_sent :: int
  api_timeout_ms :: int
  open_state :: nb_state
  open_channel :: "u32 option"
  open_packet :: bytes
  open_data :: bytes
  open_local_channel :: u32
  open_requirev_start :: int
  session_id :: "bytes option"
  server_hostkey :: "bytes option"
  server_hostkey_md5 :: "bytes option"
  server_hostkey_sha1 :: "bytes option"
  server_hostkey_sha256 :: "bytes option"
  server_hostkey_abstract :: "abstr option"
  banner_TxRx_state :: nb_state
  banner_TxRx_banner :: bytes
  banner_TxRx_total_send :: nat
  startup_state :: nb_state
  startup_service :: bytes
  startup_req_start :: int
  wire :: bytes
  sock_in :: "recv_event list"
  sock_out :: "send_event list"
  allocs :: "bool list"
  rands :: "bytes option list"
  clock :: "int list"
  polls :: "int list"
  fault :: bool

subsection \<open>A new session\<close>

text \<open>
  \<open>libssh2_session_init_ex\<close>: the zeroed block with its defaults.  The world around it is quiet: no
  bytes have arrived, every byte that is sent is taken, every allocation succeeds.
\<close>

definition endpoint_0 :: endpoint_data where
  "endpoint_0 = \<lparr>kexinit = None, crypt = None, crypt_abstract = [], mac = None, seqno = 0,
     mac_abstract = [], comp = None, comp_abstract = None, crypt_prefs = None, mac_prefs = None,
     comp_prefs = None, lang_prefs = None, banner = None\<rparr>"

definition transportpacket_of :: "bytes \<Rightarrow> transportpacket" where
  "transportpacket_of out = \<lparr>tp_buf = [], tp_init = replicate 5 0, tp_readidx = 0, tp_packet_length = 0,
     tp_padding_length = 0, tp_data_num = 0, tp_total_num = 0, tp_payload = None, tp_wptr = 0,
     tp_outbuf = out, tp_ototal_num = 0, tp_odata = None, tp_olen = 0, tp_osent = 0\<rparr>"

definition transportpacket_0 :: transportpacket where
  "transportpacket_0 = transportpacket_of (replicate MAX_SSH_PACKET_LEN 0)"

definition session_of :: "transportpacket \<Rightarrow> session" where
  "session_of p = \<lparr>st = SSH2_STATE_INITIAL_KEX, kex = None, kex_prefs = None,
     hostkey = None, hostkey_prefs = None, sign_algo_prefs = None, burn_optimistic_kexinit = 0,
     kex_strict = False, flag_compress = False, remote = endpoint_0, local = endpoint_0,
     packets = [], channels = [], listeners = [], next_channel = 0, socket_st = SOCKET_CONNECTED,
     block_directions = 0, api_block_mode = True, err_code = 0, tp = p,
     kexinit_state = NB_idle, kexinit_data = None, startup_key_state = key_exchange_state_0,
     readPack_state = NB_idle, readPack_encrypted = False, fullpacket_state = NB_idle,
     fullpacket_macstate = 0, fullpacket_payload_len = 0, fullpacket_packet_type = 0,
     fullpacket_required_type = 0, packAdd_state = NB_idle, packAdd_channelp = None,
     packAdd_Qlstn_state = listen_state_0, packAdd_x11open_state = listen_state_0,
     packAdd_authagent_state = listen_state_0, has_x11_cb = False, has_authagent_cb = False,
     macerror_cb = None, server_sign_algorithms = None, packet_read_timeout = 60 * 1000000,
     disconnect_state = NB_idle, disconnect_data = [], keepalive_interval = 0,
     keepalive_want_reply = False, keepalive_last_sent = 0, api_timeout_ms = 0, open_state = NB_idle, open_channel = None, open_packet = [],
     open_data = [], open_local_channel = 0, open_requirev_start = 0, session_id = None, server_hostkey = None,
     server_hostkey_md5 = None, server_hostkey_sha1 = None, server_hostkey_sha256 = None,
     server_hostkey_abstract = None, banner_TxRx_state = NB_idle, banner_TxRx_banner = [],
     banner_TxRx_total_send = 0, startup_state = NB_idle, startup_service = [], startup_req_start = 0,
     wire = [], sock_in = [],
     sock_out = [], allocs = [], rands = [], clock = [], polls = [], fault = False\<rparr>"

definition libssh2_session_init_ex :: session where
  "libssh2_session_init_ex = session_of transportpacket_0"

lemmas session_init_defs = libssh2_session_init_ex_def session_of_def endpoint_0_def
  transportpacket_0_def transportpacket_of_def

text \<open>A session for examples that do not send anything: it has no room for outgoing packets.\<close>

definition bare_session :: session where
  "bare_session = session_of (transportpacket_of [])"

subsection \<open>The session's state bits\<close>

definition has_st :: "u32 \<Rightarrow> session \<Rightarrow> bool" where
  "has_st b s \<longleftrightarrow> st s AND b \<noteq> 0"

definition set_st :: "u32 \<Rightarrow> session \<Rightarrow> session" where
  "set_st b s = s\<lparr>st := st s OR b\<rparr>"

definition clr_st :: "u32 \<Rightarrow> session \<Rightarrow> session" where
  "clr_st b s = s\<lparr>st := st s AND NOT b\<rparr>"

lemma has_st_set_same [simp]: "b \<noteq> 0 \<Longrightarrow> has_st b (set_st b s)"
  unfolding has_st_def set_st_def
  by (simp add: bit.conj_disj_distrib2 and.commute [of _ b] bit.conj_disj_distrib)

lemma has_st_set_other [simp]: "c AND b = 0 \<Longrightarrow> has_st b (set_st c s) = has_st b s"
  by (simp add: has_st_def set_st_def bit.conj_disj_distrib2 and.commute [of _ b]
      bit.conj_disj_distrib and.commute [of c b])

lemma has_st_clr_same [simp]: "\<not> has_st b (clr_st b s)"
  by (simp add: has_st_def clr_st_def and.assoc)

lemma has_st_clr_other [simp]: "c AND b = 0 \<Longrightarrow> has_st b (clr_st c s) = has_st b s"
proof -
  assume "c AND b = 0"
  then have "\<not> (bit c n \<and> bit b n)" for n
    using bit_and_iff [of c b n] by simp
  then have "NOT c AND b = b"
    by (intro bit_word_eqI) (auto simp: bit_and_iff bit_not_iff)
  then show ?thesis by (simp add: has_st_def clr_st_def and.assoc)
qed

subsection \<open>Errors, memory, randomness, time\<close>

text \<open>\<open>ssh2_err\<close>: the message is not modelled; the code is recorded and returned.\<close>

definition ssh2_err :: "int \<Rightarrow> session \<Rightarrow> rc \<times> session" where
  "ssh2_err e s = (e, s\<lparr>err_code := e\<rparr>)"

definition ssh2_alloc :: "session \<Rightarrow> bool \<times> session" where
  "ssh2_alloc s =
     (case allocs s of [] \<Rightarrow> (True, s) | a # as \<Rightarrow> (a, s\<lparr>allocs := as\<rparr>))"

text \<open>\<open>ssh2_random\<close> fills \<open>n\<close> bytes or fails.\<close>

definition pad_to :: "nat \<Rightarrow> bytes \<Rightarrow> bytes" where
  "pad_to n bs = take n (bs @ replicate n 0)"

lemma length_pad_to [simp]: "length (pad_to n bs) = n"
  by (simp add: pad_to_def)

definition ssh2_random :: "nat \<Rightarrow> session \<Rightarrow> bytes option \<times> session" where
  "ssh2_random n s =
     (case rands s of
        [] \<Rightarrow> (Some (replicate n 0), s)
      | r # rs \<Rightarrow> (map_option (pad_to n) r, s\<lparr>rands := rs\<rparr>))"

definition ssh2_now :: "session \<Rightarrow> int \<times> session" where
  "ssh2_now s = (case clock s of [] \<Rightarrow> (0, s) | [t] \<Rightarrow> (t, s) | t # ts \<Rightarrow> (t, s\<lparr>clock := ts\<rparr>))"

subsection \<open>The socket\<close>

abbreviation (input) EAGAIN :: int where "EAGAIN \<equiv> 11"

text \<open>
  \<open>SSH2_RECV\<close> with room for \<open>n\<close> bytes: at least one byte of what has arrived, 0 when the peer has
  closed, or a negative error; when nothing is scripted, the socket would block.
\<close>

definition ssh2_recv :: "nat \<Rightarrow> session \<Rightarrow> int \<times> bytes \<times> session" where
  "ssh2_recv n s =
     (case sock_in s of
        [] \<Rightarrow> (- EAGAIN, [], s)
      | Recv_err e # r \<Rightarrow> (if e < 0 then e else - EAGAIN, [], s\<lparr>sock_in := r\<rparr>)
      | Recv_bytes bs # r \<Rightarrow>
          (int (length (take n bs)), take n bs,
           s\<lparr>sock_in := (if n < length bs then Recv_bytes (drop n bs) # r else r)\<rparr>))"

text \<open>\<open>SSH2_SEND\<close>: some prefix of the bytes leaves, or a negative error.\<close>

definition ssh2_send :: "bytes \<Rightarrow> session \<Rightarrow> int \<times> session" where
  "ssh2_send bs s =
     (case sock_out s of
        [] \<Rightarrow> (int (length bs), s\<lparr>wire := wire s @ bs\<rparr>)
      | Send_err e # r \<Rightarrow> (if e < 0 then e else - EAGAIN, s\<lparr>sock_out := r\<rparr>)
      | Send_upto n # r \<Rightarrow>
          (int (length (take n bs)), s\<lparr>sock_out := r, wire := wire s @ take n bs\<rparr>))"

lemma ssh2_send_cases:
  obtains e where "ssh2_send bs s = (e, s\<lparr>sock_out := tl (sock_out s)\<rparr>)" "e < 0"
  | k where "ssh2_send bs s = (int k, s\<lparr>sock_out := tl (sock_out s), wire := wire s @ take k bs\<rparr>)"
      "k \<le> length bs"
proof (cases "sock_out s")
  case Nil
  then have "ssh2_send bs s =
      (int (length bs), s\<lparr>sock_out := tl (sock_out s), wire := wire s @ take (length bs) bs\<rparr>)"
    by (simp add: ssh2_send_def)
  then show thesis by (rule that(2)) simp
next
  case (Cons ev r)
  show thesis
  proof (cases ev)
    case (Send_upto n)
    then have "ssh2_send bs s = (int (min n (length bs)),
        s\<lparr>sock_out := tl (sock_out s), wire := wire s @ take (min n (length bs)) bs\<rparr>)"
      using Cons by (auto simp: ssh2_send_def min_def)
    then show thesis by (rule that(2)) simp
  next
    case (Send_err e)
    then have "ssh2_send bs s = (if e < 0 then e else - EAGAIN, s\<lparr>sock_out := tl (sock_out s)\<rparr>)"
      using Cons by (simp add: ssh2_send_def)
    then show thesis by (intro that(1)) auto
  qed
qed

subsection \<open>Memory\<close>

text \<open>Copying \<open>bs\<close> to offset \<open>off\<close> of a block; outside the block it is a fault.\<close>

definition mem_put :: "nat \<Rightarrow> bytes \<Rightarrow> bytes \<Rightarrow> bytes" where
  "mem_put off bs mem = take off mem @ bs @ drop (off + length bs) mem"

lemma length_mem_put [simp, len_simps]:
  "off + length bs \<le> length mem \<Longrightarrow> length (mem_put off bs mem) = length mem"
  by (simp add: mem_put_def)

lemma take_mem_put: "off + length bs \<le> length mem \<Longrightarrow> n \<le> off \<Longrightarrow> take n (mem_put off bs mem) = take n mem"
  by (simp add: mem_put_def)

lemma slice_mem_put: "off + length bs \<le> length mem \<Longrightarrow> slice off (length bs) (mem_put off bs mem) = bs"
  by (simp add: mem_put_def slice_def)

lemma take_mem_put_end: "off + length bs \<le> length mem \<Longrightarrow>
    take (off + length bs) (mem_put off bs mem) = take off mem @ bs"
  by (simp add: mem_put_def)

definition set_fault :: "session \<Rightarrow> session" where
  "set_fault s = s\<lparr>fault := True\<rparr>"

text \<open>\<open>assert\<close>.\<close>

definition c_assert :: "bool \<Rightarrow> session \<Rightarrow> session" where
  "c_assert b s = (if b then s else set_fault s)"

subsection \<open>Channels of a session\<close>

abbreviation "ch_id c \<equiv> cd_id (ch_local c)"

fun update_first :: "('a \<Rightarrow> bool) \<Rightarrow> ('a \<Rightarrow> 'a) \<Rightarrow> 'a list \<Rightarrow> 'a list" where
  "update_first P f [] = []"
| "update_first P f (x # xs) = (if P x then f x # xs else x # update_first P f xs)"

lemma length_update_first [simp]: "length (update_first P f xs) = length xs"
  by (induction xs) simp_all

lemma map_update_first: "(\<And>x. P x \<Longrightarrow> g (f x) = g x) \<Longrightarrow> map g (update_first P f xs) = map g xs"
  by (induction xs) simp_all

lemma update_first_none: "\<forall>x \<in> set xs. \<not> P x \<Longrightarrow> update_first P f xs = xs"
  by (induction xs) simp_all

lemma find_update_first:
  "(\<And>x. P x \<Longrightarrow> P (f x)) \<Longrightarrow> find P (update_first P f xs) = map_option f (find P xs)"
  by (induction xs) simp_all

lemma find_update_first_other:
  "(\<And>x. P x \<Longrightarrow> \<not> Q x \<and> \<not> Q (f x)) \<Longrightarrow> find Q (update_first P f xs) = find Q xs"
  by (induction xs) auto

text \<open>
  A pointer to a channel is its local id.  \<open>get_chan\<close> and \<open>upd_chan\<close> dereference it; a pointer to a
  channel the session does not hold any more is a fault.
\<close>

definition all_channels :: "session \<Rightarrow> channel list" where
  "all_channels s = channels s @ concat (map ls_queue (listeners s))"

definition find_chan :: "u32 \<Rightarrow> session \<Rightarrow> channel option" where
  "find_chan i s = find (\<lambda>c. ch_id c = i) (all_channels s)"

definition get_chan :: "u32 \<Rightarrow> session \<Rightarrow> channel" where
  "get_chan i s = (case find_chan i s of Some c \<Rightarrow> c | None \<Rightarrow> channel_0)"

fun upd_queues :: "(channel \<Rightarrow> bool) \<Rightarrow> (channel \<Rightarrow> channel) \<Rightarrow> listener list \<Rightarrow> listener list" where
  "upd_queues P f [] = []"
| "upd_queues P f (l # ls) =
     (if \<exists>c \<in> set (ls_queue l). P c then l\<lparr>ls_queue := update_first P f (ls_queue l)\<rparr> # ls
      else l # upd_queues P f ls)"

definition upd_chan :: "u32 \<Rightarrow> (channel \<Rightarrow> channel) \<Rightarrow> session \<Rightarrow> session" where
  "upd_chan i f s =
     (if \<exists>c \<in> set (channels s). ch_id c = i
      then s\<lparr>channels := update_first (\<lambda>c. ch_id c = i) f (channels s)\<rparr>
      else if \<exists>c \<in> set (concat (map ls_queue (listeners s))). ch_id c = i
      then s\<lparr>listeners := upd_queues (\<lambda>c. ch_id c = i) f (listeners s)\<rparr>
      else set_fault s)"

lemma update_first_append:
  "update_first P f (xs @ ys) =
   (if \<exists>x \<in> set xs. P x then update_first P f xs @ ys else xs @ update_first P f ys)"
  by (induction xs) auto

lemma upd_queues_concat:
  "concat (map ls_queue (upd_queues P f ls)) = update_first P f (concat (map ls_queue ls))"
  by (induction ls) (auto simp: update_first_append)

lemma all_channels_upd_chan:
  "all_channels (upd_chan i f s) = update_first (\<lambda>c. ch_id c = i) f (all_channels s)"
proof -
  have "update_first (\<lambda>c. ch_id c = i) f (all_channels s) = all_channels s"
    if "\<not> (\<exists>c \<in> set (all_channels s). ch_id c = i)"
    using that by (intro update_first_none) auto
  moreover have "update_first P f xs = xs" if "\<not> (\<exists>c \<in> set xs. P c)" for P and xs :: "channel list"
    using that by (intro update_first_none) auto
  ultimately show ?thesis
    unfolding upd_chan_def all_channels_def set_fault_def
    by (auto simp: upd_queues_concat update_first_append)
qed

lemma find_chan_upd:
  "(\<And>c. ch_id (f c) = ch_id c) \<Longrightarrow>
   find_chan j (upd_chan i f s) = (if j = i then map_option f (find_chan i s) else find_chan j s)"
  unfolding find_chan_def all_channels_upd_chan
  by (auto simp: find_update_first intro: find_update_first_other)

lemma get_chan_upd:
  "(\<And>c. ch_id (f c) = ch_id c) \<Longrightarrow> find_chan i s \<noteq> None \<Longrightarrow>
   get_chan j (upd_chan i f s) = (if j = i then f (get_chan i s) else get_chan j s)"
  by (auto simp: get_chan_def find_chan_upd split: option.splits)

lemma find_chan_id: "find_chan i s = Some c \<Longrightarrow> ch_id c = i"
  unfolding find_chan_def by (auto simp: find_Some_iff)

end
