(* ===== verification/Transport.thy ===== *)
theory Transport
  imports Session
begin

text \<open>
  \<open>transport.c\<close>: sending and receiving binary packets (RFC 4253, section 6).

  The key exchange that both directions may be redirected into is the argument \<open>kx\<close>, and the
  handler of a received packet the argument \<open>padd\<close>; the theory of the key exchange ties these
  knots.  \<open>transport_debugdump\<close> only traces.
\<close>

subsection \<open>Helpers\<close>

definition CRYPT_FLAG_L :: "session \<Rightarrow> u32 \<Rightarrow> bool" where
  "CRYPT_FLAG_L s f = (case crypt (local s) of None \<Rightarrow> False | Some m \<Rightarrow> cm_flags m AND f \<noteq> 0)"

definition CRYPT_FLAG_R :: "session \<Rightarrow> u32 \<Rightarrow> bool" where
  "CRYPT_FLAG_R s f = (case crypt (remote s) of None \<Rightarrow> False | Some m \<Rightarrow> cm_flags m AND f \<noteq> 0)"

definition upd_tp :: "(transportpacket \<Rightarrow> transportpacket) \<Rightarrow> session \<Rightarrow> session" where
  "upd_tp f s = s\<lparr>tp := f (tp s)\<rparr>"

definition upd_local :: "(endpoint_data \<Rightarrow> endpoint_data) \<Rightarrow> session \<Rightarrow> session" where
  "upd_local f s = s\<lparr>local := f (local s)\<rparr>"

definition upd_remote :: "(endpoint_data \<Rightarrow> endpoint_data) \<Rightarrow> session \<Rightarrow> session" where
  "upd_remote f s = s\<lparr>remote := f (remote s)\<rparr>"

lemmas upd_defs = upd_tp_def upd_local_def upd_remote_def

definition block_out :: "session \<Rightarrow> session" where
  "block_out s = s\<lparr>block_directions := block_directions s OR LIBSSH2_SESSION_BLOCK_OUTBOUND\<rparr>"

definition block_in :: "session \<Rightarrow> session" where
  "block_in s = s\<lparr>block_directions := block_directions s OR LIBSSH2_SESSION_BLOCK_INBOUND\<rparr>"

text \<open>
  One call of a cipher on the memory that starts at offset \<open>off\<close> of a buffer.  It works in place: the
  block keeps its size.
\<close>

definition crypt_at :: "crypt_method \<Rightarrow> u32 \<Rightarrow> nat \<Rightarrow> nat \<Rightarrow> int \<Rightarrow> bytes \<Rightarrow> abstr \<Rightarrow>
    rc \<times> bytes \<times> abstr" where
  "crypt_at m seq off n fl buf a =
     (case cm_crypt m seq (drop off buf) n fl a of (rc, suf, a) \<Rightarrow> (rc, take off buf @ pad_to (length buf - off) suf, a))"

text \<open>
  The redirection into an interrupted key exchange, common to both directions: while keys are being
  exchanged and the exchange itself is not the caller.
\<close>

definition rekey_redirect :: "(session \<Rightarrow> rc \<times> session) \<Rightarrow> session \<Rightarrow> rc \<times> session" where
  "rekey_redirect kx s =
     (if has_st SSH2_STATE_EXCHANGING_KEYS s \<and> \<not> has_st SSH2_STATE_KEX_ACTIVE s
      then kx s else (0, s))"

definition comp_active :: "session \<Rightarrow> bool" where
  "comp_active s =
     (case comp (local s) of
        None \<Rightarrow> False
      | Some m \<Rightarrow> pm_compress m \<and> (has_st SSH2_STATE_AUTHENTICATED s \<or> pm_use_in_auth m))"

subsection \<open>Finishing a packet in transmission\<close>

definition transport_send_existing :: "ptr \<Rightarrow> nat \<Rightarrow> session \<Rightarrow> rc \<times> int \<times> session" where
  "transport_send_existing data data_len s =
     (if tp_olen (tp s) = 0 then (LIBSSH2_ERROR_NONE, 0, s)
      else if Some data \<noteq> tp_odata (tp s) \<or> data_len \<noteq> tp_olen (tp s)
      then (LIBSSH2_ERROR_EAGAIN, 0, s)
      else
        let len = tp_ototal_num (tp s) - tp_osent (tp s) in
        case ssh2_send (slice (tp_osent (tp s)) len (tp_outbuf (tp s))) s of (rc, s) \<Rightarrow>
          if rc = int len
          then (LIBSSH2_ERROR_NONE, 1, upd_tp (\<lambda>p. p\<lparr>tp_ototal_num := 0, tp_olen := 0\<rparr>) s)
          else if rc < 0
          then if rc \<noteq> - EAGAIN then (LIBSSH2_ERROR_SOCKET_SEND, 1, s)
               else (LIBSSH2_ERROR_EAGAIN, 1, block_out s)
          else (if rc < int len then LIBSSH2_ERROR_EAGAIN else LIBSSH2_ERROR_NONE, 1,
                upd_tp (\<lambda>p. p\<lparr>tp_osent := tp_osent p + nat rc\<rparr>) s))"

subsection \<open>Building and protecting a packet\<close>

text \<open>The payload, compressed when compression is in use; the two data areas are combined.\<close>

definition send_payload :: "bool \<Rightarrow> bytes \<Rightarrow> bytes \<Rightarrow> session \<Rightarrow> rc \<times> bytes \<times> session" where
  "send_payload encrypted data data2 s =
     (case (if encrypted \<and> comp_active s then comp_abstract (local s) else None, comp (local s)) of
        (Some a, Some m) \<Rightarrow>
          (let dest_len = MAX_SSH_PACKET_LEN - 5 - 256 in
           case pm_comp m dest_len data a of (rc, d1, a) \<Rightarrow>
           let s = upd_local (\<lambda>e. e\<lparr>comp_abstract := Some a\<rparr>) s in
           if rc \<noteq> 0 then (rc, [], s)
           else if data2 \<noteq> [] then
             (case pm_comp m (dest_len - length d1) data2 a of (rc, d2, a) \<Rightarrow>
              let s = upd_local (\<lambda>e. e\<lparr>comp_abstract := Some a\<rparr>) s in
              if rc \<noteq> 0 then (rc, [], s) else (0, d1 @ d2, s))
           else (0, d1, s))
      | _ \<Rightarrow>
          if length data + length data2 \<ge> MAX_SSH_PACKET_LEN - 0x100
          then (LIBSSH2_ERROR_INVAL, [], s)
          else (0, data @ data2, s))"

definition send_padding :: "nat \<Rightarrow> nat \<Rightarrow> nat" where
  "send_padding blocksize n =
     (let padding_length = blocksize - n mod blocksize
      in if padding_length < 4 then padding_length + blocksize else padding_length)"

text \<open>
  The loop that encrypts the packet in place.  The subtraction \<open>packet_length - 2 * bsize\<close> is one of
  \<open>size_t\<close>: when it would be negative it wraps and the comparison fails.
\<close>

function encrypt_loop :: "crypt_method \<Rightarrow> nat \<Rightarrow> nat \<Rightarrow> bytes \<Rightarrow> abstr \<Rightarrow> rc \<times> bytes \<times> abstr" where
  "encrypt_loop m packet_length i buf a =
     (if i < packet_length \<and> cm_blocksize m > 0 then
        let bs = cm_blocksize m;
            bsize = min bs (packet_length - i);
            integrated = cm_flags m AND SSH2_CRYPT_FLAG_INTEGRATED_MAC \<noteq> 0;
            firstlast = (if i = 0 then FIRST_BLOCK
                         else if \<not> integrated \<and> i + bs = packet_length then LAST_BLOCK
                         else MIDDLE_BLOCK);
            merge = (\<not> integrated \<and> 2 * bsize \<le> packet_length \<and> i > packet_length - 2 * bsize);
            n = (if merge then packet_length - i else bsize);
            nexti = (if merge then packet_length else i + bs)
        in case crypt_at m 0 i n firstlast buf a of (rc, buf, a) \<Rightarrow>
             if rc \<noteq> 0 then (LIBSSH2_ERROR_ENCRYPT, buf, a)
             else encrypt_loop m packet_length nexti buf a
      else (0, buf, a))"
  by pat_completeness auto
termination by (relation "measure (\<lambda>(m, pl, i, buf, a). pl - i)") (auto simp: Let_def)

declare encrypt_loop.simps [simp del]

text \<open>MAC before encryption, unless the cipher has its own or the MAC comes after it.\<close>

definition send_mac :: "mac_method \<Rightarrow> nat \<Rightarrow> session \<Rightarrow> rc \<times> session" where
  "send_mac m packet_length s =
     (case mm_hash m (seqno (local s)) (take packet_length (tp_outbuf (tp s))) []
             (mac_abstract (local s)) of
        (rc, mac_bytes, a) \<Rightarrow>
          let s = upd_local (\<lambda>e. e\<lparr>mac_abstract := a\<rparr>) s in
          if rc \<noteq> 0 then ssh2_err LIBSSH2_ERROR_MAC_FAILURE s
          else (0, upd_tp (\<lambda>p. p\<lparr>tp_outbuf := mem_put packet_length mac_bytes (tp_outbuf p)\<rparr>) s))"

definition set_crypt_result :: "bytes \<Rightarrow> abstr \<Rightarrow> session \<Rightarrow> session" where
  "set_crypt_result buf a s =
     upd_local (\<lambda>e. e\<lparr>crypt_abstract := a\<rparr>) (upd_tp (\<lambda>p. p\<lparr>tp_outbuf := buf\<rparr>) s)"

definition send_encrypt :: "crypt_method \<Rightarrow> bool \<Rightarrow> mac_method option \<Rightarrow> nat \<Rightarrow> nat \<Rightarrow> session \<Rightarrow>
    rc \<times> session" where
  "send_encrypt m etm local_mac packet_length total_length s =
     (if cm_flags m AND SSH2_CRYPT_FLAG_REQUIRES_FULL_PACKET \<noteq> 0 then
        (case crypt_at m (seqno (local s)) 0 packet_length 0 (tp_outbuf (tp s))
                (crypt_abstract (local s)) of
           (rc, buf, a) \<Rightarrow>
             (if rc \<noteq> 0 then LIBSSH2_ERROR_ENCRYPT else 0, set_crypt_result buf a s))
      else
        case encrypt_loop m packet_length (if etm then 4 else 0) (tp_outbuf (tp s))
               (crypt_abstract (local s)) of
          (rc, buf, a) \<Rightarrow>
            let s = set_crypt_result buf a s in
            if rc \<noteq> 0 then (rc, s)
            else if cm_flags m AND SSH2_CRYPT_FLAG_INTEGRATED_MAC \<noteq> 0 then
              let authlen = (case local_mac of None \<Rightarrow> 0 | Some h \<Rightarrow> mm_mac_len h);
                  s = c_assert (total_length \<le> packet_length + cm_blocksize m) s
              in (case crypt_at m 0 packet_length authlen LAST_BLOCK (tp_outbuf (tp s))
                         (crypt_abstract (local s)) of
                    (rc, buf, a) \<Rightarrow>
                      (if rc \<noteq> 0 then LIBSSH2_ERROR_ENCRYPT else 0, set_crypt_result buf a s))
            else (0, s))"

definition send_mac_if :: "bool \<Rightarrow> mac_method option \<Rightarrow> nat \<Rightarrow> session \<Rightarrow> rc \<times> session" where
  "send_mac_if b local_mac packet_length s =
     (case local_mac of
        None \<Rightarrow> (0, s)
      | Some h \<Rightarrow> (if b then send_mac h packet_length s else (0, s)))"

definition send_protect :: "crypt_method \<Rightarrow> bool \<Rightarrow> mac_method option \<Rightarrow> nat \<Rightarrow> nat \<Rightarrow> session \<Rightarrow>
    rc \<times> session" where
  "send_protect m etm local_mac packet_length total_length s =
     (let integrated = (cm_flags m AND SSH2_CRYPT_FLAG_INTEGRATED_MAC \<noteq> 0);
          (rc, s) = send_mac_if (\<not> etm \<and> \<not> integrated) local_mac packet_length s
      in if rc \<noteq> 0 then (rc, s)
         else
           let (rc, s) = send_encrypt m etm local_mac packet_length total_length s
           in if rc \<noteq> 0 then (rc, s) else send_mac_if etm local_mac packet_length s)"

text \<open>
  Header, payload and padding go to the start of \<open>outbuf\<close>; a failing random generator ends the
  attempt.  The lengths are those of \<open>size_t\<close> arithmetic that cannot wrap here.
\<close>

definition send_crypt_offset :: "bool \<Rightarrow> nat \<Rightarrow> bool \<Rightarrow> session \<Rightarrow> nat" where
  "send_crypt_offset etm auth_len encrypted s =
     (if etm \<or> auth_len \<noteq> 0 \<or> (encrypted \<and> CRYPT_FLAG_L s SSH2_CRYPT_FLAG_PKTLEN_AAD)
      then 4 else 0)"

definition send_frame :: "bytes \<Rightarrow> nat \<Rightarrow> session \<Rightarrow> rc \<times> session" where
  "send_frame payload padding_length s =
     (let packet_length = length payload + 5 + padding_length in
      case ssh2_random padding_length s of
        (None, s) \<Rightarrow> ssh2_err LIBSSH2_ERROR_RANDGEN s
      | (Some junk, s) \<Rightarrow>
          (0, upd_tp (\<lambda>p. p\<lparr>tp_outbuf := mem_put 0
                (ssh2_htonu32 (of_nat (packet_length - 4)) @ [of_nat padding_length] @
                 payload @ junk) (tp_outbuf p)\<rparr>) s))"

text \<open>The sequence number, its reset under strict key exchange, and the first attempt to send.\<close>

definition send_out :: "ptr \<Rightarrow> bytes \<Rightarrow> nat \<Rightarrow> session \<Rightarrow> rc \<times> session" where
  "send_out orgdata data total_length s =
     (let s = upd_local (\<lambda>e. e\<lparr>seqno := seqno e + 1\<rparr>) s;
          s = (if kex_strict s \<and> chr_at data 0 = 21
               then upd_local (\<lambda>e. e\<lparr>seqno := 0\<rparr>) s else s)
      in case ssh2_send (take total_length (tp_outbuf (tp s))) s of (ret, s) \<Rightarrow>
           if ret \<noteq> int total_length then
             if ret \<ge> 0 \<or> ret = - EAGAIN then
               (LIBSSH2_ERROR_EAGAIN,
                upd_tp (\<lambda>p. p\<lparr>tp_odata := Some orgdata, tp_olen := length data,
                              tp_osent := (if ret \<le> 0 then 0 else nat ret),
                              tp_ototal_num := total_length\<rparr>) (block_out s))
             else (LIBSSH2_ERROR_SOCKET_SEND, s)
           else (LIBSSH2_ERROR_NONE, upd_tp (\<lambda>p. p\<lparr>tp_odata := None, tp_olen := 0\<rparr>) s))"

text \<open>A new packet; \<open>blocksize\<close> is the one that held when \<open>ssh2_transport_send\<close> was entered.\<close>

definition transport_send_new :: "nat \<Rightarrow> ptr \<Rightarrow> bytes \<Rightarrow> bytes \<Rightarrow> session \<Rightarrow> rc \<times> session" where
  "transport_send_new blocksize orgdata data data2 s =
     (let encrypted = has_st SSH2_STATE_NEWKEYS s;
          full = encrypted \<and> CRYPT_FLAG_L s SSH2_CRYPT_FLAG_REQUIRES_FULL_PACKET;
          auth_len = (if full then case crypt (local s) of None \<Rightarrow> 0 | Some m \<Rightarrow> cm_auth_len m else 0);
          local_mac = (if full then None else mac (local s));
          etm = (encrypted \<and> (case local_mac of None \<Rightarrow> False | Some h \<Rightarrow> mm_etm h))
      in case send_payload encrypted data data2 s of (rc, payload, s) \<Rightarrow>
           if rc \<noteq> 0 then (rc, s)
           else if blocksize = 0 then (0, set_fault s)
           else
             let padding_length = send_padding blocksize
                   (length payload + 5 - send_crypt_offset etm auth_len encrypted s);
                 packet_length = length payload + 5 + padding_length;
                 total_length = packet_length +
                   (if encrypted then case local_mac of None \<Rightarrow> 0 | Some h \<Rightarrow> mm_mac_len h else 0) +
                   auth_len
             in case send_frame payload padding_length s of (rc, s) \<Rightarrow>
                  if rc \<noteq> 0 then (rc, s)
                  else
                    case (if encrypted then
                            case crypt (local s) of
                              None \<Rightarrow> (0, set_fault s)
                            | Some m \<Rightarrow> send_protect m etm local_mac packet_length total_length s
                          else (0, s)) of (rc, s) \<Rightarrow>
                      if rc \<noteq> 0 then (rc, s) else send_out orgdata data total_length s)"

definition ssh2_transport_send :: "(session \<Rightarrow> rc \<times> session) \<Rightarrow> ptr \<Rightarrow> bytes \<Rightarrow> bytes \<Rightarrow> session \<Rightarrow>
    rc \<times> session" where
  "ssh2_transport_send kx ptr data data2 s =
     (let blocksize = (if has_st SSH2_STATE_NEWKEYS s
                       then case crypt (local s) of None \<Rightarrow> 0 | Some m \<Rightarrow> cm_blocksize m else 8);
          s = c_assert (has_st SSH2_STATE_NEWKEYS s \<longrightarrow> crypt (local s) \<noteq> None) s
      in case transport_send_existing ptr (length data) s of (rc, ret, s) \<Rightarrow>
           if rc \<noteq> 0 then (rc, s)
           else
             let s = s\<lparr>block_directions := block_directions s AND NOT LIBSSH2_SESSION_BLOCK_OUTBOUND\<rparr>
             in if ret \<noteq> 0 then (rc, s)
                else case rekey_redirect kx s of (rc, s) \<Rightarrow>
                  if rc \<noteq> 0 then (rc, s) else transport_send_new blocksize ptr data data2 s)"

subsection \<open>Decrypting\<close>

text \<open>
  \<open>transport_decrypt\<close>: the plain bytes are collected in \<open>dest\<close>, the source memory is changed in place.
\<close>

function decrypt_loop :: "crypt_method \<Rightarrow> nat \<Rightarrow> nat \<Rightarrow> int \<Rightarrow> bytes \<Rightarrow> bytes \<Rightarrow> abstr \<Rightarrow>
    rc \<times> bytes \<times> bytes \<times> abstr" where
  "decrypt_loop m off n fl src dest a =
     (if n > 0 \<and> cm_blocksize m > 0 then
        let bs = cm_blocksize m;
            last_merge = (cm_flags m AND SSH2_CRYPT_FLAG_PKTLEN_AAD \<noteq> 0 \<and> fl AND LAST_BLOCK \<noteq> 0 \<and>
                          n < bs * 2);
            decryptlen = (if last_merge then n else min bs n);
            lowerfirstlast = (if last_merge then LAST_BLOCK
                              else if fl AND FIRST_BLOCK \<noteq> 0 then FIRST_BLOCK
                              else if n \<le> bs then fl else MIDDLE_BLOCK)
        in case crypt_at m 0 off decryptlen lowerfirstlast src a of (rc, src, a) \<Rightarrow>
             if rc \<noteq> 0 then (LIBSSH2_ERROR_DECRYPT, dest, src, a)
             else decrypt_loop m (off + decryptlen) (n - decryptlen) fl src
                    (dest @ slice off decryptlen src) a
      else (LIBSSH2_ERROR_NONE, dest, src, a))"
  by pat_completeness auto
termination by (relation "measure (\<lambda>(m, off, n, fl, src, dest, a). n)") (auto simp: Let_def)

declare decrypt_loop.simps [simp del]

definition transport_decrypt :: "bytes \<Rightarrow> nat \<Rightarrow> nat \<Rightarrow> int \<Rightarrow> session \<Rightarrow> rc \<times> bytes \<times> bytes \<times> session" where
  "transport_decrypt src off n fl s =
     (case crypt (remote s) of
        None \<Rightarrow> (LIBSSH2_ERROR_NONE, [], src, set_fault s)
      | Some m \<Rightarrow>
          let s = (if cm_flags m AND SSH2_CRYPT_FLAG_PKTLEN_AAD = 0
                   then c_assert (n mod cm_blocksize m = 0) s else s)
          in case decrypt_loop m off n fl src [] (crypt_abstract (remote s)) of
               (rc, dest, src, a) \<Rightarrow>
                 let s = upd_remote (\<lambda>e. e\<lparr>crypt_abstract := a\<rparr>) s;
                     s = (if rc \<noteq> 0 then upd_tp (\<lambda>p. p\<lparr>tp_payload := None\<rparr>) s else s)
                 in (rc, dest, src, s))"

subsection \<open>A full packet has arrived\<close>

definition payload_of :: "session \<Rightarrow> bytes" where
  "payload_of s = (case tp_payload (tp s) of Some b \<Rightarrow> b | None \<Rightarrow> [])"

definition free_payload :: "session \<Rightarrow> session" where
  "free_payload s = upd_tp (\<lambda>p. p\<lparr>tp_payload := None\<rparr>) s"

abbreviation (input) SSH2_MAC_CONFIRMED :: int where "SSH2_MAC_CONFIRMED \<equiv> 0"
abbreviation (input) SSH2_MAC_INVALID :: int where "SSH2_MAC_INVALID \<equiv> - 1"

text \<open>Encrypt-then-MAC: the authenticated packet is decrypted into a fresh block.\<close>

definition fullpacket_etm_decrypt :: "mac_method \<Rightarrow> session \<Rightarrow> rc \<times> session" where
  "fullpacket_etm_decrypt rm s =
     (let p = tp s;
          blocksize = (case crypt (remote s) of None \<Rightarrow> 0 | Some m \<Rightarrow> cm_blocksize m)
      in if tp_total_num p < mm_mac_len rm + 4 + blocksize
         then (LIBSSH2_ERROR_DECRYPT, free_payload s)
         else
           let decrypt_size = tp_total_num p - mm_mac_len rm - 4 in
           let (rc, first_block, src, s) = transport_decrypt (payload_of s) 4 blocksize FIRST_BLOCK s
           in if rc \<noteq> 0 then (rc, s)
              else
                let (ok, s) = ssh2_alloc s
                in if \<not> ok then (LIBSSH2_ERROR_ALLOC, free_payload s)
                   else
                     let s = upd_tp (\<lambda>p. p\<lparr>tp_padding_length := chr_at first_block 0\<rparr>) s in
                     if ucast (tp_padding_length (tp s)) > tp_packet_length (tp s) - 1
                     then (LIBSSH2_ERROR_PROTO, free_payload s)
                     else
                       let (rc, rest_plain, src, s) =
                             (if blocksize < decrypt_size
                              then transport_decrypt src (blocksize + 4) (decrypt_size - blocksize)
                                     LAST_BLOCK s
                              else (0, [], src, s))
                       in if rc \<noteq> 0 then (rc, s)
                           else (0, upd_tp (\<lambda>p. p\<lparr>tp_payload :=
                                  Some (pad_to decrypt_size (drop 1 first_block @ rest_plain))\<rparr>) s))"

text \<open>The MAC of the received packet is compared with the bytes behind it.\<close>

definition fullpacket_mac :: "mac_method \<Rightarrow> session \<Rightarrow> rc \<times> session" where
  "fullpacket_mac rm s =
     (let p = tp s; payload = payload_of s;
          s = c_assert (tp_payload p \<noteq> None \<and> mm_mac_len rm \<le> tp_total_num p) s
      in case (if mm_etm rm
               then mm_hash rm (seqno (remote s)) (take (tp_total_num p - mm_mac_len rm) payload) []
                      (mac_abstract (remote s))
               else mm_hash rm (seqno (remote s)) (tp_init p)
                      (take (fullpacket_payload_len s) payload) (mac_abstract (remote s))) of
           (_, h, a) \<Rightarrow>
             let s = upd_remote (\<lambda>e. e\<lparr>mac_abstract := a\<rparr>) s in
             if ssh2_timingsafe_bcmp (pad_to 64 h) (drop (tp_total_num p - mm_mac_len rm) payload)
                  (mm_mac_len rm) \<noteq> 0
             then (0, s\<lparr>fullpacket_macstate := SSH2_MAC_INVALID\<rparr>)
             else if mm_etm rm then fullpacket_etm_decrypt rm s
             else (0, s))"

text \<open>Decompression; the test looks at \<open>local.comp\<close>, the call at \<open>remote.comp\<close>.\<close>

definition fullpacket_decomp :: "session \<Rightarrow> rc \<times> session" where
  "fullpacket_decomp s =
     (case (if comp_active s then comp_abstract (remote s) else None) of
        None \<Rightarrow> (0, s)
      | Some a \<Rightarrow>
          (case comp (remote s) of
             None \<Rightarrow> (0, set_fault s)
           | Some m \<Rightarrow>
               (case pm_decomp m LIBSSH2_PACKET_MAXDECOMP
                       (take (fullpacket_payload_len s) (payload_of s)) a of
                  (rc, out, a) \<Rightarrow>
                    let s = free_payload (upd_remote (\<lambda>e. e\<lparr>comp_abstract := Some a\<rparr>) s) in
                    if rc \<noteq> 0 then (rc, s)
                    else (0, (upd_tp (\<lambda>p. p\<lparr>tp_payload := Some out\<rparr>) s)
                           \<lparr>fullpacket_payload_len := length out\<rparr>))))"

text \<open>
  Everything that happens once per packet before it is handed on: authentication, sequence number,
  padding, decompression.  \<open>seqno\<close> counts the packet also when its MAC is wrong; the handler is told.
\<close>

definition fullpacket_auth :: "bool \<Rightarrow> session \<Rightarrow> rc \<times> session" where
  "fullpacket_auth encrypted s =
     (let full = CRYPT_FLAG_R s SSH2_CRYPT_FLAG_REQUIRES_FULL_PACKET;
          remote_mac = (if \<not> encrypted \<or>
                           (\<not> full \<and> \<not> CRYPT_FLAG_R s SSH2_CRYPT_FLAG_INTEGRATED_MAC)
                        then mac (remote s) else None)
      in case (encrypted, remote_mac) of
           (True, Some rm) \<Rightarrow> fullpacket_mac rm s
         | (True, None) \<Rightarrow>
             (if full
              then (let n = unat (tp_packet_length (tp s) - 1);
                        s = c_assert (1 + n \<le> length (payload_of s)) s
                    in (0, upd_tp (\<lambda>p. p\<lparr>tp_payload :=
                             Some (mem_put 0 (slice 1 n (payload_of s)) (payload_of s))\<rparr>) s))
              else (0, s))
         | _ \<Rightarrow> (0, s))"

definition fullpacket_count :: "session \<Rightarrow> session" where
  "fullpacket_count s =
     (upd_remote (\<lambda>e. e\<lparr>seqno := seqno e + 1\<rparr>) s)\<lparr>fullpacket_payload_len :=
        nat ((int (fullpacket_payload_len s) - uint (tp_padding_length (tp s))) mod 2 ^ 64)\<rparr>"

definition fullpacket_prepare :: "bool \<Rightarrow> session \<Rightarrow> rc \<times> session" where
  "fullpacket_prepare encrypted s =
     (let (rc, s) = fullpacket_auth encrypted
            (s\<lparr>fullpacket_macstate := SSH2_MAC_CONFIRMED,
               fullpacket_payload_len := unat (tp_packet_length (tp s) - 1)\<rparr>)
      in if rc \<noteq> 0 then (rc, s)
         else
           let (rc, s) = fullpacket_decomp (fullpacket_count s)
           in if rc \<noteq> 0 then (rc, s)
              else (0, s\<lparr>fullpacket_packet_type := chr_at (payload_of s) 0,
                         fullpacket_state := NB_created\<rparr>))"

text \<open>The handler's arguments: the block, how much of it counts, the MAC state and the number.\<close>

type_synonym packet_handler = "bytes \<Rightarrow> nat \<Rightarrow> int \<Rightarrow> u32 \<Rightarrow> session \<Rightarrow> rc \<times> session"

definition fullpacket_deliver :: "packet_handler \<Rightarrow> u32 \<Rightarrow> session \<Rightarrow> rc \<times> session" where
  "fullpacket_deliver padd seq s =
     (let created = (fullpacket_state s = NB_created);
          (rc, s) = (if created
                     then padd (payload_of s) (fullpacket_payload_len s) (fullpacket_macstate s) seq s
                     else (0, s))
      in if rc = LIBSSH2_ERROR_EAGAIN
         then (rc, if packAdd_state s = NB_idle then free_payload s else s)
         else
           let s = (if created then free_payload s else s)
           in if rc \<noteq> 0 then (rc, s\<lparr>fullpacket_state := NB_idle\<rparr>)
              else
                let s = s\<lparr>fullpacket_state := NB_idle\<rparr>;
                    s = (if kex_strict s \<and> fullpacket_packet_type s = 21
                         then upd_remote (\<lambda>e. e\<lparr>seqno := 0\<rparr>) s else s)
                in (uint (fullpacket_packet_type s), s))"

definition transport_fullpacket :: "packet_handler \<Rightarrow> bool \<Rightarrow> session \<Rightarrow> rc \<times> session" where
  "transport_fullpacket padd encrypted s =
     (let seq = seqno (remote s);
          (rc, s) = (if fullpacket_state s = NB_idle then fullpacket_prepare encrypted s else (0, s))
      in if rc \<noteq> 0 then (rc, s) else fullpacket_deliver padd seq s)"

subsection \<open>Reading from the socket\<close>

text \<open>The variables of \<open>ssh2_transport_read\<close> that live across iterations of its loop.\<close>

record read_vars =
  rv_encrypted :: bool
  rv_firstlast :: int
  rv_auth_len :: nat
  rv_mac :: "mac_method option"

definition read_vars_0 :: read_vars where
  "read_vars_0 = \<lparr>rv_encrypted = True, rv_firstlast = FIRST_BLOCK, rv_auth_len = 0, rv_mac = None\<rparr>"

definition rv_etm :: "read_vars \<Rightarrow> bool" where
  "rv_etm v \<longleftrightarrow> rv_encrypted v \<and> (case rv_mac v of None \<Rightarrow> False | Some m \<Rightarrow> mm_etm m)"

definition rv_mac_len :: "read_vars \<Rightarrow> nat" where
  "rv_mac_len v = (case rv_mac v of None \<Rightarrow> 0 | Some m \<Rightarrow> mm_mac_len m)"

definition rv_full :: "read_vars \<Rightarrow> session \<Rightarrow> bool" where
  "rv_full v s \<longleftrightarrow> rv_encrypted v \<and> CRYPT_FLAG_R s SSH2_CRYPT_FLAG_REQUIRES_FULL_PACKET"

text \<open>The head of the loop: is the stream encrypted, and with what.\<close>

definition read_setup :: "read_vars \<Rightarrow> session \<Rightarrow> nat \<times> read_vars \<times> session" where
  "read_setup v s =
     (let (blocksize, v, s) =
            (if has_st SSH2_STATE_NEWKEYS s
             then (case crypt (remote s) of None \<Rightarrow> (0, v, set_fault s) | Some m \<Rightarrow> (cm_blocksize m, v, s))
             else (5, v\<lparr>rv_encrypted := False\<rparr>, s));
          v = (if \<not> rv_encrypted v then v
               else if CRYPT_FLAG_R s SSH2_CRYPT_FLAG_REQUIRES_FULL_PACKET
               then v\<lparr>rv_auth_len := (case crypt (remote s) of None \<Rightarrow> 0 | Some m \<Rightarrow> cm_auth_len m)\<rparr>
               else v\<lparr>rv_mac := mac (remote s)\<rparr>)
      in (blocksize, v, s))"

definition remainbuf :: "session \<Rightarrow> nat" where
  "remainbuf s = length (tp_buf (tp s)) - tp_readidx (tp s)"

text \<open>Refilling the buffer; \<open>Some rc\<close> is a return from \<open>ssh2_transport_read\<close>.\<close>

definition read_refill :: "nat \<Rightarrow> session \<Rightarrow> rc option \<times> session" where
  "read_refill blocksize s =
     (let s = c_assert (tp_readidx (tp s) \<le> length (tp_buf (tp s))) s in
      if remainbuf s < blocksize \<or>
         (CRYPT_FLAG_R s SSH2_CRYPT_FLAG_REQUIRES_FULL_PACKET \<and> tp_total_num (tp s) > remainbuf s)
      then
        let s = upd_tp (\<lambda>p. p\<lparr>tp_buf := drop (tp_readidx p) (tp_buf p), tp_readidx := 0\<rparr>) s;
            (nread, bs, s) = ssh2_recv (PACKETBUFSIZE - remainbuf s) s
        in if nread \<le> 0
           then if nread = - EAGAIN then (Some LIBSSH2_ERROR_EAGAIN, block_in s)
                else (Some LIBSSH2_ERROR_SOCKET_RECV, s)
           else (None, upd_tp (\<lambda>p. p\<lparr>tp_buf := tp_buf p @ bs\<rparr>) s)
      else (None, s))"

definition bad_read :: "rc \<Rightarrow> session \<Rightarrow> rc option \<times> 'a list \<times> session" where
  "bad_read rc s = (Some rc, [], s)"

text \<open>The first block of a packet, with the length field in its first four bytes.\<close>

definition read_first_block :: "nat \<Rightarrow> read_vars \<Rightarrow> session \<Rightarrow> rc option \<times> bytes \<times> session" where
  "read_first_block blocksize v s =
     (let p = tp s;
          get_len = (case crypt (remote s) of None \<Rightarrow> None | Some m \<Rightarrow> cm_get_len m)
      in if rv_etm v then
           let b = slice (tp_readidx p) 4 (tp_buf p)
           in (None, b, upd_tp (\<lambda>p. p\<lparr>tp_init := mem_put 0 b (tp_init p)\<rparr>) s)
         else if rv_encrypted v \<and> get_len \<noteq> None then
           let (rc, n, a) = the get_len (seqno (remote s)) (drop (tp_readidx p) (tp_buf p))
                              (crypt_abstract (remote s));
               s = upd_remote (\<lambda>e. e\<lparr>crypt_abstract := a\<rparr>) s
           in if rc \<noteq> 0
              then bad_read LIBSSH2_ERROR_DECRYPT (free_payload (upd_tp (\<lambda>p. p\<lparr>tp_total_num := 0\<rparr>) s))
              else (None, ssh2_htonu32 n,
                    upd_tp (\<lambda>p. p\<lparr>tp_init := mem_put 0 (ssh2_htonu32 n) (tp_init p)\<rparr>) s)
         else
           let (rc, b, s) =
             (if rv_encrypted v then
                let (rc, b, src, s) = transport_decrypt (tp_buf p) (tp_readidx p) blocksize FIRST_BLOCK s
                in (rc, b, upd_tp (\<lambda>p. p\<lparr>tp_buf := src,
                       tp_init := (if rc \<noteq> 0 then tp_init p else take 5 b)\<rparr>) s)
              else (0, slice (tp_readidx p) blocksize (tp_buf p), s))
           in if rc \<noteq> 0 then bad_read rc s
              else (None, b, upd_tp (\<lambda>p. p\<lparr>tp_readidx := tp_readidx p + blocksize,
                                          tp_packet_length := ssh2_ntohu32 b\<rparr>) s))"

text \<open>
  The bounds checks on the length, and the size of the whole packet.  \<open>4 + packet_length + mac_len\<close> is
  computed in 32 bits, \<open>total_num = 4\<close> of the other case in \<open>size_t\<close>.
\<close>

definition read_total :: "read_vars \<Rightarrow> bytes \<Rightarrow> session \<Rightarrow> rc option \<times> nat list \<times> session" where
  "read_total v block s =
     (if \<not> rv_full v s then
        if tp_packet_length (tp s) < 1 then bad_read LIBSSH2_ERROR_DECRYPT s
        else if tp_packet_length (tp s) > of_nat LIBSSH2_PACKET_MAXPAYLOAD
        then bad_read LIBSSH2_ERROR_OUT_OF_BOUNDARY s
        else if rv_etm v then
          let s = upd_tp (\<lambda>p. p\<lparr>tp_padding_length := 0, tp_packet_length := ssh2_ntohu32 block\<rparr>) s
          in (None, [unat (4 + tp_packet_length (tp s) + of_nat (rv_mac_len v))], s)
        else
          let s = upd_tp (\<lambda>p. p\<lparr>tp_padding_length := chr_at block 4\<rparr>) s
          in if ucast (tp_padding_length (tp s)) > tp_packet_length (tp s) - 1
             then bad_read LIBSSH2_ERROR_DECRYPT s
             else (None, [unat (tp_packet_length (tp s) - 1 +
                            of_nat (if rv_encrypted v then rv_mac_len v else 0))], s)
      else
        let s = upd_tp (\<lambda>p. p\<lparr>tp_packet_length := ssh2_ntohu32 block\<rparr>) s
        in if tp_packet_length (tp s) < 1 then bad_read LIBSSH2_ERROR_DECRYPT s
           else if tp_packet_length (tp s) > of_nat LIBSSH2_PACKET_MAXPAYLOAD
           then bad_read LIBSSH2_ERROR_OUT_OF_BOUNDARY s
           else (None, [4 + unat (tp_packet_length (tp s)) + rv_mac_len v + rv_auth_len v],
                 upd_tp (\<lambda>p. p\<lparr>tp_padding_length := 0\<rparr>) s))"

text \<open>
  The block for the packet, and what of the first block already belongs into it.  The result is the
  number of buffered bytes still to be dealt with.
\<close>

definition read_alloc :: "nat \<Rightarrow> read_vars \<Rightarrow> bytes \<Rightarrow> nat \<Rightarrow> int \<Rightarrow> session \<Rightarrow>
    rc option \<times> int list \<times> session" where
  "read_alloc blocksize v block total_num numbytes s =
     (if total_num > LIBSSH2_PACKET_MAXPAYLOAD \<or> total_num = 0
      then bad_read LIBSSH2_ERROR_OUT_OF_BOUNDARY s
      else
        let (ok, s) = ssh2_alloc s
        in if \<not> ok then bad_read LIBSSH2_ERROR_ALLOC (free_payload s)
           else
             let s = upd_tp (\<lambda>p. p\<lparr>tp_payload := Some (replicate total_num 0),
                                  tp_total_num := total_num, tp_wptr := 0\<rparr>) s
             in if rv_full v s
                then (None, [numbytes], upd_tp (\<lambda>p. p\<lparr>tp_data_num := 0\<rparr>) s)
                else if \<not> rv_etm v \<and> blocksize > 5 then
                  if blocksize - 5 \<le> total_num
                  then (None, [numbytes - int blocksize],
                        upd_tp (\<lambda>p. p\<lparr>tp_payload :=
                            Some (mem_put 0 (slice 5 (blocksize - 5) block) (payload_of s)),
                          tp_wptr := blocksize - 5, tp_data_num := blocksize - 5\<rparr>) s)
                  else bad_read LIBSSH2_ERROR_OUT_OF_BOUNDARY (free_payload s)
                else (None, [if rv_etm v then numbytes else numbytes - int blocksize],
                      upd_tp (\<lambda>p. p\<lparr>tp_data_num := 0\<rparr>) s))"

definition read_header :: "nat \<Rightarrow> read_vars \<Rightarrow> int \<Rightarrow> session \<Rightarrow> rc option \<times> int list \<times> session" where
  "read_header blocksize v numbytes s =
     (if numbytes < (if rv_etm v then 4 else int blocksize)
      then bad_read LIBSSH2_ERROR_EAGAIN (block_in s)
      else
        case read_first_block blocksize v s of
          (Some rc, _, s) \<Rightarrow> (Some rc, [], s)
        | (None, block, s) \<Rightarrow>
            (case read_total v block s of
               (None, [total_num], s) \<Rightarrow> read_alloc blocksize v block total_num numbytes s
             | (rc, _, s) \<Rightarrow> (rc, [], s)))"

text \<open>How much to take over in this round, how much of it to decrypt, and the cipher's block kind.\<close>

definition read_skip :: "read_vars \<Rightarrow> session \<Rightarrow> int" where
  "read_skip v s = (if CRYPT_FLAG_R s SSH2_CRYPT_FLAG_INTEGRATED_MAC then 0
                    else int (rv_mac_len v) + int (rv_auth_len v))"

definition read_decrypt_amount :: "nat \<Rightarrow> read_vars \<Rightarrow> int \<Rightarrow> session \<Rightarrow> int \<times> int \<times> int" where
  "read_decrypt_amount blocksize v numbytes s =
     (let data_num = int (tp_data_num (tp s));
          total_num = int (tp_total_num (tp s));
          skip = read_skip v s
      in if data_num + numbytes \<ge> total_num - skip
         then (numbytes, max 0 (total_num - skip - data_num), LAST_BLOCK)
         else
           let frac = numbytes mod int blocksize;
               numdecrypt = numbytes - frac;
               numbytes = (if frac \<noteq> 0 then 0 else numbytes)
           in if CRYPT_FLAG_R s SSH2_CRYPT_FLAG_INTEGRATED_MAC
              then (0, min numdecrypt (total_num - skip - int blocksize - data_num), MIDDLE_BLOCK)
              else (numbytes, numdecrypt, MIDDLE_BLOCK))"

definition read_amounts :: "nat \<Rightarrow> read_vars \<Rightarrow> int \<Rightarrow> session \<Rightarrow>
    rc option \<times> int list \<times> read_vars \<times> session" where
  "read_amounts blocksize v numbytes s =
     (let remainpack = int (tp_total_num (tp s)) - int (tp_data_num (tp s));
          numbytes = min numbytes remainpack
      in if rv_full v s \<and> numbytes < remainpack
         then (Some LIBSSH2_ERROR_EAGAIN, [], v, block_in s)
         else
           let (numbytes, s) =
                 (if rv_full v s
                  then (numbytes - 4, upd_tp (\<lambda>p. p\<lparr>tp_total_num := tp_total_num p - 4\<rparr>) s)
                  else (numbytes, s))
           in if rv_encrypted v \<and> \<not> rv_etm v then
                let (numbytes, numdecrypt, fl) = read_decrypt_amount blocksize v numbytes s
                in (None, [numbytes, numdecrypt], v\<lparr>rv_firstlast := fl\<rparr>,
                    c_assert (numdecrypt \<ge> 0) s)
              else (None, [numbytes, 0], v, s))"

text \<open>Moving \<open>bs\<close> to the write pointer; outside the block it is a fault.\<close>

definition payload_put :: "bytes \<Rightarrow> session \<Rightarrow> session" where
  "payload_put bs s =
     (case tp_payload (tp s) of
        None \<Rightarrow> set_fault s
      | Some b \<Rightarrow>
          c_assert (tp_wptr (tp s) + length bs \<le> length b)
            (upd_tp (\<lambda>p. p\<lparr>tp_payload := Some (mem_put (tp_wptr p) bs b)\<rparr>) s))"

definition read_advance :: "nat \<Rightarrow> session \<Rightarrow> session" where
  "read_advance n s =
     upd_tp (\<lambda>p. p\<lparr>tp_readidx := tp_readidx p + n, tp_wptr := tp_wptr p + n,
                  tp_data_num := tp_data_num p + n\<rparr>) s"

definition read_decrypt :: "read_vars \<Rightarrow> int \<Rightarrow> nat \<Rightarrow> session \<Rightarrow> rc option \<times> nat list \<times> session" where
  "read_decrypt v numbytes numdecrypt s =
     (if CRYPT_FLAG_R s SSH2_CRYPT_FLAG_REQUIRES_FULL_PACKET then
        (case crypt (remote s) of
           None \<Rightarrow> bad_read 0 (set_fault s)
         | Some m \<Rightarrow>
             let (rc, buf, a) = crypt_at m (seqno (remote s)) (tp_readidx (tp s)) numdecrypt 0
                                  (tp_buf (tp s)) (crypt_abstract (remote s));
                 s = upd_remote (\<lambda>e. e\<lparr>crypt_abstract := a\<rparr>) (upd_tp (\<lambda>p. p\<lparr>tp_buf := buf\<rparr>) s)
             in if rc \<noteq> 0
                then bad_read LIBSSH2_ERROR_DECRYPT (upd_tp (\<lambda>p. p\<lparr>tp_total_num := 0\<rparr>) s)
                else
                  let s = payload_put (slice (tp_readidx (tp s)) (nat numbytes) (tp_buf (tp s))) s;
                      s = upd_tp (\<lambda>p. p\<lparr>tp_readidx := tp_readidx p + 4,
                            tp_padding_length := chr_at (payload_of s) (tp_wptr p)\<rparr>) s
                  in if ucast (tp_padding_length (tp s)) > tp_packet_length (tp s) - 1
                     then bad_read LIBSSH2_ERROR_DECRYPT s
                     else (None, [numdecrypt + rv_auth_len v], s))
      else
        let (rc, dest, src, s) = transport_decrypt (tp_buf (tp s)) (tp_readidx (tp s)) numdecrypt
                                   (rv_firstlast v) s;
            s = upd_tp (\<lambda>p. p\<lparr>tp_buf := src\<rparr>) s
        in if rc \<noteq> 0
           then bad_read rc (upd_tp (\<lambda>p. p\<lparr>tp_total_num := 0\<rparr>) s)
           else (None, [numdecrypt], payload_put dest s))"

definition read_copy :: "int \<Rightarrow> session \<Rightarrow> rc option \<times> session" where
  "read_copy numbytes s =
     (if numbytes > 0 then
        if tp_wptr (tp s) + nat numbytes \<le> tp_total_num (tp s)
        then (None, read_advance (nat numbytes)
                (payload_put (slice (tp_readidx (tp s)) (nat numbytes) (tp_buf (tp s))) s))
        else (Some LIBSSH2_ERROR_OUT_OF_BOUNDARY, free_payload s)
      else (None, s))"

definition read_consume :: "read_vars \<Rightarrow> int \<Rightarrow> int \<Rightarrow> session \<Rightarrow> rc option \<times> session" where
  "read_consume v numbytes numdecrypt s =
     (if numdecrypt > 0 then
        (case read_decrypt v numbytes (nat numdecrypt) s of
           (None, [n], s) \<Rightarrow> read_copy (numbytes - int n) (read_advance n s)
         | (rc, _, s) \<Rightarrow> (rc, s))
      else read_copy numbytes s)"

text \<open>Handing the packet on, after the last byte and when an interrupted handler is resumed.\<close>

definition read_point1 :: "packet_handler \<Rightarrow> bool \<Rightarrow> session \<Rightarrow> rc \<times> session" where
  "read_point1 padd encrypted s =
     (let (rc, s) = transport_fullpacket padd encrypted s
      in if rc = LIBSSH2_ERROR_EAGAIN
         then (rc, if packAdd_state s \<noteq> NB_idle
                   then s\<lparr>readPack_encrypted := encrypted, readPack_state := NB_jump1\<rparr> else s)
         else (rc, upd_tp (\<lambda>p. p\<lparr>tp_total_num := 0\<rparr>) s))"

text \<open>One iteration of the loop: a return value, or the variables for the next one.\<close>

definition read_iter :: "packet_handler \<Rightarrow> read_vars \<Rightarrow> session \<Rightarrow> (rc + read_vars) \<times> session" where
  "read_iter padd v s =
     (if socket_st s = SOCKET_DISCONNECTED then (Inl LIBSSH2_ERROR_SOCKET_DISCONNECT, s)
      else
        let (blocksize, v, s) = read_setup v s
        in case read_refill blocksize s of
             (Some rc, s) \<Rightarrow> (Inl rc, s)
           | (None, s) \<Rightarrow>
               (case (if tp_total_num (tp s) = 0
                      then read_header blocksize v (int (remainbuf s)) s
                      else (None, [int (remainbuf s)], s)) of
                  (Some rc, _, s) \<Rightarrow> (Inl rc, s)
                | (None, numbytes, s) \<Rightarrow>
                    (case read_amounts blocksize v (hd numbytes) s of
                       (Some rc, _, v, s) \<Rightarrow> (Inl rc, s)
                     | (None, amounts, v, s) \<Rightarrow>
                         (case read_consume v (hd amounts) (amounts ! 1) s of
                            (Some rc, s) \<Rightarrow> (Inl rc, s)
                          | (None, s) \<Rightarrow>
                              if tp_total_num (tp s) = tp_data_num (tp s)
                              then (case read_point1 padd (rv_encrypted v) s of (rc, s) \<Rightarrow> (Inl rc, s))
                              else (Inr v, s)))))"

text \<open>
  The loop.  Its iterations are bounded by \<open>read_measure\<close>: each one either takes bytes off the socket
  or off the buffer (\<open>TransportEnds\<close> proves it); running out of the bound is a fault.
\<close>

fun script_size :: "recv_event list \<Rightarrow> nat" where
  "script_size [] = 0"
| "script_size (Recv_bytes bs # r) = Suc (length bs) + script_size r"
| "script_size (Recv_err e # r) = Suc (script_size r)"

definition read_measure :: "session \<Rightarrow> nat" where
  "read_measure s = remainbuf s + 2 * script_size (sock_in s)"

fun read_loop :: "packet_handler \<Rightarrow> nat \<Rightarrow> read_vars \<Rightarrow> session \<Rightarrow> rc \<times> session" where
  "read_loop padd 0 v s = (LIBSSH2_ERROR_SOCKET_RECV, set_fault s)"
| "read_loop padd (Suc n) v s =
     (case read_iter padd v s of
        (Inl rc, s) \<Rightarrow> (rc, s)
      | (Inr v, s) \<Rightarrow> read_loop padd n v s)"

definition ssh2_transport_read :: "(session \<Rightarrow> rc \<times> session) \<Rightarrow> packet_handler \<Rightarrow> session \<Rightarrow>
    rc \<times> session" where
  "ssh2_transport_read kx padd s =
     (let s = s\<lparr>block_directions := block_directions s AND NOT LIBSSH2_SESSION_BLOCK_INBOUND\<rparr>;
          (rc, s) = rekey_redirect kx s
      in if rc \<noteq> 0 then (rc, s)
         else if readPack_state s = NB_jump1
         then read_point1 padd (readPack_encrypted s) (s\<lparr>readPack_state := NB_idle\<rparr>)
         else read_loop padd (Suc (read_measure s)) read_vars_0 s)"

end
