(* ===== verification/TransportSend.thy ===== *)
theory TransportSend
  imports Transport
begin

text \<open>
  What \<open>ssh2_transport_send\<close> guarantees: the shape of the packet it builds, that an interrupted
  packet is completed byte for byte before anything else leaves, and that a packet costs exactly one
  sequence number however often the call has to be repeated.
\<close>

subsection \<open>Padding\<close>

lemma send_padding_bounds:
  assumes "blocksize \<ge> 4"
  shows "4 \<le> send_padding blocksize n \<and> send_padding blocksize n < blocksize + 4 \<and>
    (n + send_padding blocksize n) mod blocksize = 0"
proof -
  let ?q = "n div blocksize" and ?r = "n mod blocksize"
  have r: "?r < blocksize" using assms by simp
  have n: "n = blocksize * ?q + ?r" by simp
  then have a: "n + (blocksize - ?r) = blocksize * (?q + 1)"
    using r by (metis add.assoc add_diff_inverse_nat add_mult_distrib2 less_not_sym mult.right_neutral)
  then have b: "n + (blocksize - ?r + blocksize) = blocksize * (?q + 2)"
    by (simp add: algebra_simps)
  show ?thesis
  proof (cases "blocksize - ?r < 4")
    case True
    then have "send_padding blocksize n = blocksize - ?r + blocksize"
      by (simp add: send_padding_def Let_def)
    with True r assms b show ?thesis by (metis add.commute add_less_cancel_left le_add2 le_trans mod_mult_self1_is_0)
  next
    case False
    then have "send_padding blocksize n = blocksize - ?r"
      by (simp add: send_padding_def Let_def)
    with False r assms a show ?thesis
      by (metis diff_le_self le_less_trans mod_mult_self1_is_0 not_less less_add_same_cancel1 zero_less_numeral)
  qed
qed

subsection \<open>What is still to be sent\<close>

definition pending :: "session \<Rightarrow> bytes" where
  "pending s = (if tp_olen (tp s) = 0 then []
                else slice (tp_osent (tp s)) (tp_ototal_num (tp s) - tp_osent (tp s)) (tp_outbuf (tp s)))"

definition send_ok :: "session \<Rightarrow> bool" where
  "send_ok s \<longleftrightarrow> (tp_olen (tp s) \<noteq> 0 \<longrightarrow>
     tp_osent (tp s) < tp_ototal_num (tp s) \<and> tp_ototal_num (tp s) \<le> length (tp_outbuf (tp s)))"

lemma slice_split: "take k (slice i n xs) @ slice (i + k) (n - k) xs = slice i n xs"
proof -
  have "slice (i + k) (n - k) xs = drop k (slice i n xs)"
    by (simp add: slice_def drop_take add.commute)
  then show ?thesis by simp
qed

lemma send_existing_conserves:
  assumes "send_ok s" "transport_send_existing ptr n s = (rc, ret, s')"
  shows "wire s' @ pending s' = wire s @ pending s \<and> send_ok s' \<and>
    (rc = 0 \<longrightarrow> pending s' = [] \<and> tp_olen (tp s') = 0)"
proof (cases "tp_olen (tp s) = 0")
  case True
  then show ?thesis using assms by (auto simp: transport_send_existing_def pending_def)
next
  case False
  note busy = False
  show ?thesis
  proof (cases "Some ptr = tp_odata (tp s) \<and> n = tp_olen (tp s)")
    case False
    then show ?thesis
      using assms busy by (auto simp: transport_send_existing_def pending_def)
  next
    case True
    let ?len = "tp_ototal_num (tp s) - tp_osent (tp s)"
    let ?b = "slice (tp_osent (tp s)) ?len (tp_outbuf (tp s))"
    have len: "length ?b = ?len" "0 < ?len"
      using assms(1) busy by (auto simp: send_ok_def length_slice)
    note here = busy True
    show ?thesis
    proof (cases rule: ssh2_send_cases [of ?b s])
      case (1 e)
      then have "s' = s\<lparr>sock_out := tl (sock_out s)\<rparr> \<or> s' = block_out (s\<lparr>sock_out := tl (sock_out s)\<rparr>)"
        "rc \<noteq> 0"
        using assms(2) here by (auto simp: transport_send_existing_def Let_def split: if_splits)
      then show ?thesis
        using assms(1) by (auto simp: pending_def send_ok_def block_out_def)
    next
      case (2 k)
      let ?s = "s\<lparr>sock_out := tl (sock_out s), wire := wire s @ take k ?b\<rparr>"
      show ?thesis
      proof (cases "k = ?len")
        case True
        then have "s' = upd_tp (\<lambda>p. p\<lparr>tp_ototal_num := 0, tp_olen := 0\<rparr>) ?s"
          using assms(2) here 2 by (simp add: transport_send_existing_def Let_def)
        then show ?thesis
          using len busy True by (simp add: pending_def send_ok_def upd_tp_def)
      next
        case False
        then have k: "k < ?len" using 2 len by simp
        have "int k \<noteq> int ?len" "int k < int ?len" "\<not> int k < 0"
          using k by (simp_all only: of_nat_eq_iff of_nat_less_iff of_nat_less_0_iff) simp_all
        then have "transport_send_existing ptr n s =
            (LIBSSH2_ERROR_EAGAIN, 1, upd_tp (\<lambda>p. p\<lparr>tp_osent := tp_osent p + k\<rparr>) ?s)"
          using here unfolding transport_send_existing_def Let_def 2(1)
          by (simp del: of_nat_diff)
        then have "s' = upd_tp (\<lambda>p. p\<lparr>tp_osent := tp_osent p + k\<rparr>) ?s" "rc = LIBSSH2_ERROR_EAGAIN"
          using assms(2) by simp_all
        moreover have "take k ?b @ slice (tp_osent (tp s) + k) (?len - k) (tp_outbuf (tp s)) = ?b"
          by (rule slice_split)
        ultimately show ?thesis
          using assms(1) busy k by (simp add: pending_def send_ok_def upd_tp_def diff_diff_eq)
      qed
    qed
  qed
qed

subsection \<open>Methods within the library's limits\<close>

text \<open>
  What \<open>libssh2_priv.h\<close> demands of a method (\<open>MAX_BLOCKSIZE\<close>, \<open>MAX_MACSIZE\<close>) and what the callers of
  a compressor rely on: it never delivers more than the room it is given.
\<close>

definition crypt_fits :: "crypt_method \<Rightarrow> bool" where
  "crypt_fits m \<longleftrightarrow> 4 \<le> cm_blocksize m \<and> cm_blocksize m \<le> 32 \<and> cm_auth_len m \<le> 64"

definition mac_fits :: "mac_method \<Rightarrow> bool" where
  "mac_fits h \<longleftrightarrow> mm_mac_len h \<le> 64 \<and>
     (\<forall>n p q a. length (fst (snd (mm_hash h n p q a))) = mm_mac_len h)"

definition comp_fits :: "comp_method \<Rightarrow> bool" where
  "comp_fits m \<longleftrightarrow> (\<forall>n d a. length (fst (snd (pm_comp m n d a))) \<le> n \<and>
     fst (pm_comp m n d a) \<noteq> LIBSSH2_ERROR_EAGAIN)"

definition local_fits :: "session \<Rightarrow> bool" where
  "local_fits s \<longleftrightarrow>
     (\<forall>m. crypt (local s) = Some m \<longrightarrow> crypt_fits m) \<and>
     (\<forall>h. mac (local s) = Some h \<longrightarrow> mac_fits h) \<and>
     (\<forall>c. comp (local s) = Some c \<longrightarrow> comp_fits c) \<and>
     (has_st SSH2_STATE_NEWKEYS s \<longrightarrow> crypt (local s) \<noteq> None) \<and>
     length (tp_outbuf (tp s)) = MAX_SSH_PACKET_LEN"

text \<open>What building and protecting a packet leaves alone.\<close>

definition same_line :: "session \<Rightarrow> session \<Rightarrow> bool" where
  "same_line s s' \<longleftrightarrow> wire s' = wire s \<and> tp_olen (tp s') = tp_olen (tp s) \<and>
     length (tp_outbuf (tp s')) = length (tp_outbuf (tp s)) \<and> kex_strict s' = kex_strict s \<and>
     seqno (local s') = seqno (local s) \<and> crypt (local s') = crypt (local s) \<and>
     mac (local s') = mac (local s) \<and> st s' = st s"

lemma same_line_refl [simp]: "same_line s s"
  by (simp add: same_line_def)

lemma same_line_trans: "same_line s t \<Longrightarrow> same_line t u \<Longrightarrow> same_line s u"
  by (simp add: same_line_def)

lemma send_payload_line:
  assumes "send_payload enc data data2 s = (rc, pl, s')" "local_fits s"
  shows "same_line s s' \<and> rc \<noteq> LIBSSH2_ERROR_EAGAIN \<and> length pl < MAX_SSH_PACKET_LEN - 0x100 \<and>
    (\<not> enc \<longrightarrow> rc = 0 \<longrightarrow> pl = data @ data2) \<and> tp s' = tp s"
proof (cases "(if enc \<and> comp_active s then comp_abstract (local s) else None, comp (local s))")
  case (Pair ao mo)
  show ?thesis
  proof (cases "ao = None \<or> mo = None")
    case True
    then show ?thesis
      using assms(1) Pair
      by (auto simp: send_payload_def same_line_def MAX_SSH_PACKET_LEN_def split: option.splits if_splits)
  next
    case False
    then obtain a m where am: "ao = Some a" "mo = Some m" by auto
    then have m: "comp (local s) = Some m" and fits: "comp_fits m" and enc: enc
      using Pair assms(2) by (auto simp: local_fits_def split: if_splits)
    let ?n = "MAX_SSH_PACKET_LEN - 5 - 256"
    obtain rc1 d1 a1 where 1: "pm_comp m ?n data a = (rc1, d1, a1)" by (cases "pm_comp m ?n data a") auto
    obtain rc2 d2 a2 where 2: "pm_comp m (?n - length d1) data2 a1 = (rc2, d2, a2)"
      by (cases "pm_comp m (?n - length d1) data2 a1") auto
    have "length d1 \<le> ?n" "rc1 \<noteq> - 37" "length d2 \<le> ?n - length d1" "rc2 \<noteq> - 37"
      using fits 1 2 unfolding comp_fits_def by (metis fst_conv snd_conv)+
    then show ?thesis
      using assms(1) 1 2 enc unfolding send_payload_def Pair am
      by (auto simp: Let_def same_line_def upd_local_def MAX_SSH_PACKET_LEN_def split: if_splits)
  qed
qed

lemma send_mac_line:
  assumes "send_mac h n s = (rc, s')" "mac_fits h" "n + mm_mac_len h \<le> length (tp_outbuf (tp s))"
  shows "same_line s s' \<and> rc \<noteq> LIBSSH2_ERROR_EAGAIN"
proof -
  obtain r b a where "mm_hash h (seqno (local s)) (take n (tp_outbuf (tp s))) [] (mac_abstract (local s))
      = (r, b, a)"
    by (metis prod_cases3)
  moreover from this have "length b = mm_mac_len h"
    using assms(2) unfolding mac_fits_def by (metis fst_conv snd_conv)
  ultimately show ?thesis
    using assms by (auto simp: send_mac_def Let_def same_line_def upd_defs ssh2_err_def split: if_splits)
qed

lemma length_crypt_at: "off \<le> length buf \<Longrightarrow> crypt_at m q off n fl buf a = (rc, buf', a') \<Longrightarrow>
    length buf' = length buf"
  by (auto simp: crypt_at_def split: prod.splits)

lemma encrypt_loop_step:
  assumes "i < pl" "cm_blocksize m > 0"
  obtains n fl nexti where "i < nexti" "encrypt_loop m pl i buf a =
    (case crypt_at m 0 i n fl buf a of (rc, buf, a) \<Rightarrow>
       if rc \<noteq> 0 then (LIBSSH2_ERROR_ENCRYPT, buf, a) else encrypt_loop m pl nexti buf a)"
proof -
  have "\<exists>n fl nexti. i < nexti \<and> encrypt_loop m pl i buf a =
    (case crypt_at m 0 i n fl buf a of (rc, buf, a) \<Rightarrow>
       if rc \<noteq> 0 then (LIBSSH2_ERROR_ENCRYPT, buf, a) else encrypt_loop m pl nexti buf a)"
    using assms by (subst encrypt_loop.simps) (simp only: Let_def if_True simp_thms, intro exI conjI, rule_tac [2] refl, simp)
  then show thesis using that by blast
qed

lemma encrypt_loop_end: "\<not> (i < pl \<and> cm_blocksize m > 0) \<Longrightarrow> encrypt_loop m pl i buf a = (0, buf, a)"
  by (subst encrypt_loop.simps) (rule if_not_P)

lemma length_encrypt_loop:
  "pl \<le> length buf \<Longrightarrow> encrypt_loop m pl i buf a = (rc, buf', a') \<Longrightarrow>
   length buf' = length buf \<and> rc \<noteq> LIBSSH2_ERROR_EAGAIN"
proof (induction "pl - i" arbitrary: i buf a rule: less_induct)
  case less
  show ?case
  proof (cases "i < pl \<and> cm_blocksize m > 0")
    case False
    then show ?thesis using less.prems by (simp add: encrypt_loop_end)
  next
    case True
    then obtain n fl nexti where e: "i < nexti" "encrypt_loop m pl i buf a =
      (case crypt_at m 0 i n fl buf a of (rc, buf, a) \<Rightarrow>
         if rc \<noteq> 0 then (LIBSSH2_ERROR_ENCRYPT, buf, a) else encrypt_loop m pl nexti buf a)"
      by (elim conjE) (rule encrypt_loop_step)
    obtain r b c where c: "crypt_at m 0 i n fl buf a = (r, b, c)" by (metis prod_cases3)
    then have l: "length b = length buf" using True less.prems(1) by (intro length_crypt_at) auto
    show ?thesis
    proof (cases "r = 0")
      case True
      then show ?thesis
        using less.hyps [of nexti b c] less.prems e c l \<open>i < pl \<and> cm_blocksize m > 0\<close>
        by (simp add: diff_less_mono2)
    next
      case False
      then show ?thesis using less.prems e c l by simp
    qed
  qed
qed

lemma set_crypt_result_line [simp]:
  "length buf = length (tp_outbuf (tp s)) \<Longrightarrow> same_line s (set_crypt_result buf a s)"
  by (simp add: same_line_def set_crypt_result_def upd_defs)

lemma c_assert_simps [simp]:
  "wire (c_assert b s) = wire s" "tp (c_assert b s) = tp s" "kex_strict (c_assert b s) = kex_strict s"
  "local (c_assert b s) = local s" "remote (c_assert b s) = remote s" "st (c_assert b s) = st s"
  "sock_in (c_assert b s) = sock_in s" "fault (c_assert b s) \<longleftrightarrow> fault s \<or> \<not> b"
  "packets (c_assert b s) = packets s" "channels (c_assert b s) = channels s"
  "listeners (c_assert b s) = listeners s" "has_st x (c_assert b s) = has_st x s"
  by (simp_all add: c_assert_def set_fault_def has_st_def)

lemma set_fault_simps [simp]:
  "wire (set_fault s) = wire s" "tp (set_fault s) = tp s" "kex_strict (set_fault s) = kex_strict s"
  "local (set_fault s) = local s" "remote (set_fault s) = remote s" "st (set_fault s) = st s"
  "sock_in (set_fault s) = sock_in s" "fault (set_fault s)" "has_st x (set_fault s) = has_st x s"
  by (simp_all add: set_fault_def has_st_def)

lemma send_encrypt_line:
  assumes "send_encrypt m etm lm pl tot s = (rc, s')" "pl \<le> length (tp_outbuf (tp s))"
  shows "same_line s s' \<and> rc \<noteq> LIBSSH2_ERROR_EAGAIN"
proof (cases "cm_flags m AND SSH2_CRYPT_FLAG_REQUIRES_FULL_PACKET \<noteq> 0")
  case True
  obtain r b c where c: "crypt_at m (seqno (local s)) 0 pl 0 (tp_outbuf (tp s)) (crypt_abstract (local s))
      = (r, b, c)" by (metis prod_cases3)
  then show ?thesis
    using assms True length_crypt_at [OF _ c] by (auto simp: send_encrypt_def split: if_splits)
next
  case False
  obtain r b c where c: "encrypt_loop m pl (if etm then 4 else 0) (tp_outbuf (tp s))
      (crypt_abstract (local s)) = (r, b, c)" by (metis prod_cases3)
  have l: "length b = length (tp_outbuf (tp s))" "r \<noteq> - 37"
    using length_encrypt_loop [OF assms(2) c] by simp_all
  let ?s = "set_crypt_result b c s"
  have out: "tp_outbuf (tp ?s) = b" by (simp add: set_crypt_result_def upd_defs)
  show ?thesis
  proof (cases "r = 0 \<and> cm_flags m AND SSH2_CRYPT_FLAG_INTEGRATED_MAC \<noteq> 0")
    case False
    then show ?thesis
      using assms(1) \<open>\<not> cm_flags m AND SSH2_CRYPT_FLAG_REQUIRES_FULL_PACKET \<noteq> 0\<close> c l
      by (auto simp: send_encrypt_def Let_def split: if_splits)
  next
    case True
    let ?n = "case lm of None \<Rightarrow> 0 | Some h \<Rightarrow> mm_mac_len h"
    obtain r' b' c' where c': "crypt_at m 0 pl ?n LAST_BLOCK b (crypt_abstract (local ?s)) = (r', b', c')"
      by (metis prod_cases3)
    then have l': "length b' = length b" using assms(2) l by (intro length_crypt_at) auto
    have "s' = set_crypt_result b' c' (c_assert (tot \<le> pl + cm_blocksize m) ?s)"
      "rc \<noteq> - 37"
      using assms(1) \<open>\<not> cm_flags m AND SSH2_CRYPT_FLAG_REQUIRES_FULL_PACKET \<noteq> 0\<close> c c' True out
      by (auto simp: send_encrypt_def Let_def split: if_splits)
    moreover have "same_line ?s (set_crypt_result b' c' (c_assert (tot \<le> pl + cm_blocksize m) ?s))"
      using l' out by (simp add: same_line_def set_crypt_result_def upd_defs)
    moreover have "same_line s ?s" using l by simp
    ultimately show ?thesis using same_line_trans by blast
  qed
qed

lemma same_line_out: "same_line s s' \<Longrightarrow> length (tp_outbuf (tp s')) = length (tp_outbuf (tp s))"
  by (simp add: same_line_def)

lemma send_mac_if_line:
  assumes "send_mac_if b lm n s = (rc, s')"
    "\<And>h. lm = Some h \<Longrightarrow> mac_fits h \<and> n + mm_mac_len h \<le> length (tp_outbuf (tp s))"
  shows "same_line s s' \<and> rc \<noteq> LIBSSH2_ERROR_EAGAIN"
  using assms send_mac_line [of _ n s rc s']
  by (auto simp: send_mac_if_def split: option.splits if_splits)

lemma send_protect_line:
  assumes "send_protect m etm lm pl tot s = (rc, s')"
    and "\<And>h. lm = Some h \<Longrightarrow> mac_fits h \<and> pl + mm_mac_len h \<le> length (tp_outbuf (tp s))"
    and "pl \<le> length (tp_outbuf (tp s))"
  shows "same_line s s' \<and> rc \<noteq> LIBSSH2_ERROR_EAGAIN"
proof -
  let ?b = "\<not> etm \<and> \<not> cm_flags m AND SSH2_CRYPT_FLAG_INTEGRATED_MAC \<noteq> 0"
  obtain r1 s1 where 1: "send_mac_if ?b lm pl s = (r1, s1)"
    by (cases "send_mac_if ?b lm pl s") auto
  have l1: "same_line s s1 \<and> r1 \<noteq> - 37"
    using send_mac_if_line [OF 1 assms(2)] by simp
  obtain r2 s2 where 2: "send_encrypt m etm lm pl tot s1 = (r2, s2)"
    by (cases "send_encrypt m etm lm pl tot s1") auto
  have l2: "same_line s1 s2 \<and> r2 \<noteq> - 37"
    using send_encrypt_line [OF 2] l1 assms(3) same_line_out [of s s1] by simp
  then have l12: "same_line s s2" using l1 same_line_trans by blast
  obtain r3 s3 where 3: "send_mac_if etm lm pl s2 = (r3, s3)"
    by (cases "send_mac_if etm lm pl s2") auto
  have l3: "same_line s2 s3 \<and> r3 \<noteq> - 37"
    using send_mac_if_line [OF 3] assms(2) same_line_out [OF l12] by simp
  then have "same_line s s3" using same_line_trans [OF l12] by blast
  moreover have "send_protect m etm lm pl tot s =
      (if r1 \<noteq> 0 then (r1, s1) else if r2 \<noteq> 0 then (r2, s2) else (r3, s3))"
    by (simp only: send_protect_def Let_def 1 2 3 prod.case)
  ultimately show ?thesis using assms(1) l1 l2 l3 l12 by (auto split: if_splits)
qed

lemma send_frame_line:
  assumes "send_frame pl n s = (rc, s')" "length pl + 5 + n \<le> length (tp_outbuf (tp s))"
  shows "same_line s s' \<and> rc \<noteq> LIBSSH2_ERROR_EAGAIN \<and>
    (rc = 0 \<longrightarrow> (\<exists>junk. length junk = n \<and> take (length pl + 5 + n) (tp_outbuf (tp s')) =
       ssh2_htonu32 (of_nat (length pl + 1 + n)) @ [of_nat n] @ pl @ junk))"
proof (cases "ssh2_random n s")
  case (Pair r s1)
  then have s1: "same_line s s1" "tp s1 = tp s" and r: "\<And>j. r = Some j \<Longrightarrow> length j = n"
    by (auto simp: ssh2_random_def same_line_def split: list.splits)
  show ?thesis
  proof (cases r)
    case None
    then show ?thesis
      using assms Pair s1 by (auto simp: send_frame_def Let_def ssh2_err_def same_line_def)
  next
    case (Some junk)
    let ?f = "ssh2_htonu32 (of_nat (length pl + 1 + n)) @ [of_nat n] @ pl @ junk"
    have l: "length ?f = length pl + 5 + n" using r [OF Some] by simp
    have "s' = upd_tp (\<lambda>p. p\<lparr>tp_outbuf := mem_put 0 ?f (tp_outbuf p)\<rparr>) s1" "rc = 0"
      using assms(1) Pair Some by (auto simp: send_frame_def Let_def)
    moreover have "take (length pl + 5 + n) (mem_put 0 ?f (tp_outbuf (tp s))) = ?f"
      using l assms(2) by (metis add_0 append_Nil take0 take_mem_put_end)
    moreover have "length (mem_put 0 ?f (tp_outbuf (tp s))) = length (tp_outbuf (tp s))"
      using l assms(2) by (intro length_mem_put) simp
    ultimately show ?thesis using s1 r [OF Some] by (auto simp: same_line_def upd_tp_def)
  qed
qed

definition seqno_after :: "bool \<Rightarrow> u8 \<Rightarrow> u32 \<Rightarrow> u32" where
  "seqno_after strict msg n = (if strict \<and> msg = 21 then 0 else n + 1)"

lemma send_out_outcome:
  assumes "send_out ptr data n s = (rc, s')" "tp_olen (tp s) = 0" "0 < n"
    "n \<le> length (tp_outbuf (tp s))" "data \<noteq> []"
  shows "seqno (local s') = seqno_after (kex_strict s) (chr_at data 0) (seqno (local s)) \<and>
    (rc = 0 \<and> tp_olen (tp s') = 0 \<and> wire s' = wire s @ take n (tp_outbuf (tp s)) \<or>
     rc = LIBSSH2_ERROR_EAGAIN \<and> send_ok s' \<and> tp_odata (tp s') = Some ptr \<and>
       tp_olen (tp s') = length data \<and>
       wire s' @ pending s' = wire s @ take n (tp_outbuf (tp s)) \<or>
     rc = LIBSSH2_ERROR_SOCKET_SEND \<and> tp_olen (tp s') = 0 \<and> wire s' = wire s)"
proof -
  define s1 where "s1 = (let s = upd_local (\<lambda>e. e\<lparr>seqno := seqno e + 1\<rparr>) s in
    if kex_strict s \<and> chr_at data 0 = 21 then upd_local (\<lambda>e. e\<lparr>seqno := 0\<rparr>) s else s)"
  have s1: "wire s1 = wire s" "tp s1 = tp s"
    "seqno (local s1) = seqno_after (kex_strict s) (chr_at data 0) (seqno (local s))"
    by (auto simp: s1_def Let_def upd_local_def seqno_after_def)
  let ?b = "take n (tp_outbuf (tp s1))"
  have l: "length ?b = n" using assms(4) s1 by simp
  have e: "send_out ptr data n s = (case ssh2_send ?b s1 of (ret, s) \<Rightarrow>
           if ret \<noteq> int n then
             if ret \<ge> 0 \<or> ret = - EAGAIN then
               (LIBSSH2_ERROR_EAGAIN,
                upd_tp (\<lambda>p. p\<lparr>tp_odata := Some ptr, tp_olen := length data,
                              tp_osent := (if ret \<le> 0 then 0 else nat ret),
                              tp_ototal_num := n\<rparr>) (block_out s))
             else (LIBSSH2_ERROR_SOCKET_SEND, s)
           else (LIBSSH2_ERROR_NONE, upd_tp (\<lambda>p. p\<lparr>tp_odata := None, tp_olen := 0\<rparr>) s))"
    by (simp add: send_out_def s1_def Let_def)
  show ?thesis
  proof (cases rule: ssh2_send_cases [of ?b s1])
    case (1 x)
    then show ?thesis
      using assms s1 l unfolding e
      by (auto simp: pending_def send_ok_def upd_tp_def block_out_def slice_def split: if_splits)
  next
    case (2 k)
    show ?thesis
    proof (cases "k = n")
      case True
      then show ?thesis
        using assms s1 l 2 unfolding e by (auto simp: upd_tp_def)
    next
      case False
      then have k: "k < n" using 2 l by simp
      have "take k ?b @ drop k ?b = ?b" by (rule append_take_drop_id)
      then have "take k ?b @ slice k (n - k) (tp_outbuf (tp s1)) = ?b"
        by (simp add: slice_def drop_take)
      then show ?thesis
        using assms s1 l 2 k False unfolding e
        by (auto simp: pending_def send_ok_def upd_tp_def block_out_def)
    qed
  qed
qed

subsection \<open>A packet, once and completely\<close>

text \<open>The binary packet of RFC 4253 around a payload, before encryption.\<close>

definition is_packet :: "nat \<Rightarrow> bytes \<Rightarrow> bytes \<Rightarrow> bool" where
  "is_packet align payload f \<longleftrightarrow> (\<exists>junk n. 4 \<le> n \<and> n < 256 \<and> length junk = n \<and>
     (length payload + 5 + n) mod align = 0 \<and>
     f = ssh2_htonu32 (of_nat (length payload + 1 + n)) @ [of_nat n] @ payload @ junk)"

text \<open>
  The result \<open>rc\<close> of sending the packet \<open>f\<close>: all of it has left, or what has left together with what
  is kept for the next call is \<open>f\<close>, or nothing of it has left.
\<close>

definition sent_or_kept :: "ptr \<Rightarrow> nat \<Rightarrow> bytes \<Rightarrow> session \<Rightarrow> rc \<Rightarrow> session \<Rightarrow> bool" where
  "sent_or_kept ptr n f s rc s' \<longleftrightarrow>
     (rc = 0 \<and> tp_olen (tp s') = 0 \<and> wire s' = wire s @ f) \<or>
     (rc = LIBSSH2_ERROR_EAGAIN \<and> send_ok s' \<and> tp_odata (tp s') = Some ptr \<and>
        tp_olen (tp s') = n \<and> wire s' @ pending s' = wire s @ f)"

lemma local_fits_line: "same_line s s' \<Longrightarrow> local_fits s \<Longrightarrow> comp (local s') = comp (local s) \<Longrightarrow> local_fits s'"
  by (simp add: local_fits_def same_line_def has_st_def)

lemma send_new_outcome:
  assumes new: "transport_send_new blocksize ptr data data2 s = (rc, s')"
    and fits: "local_fits s" "4 \<le> blocksize" "blocksize \<le> 32"
    and idle: "tp_olen (tp s) = 0" "data \<noteq> []"
  shows "(rc \<noteq> 0 \<and> rc \<noteq> LIBSSH2_ERROR_EAGAIN \<and> tp_olen (tp s') = 0 \<and> wire s' = wire s) \<or>
    (\<exists>f. sent_or_kept ptr (length data) f s rc s' \<and>
       seqno (local s') = seqno_after (kex_strict s) (chr_at data 0) (seqno (local s)) \<and>
       (\<not> has_st SSH2_STATE_NEWKEYS s \<longrightarrow> is_packet blocksize (data @ data2) f))"
proof -
  let ?enc = "has_st SSH2_STATE_NEWKEYS s"
  let ?full = "?enc \<and> CRYPT_FLAG_L s SSH2_CRYPT_FLAG_REQUIRES_FULL_PACKET"
  let ?auth = "if ?full then case crypt (local s) of None \<Rightarrow> 0 | Some m \<Rightarrow> cm_auth_len m else 0"
  let ?mac = "if ?full then None else mac (local s)"
  let ?etm = "?enc \<and> (case ?mac of None \<Rightarrow> False | Some h \<Rightarrow> mm_etm h)"
  obtain r1 pl s1 where 1: "send_payload ?enc data data2 s = (r1, pl, s1)" by (metis prod_cases3)
  note p = send_payload_line [OF 1 fits(1)]
  let ?off = "send_crypt_offset ?etm ?auth ?enc s1"
  let ?n = "send_padding blocksize (length pl + 5 - ?off)"
  let ?plen = "length pl + 5 + ?n"
  let ?maclen = "if ?enc then case ?mac of None \<Rightarrow> 0 | Some h \<Rightarrow> mm_mac_len h else 0"
  let ?tot = "?plen + ?maclen + ?auth"
  note pad = send_padding_bounds [OF fits(2), of "length pl + 5 - ?off"]
  have auth: "?auth \<le> 64"
    using fits(1) by (auto simp: local_fits_def crypt_fits_def split: option.splits)
  have mac: "mac_fits h \<and> mm_mac_len h \<le> 64" if "?mac = Some h" for h
    using fits(1) that by (auto simp: local_fits_def mac_fits_def split: if_splits)
  then have ml: "?maclen \<le> 64" by (auto split: option.splits)
  have out: "length (tp_outbuf (tp s1)) = 35000"
    using p fits(1) by (simp add: local_fits_def MAX_SSH_PACKET_LEN_def)
  have room: "?plen + 64 + 64 \<le> 35000"
    using p pad fits(3) by (simp add: MAX_SSH_PACKET_LEN_def)
  obtain r2 s2 where 2: "send_frame pl ?n s1 = (r2, s2)" by (cases "send_frame pl ?n s1") auto
  have f: "same_line s1 s2 \<and> r2 \<noteq> - 37 \<and>
    (r2 = 0 \<longrightarrow> (\<exists>junk. length junk = ?n \<and> take ?plen (tp_outbuf (tp s2)) =
       ssh2_htonu32 (of_nat (length pl + 1 + ?n)) @ [of_nat ?n] @ pl @ junk))"
    using room out by (intro send_frame_line [OF 2]) simp
  have s2: "same_line s s2" using p f same_line_trans by blast
  obtain r3 s3 where 3: "(if ?enc then case crypt (local s2) of None \<Rightarrow> (0, set_fault s2)
      | Some m \<Rightarrow> send_protect m ?etm ?mac ?plen ?tot s2 else (0, s2)) = (r3, s3)"
    by (metis surj_pair)
  have out2: "length (tp_outbuf (tp s2)) = 35000" using f out same_line_out by fastforce
  have g: "same_line s2 s3 \<and> r3 \<noteq> - 37 \<and> (\<not> ?enc \<longrightarrow> s3 = s2)"
  proof (cases ?enc)
    case True
    then obtain m where m: "crypt (local s2) = Some m"
      using fits(1) s2 by (auto simp: local_fits_def same_line_def)
    show ?thesis
      using 3 True m send_protect_line [of m ?etm ?mac ?plen ?tot s2 r3 s3] mac room out2
      by fastforce
  next
    case False
    then show ?thesis using 3 by auto
  qed
  have s3: "same_line s s3" using s2 g same_line_trans by blast
  have out3: "length (tp_outbuf (tp s3)) = 35000" using s3 same_line_out out2 s2 by fastforce
  have e: "transport_send_new blocksize ptr data data2 s =
    (if r1 \<noteq> 0 then (r1, s1) else if r2 \<noteq> 0 then (r2, s2) else if r3 \<noteq> 0 then (r3, s3)
     else send_out ptr data ?tot s3)"
    using fits(2) unfolding transport_send_new_def Let_def 1 prod.case 2 3
    by simp
  show ?thesis
  proof (cases "r1 = 0 \<and> r2 = 0 \<and> r3 = 0")
    case False
    then show ?thesis
      using new e p f g s2 s3 idle(1) by (auto simp: same_line_def split: if_splits)
  next
    case True
    have "send_out ptr data ?tot s3 = (rc, s')" using new e True by simp
    moreover have "0 < ?tot" "?tot \<le> length (tp_outbuf (tp s3))"
      using room auth ml out3 by simp_all
    moreover have "tp_olen (tp s3) = 0" "wire s3 = wire s" "kex_strict s3 = kex_strict s"
      "seqno (local s3) = seqno (local s)"
      using s3 idle(1) by (simp_all add: same_line_def)
    moreover have "is_packet blocksize (data @ data2) (take ?tot (tp_outbuf (tp s3)))" if "\<not> ?enc"
    proof -
      have "?off = 0" "?tot = ?plen" "pl = data @ data2" "s3 = s2"
        using that p g True by (auto simp: send_crypt_offset_def)
      then show ?thesis
        using f pad fits(3) True unfolding is_packet_def by auto
    qed
    ultimately show ?thesis
      using send_out_outcome [of ptr data ?tot s3 rc s'] idle(2) unfolding sent_or_kept_def by auto
  qed
qed

text \<open>Nothing sends the session into a key exchange.\<close>

definition no_redirect :: "session \<Rightarrow> bool" where
  "no_redirect s \<longleftrightarrow> \<not> (has_st SSH2_STATE_EXCHANGING_KEYS s \<and> \<not> has_st SSH2_STATE_KEX_ACTIVE s)"

lemma rekey_redirect_none [simp]: "no_redirect s \<Longrightarrow> rekey_redirect kx s = (0, s)"
  by (auto simp: rekey_redirect_def no_redirect_def)

text \<open>The caller repeats the call, with the same arguments, up to \<open>n\<close> times while it would block.\<close>

primrec send_again :: "nat \<Rightarrow> (session \<Rightarrow> rc \<times> session) \<Rightarrow> ptr \<Rightarrow> bytes \<Rightarrow> bytes \<Rightarrow> session \<Rightarrow>
    rc \<times> session" where
  "send_again 0 kx ptr data data2 s = ssh2_transport_send kx ptr data data2 s"
| "send_again (Suc n) kx ptr data data2 s =
     (case ssh2_transport_send kx ptr data data2 s of (rc, s) \<Rightarrow>
        if rc = LIBSSH2_ERROR_EAGAIN then send_again n kx ptr data data2 s else (rc, s))"

lemma pending_cong: "tp s' = tp s \<Longrightarrow> pending s' = pending s"
  by (simp add: pending_def)

lemma send_ok_cong: "tp s' = tp s \<Longrightarrow> send_ok s' = send_ok s"
  by (simp add: send_ok_def)

lemma local_existing: "transport_send_existing ptr n s = (rc, ret, s') \<Longrightarrow> local s' = local s"
  by (auto simp: transport_send_existing_def Let_def block_out_def upd_tp_def ssh2_send_def
      split: if_splits list.splits send_event.splits)

lemma send_busy:
  assumes "tp_olen (tp s) \<noteq> 0" "send_ok s" "ssh2_transport_send kx ptr data data2 s = (rc, s')"
  shows "wire s' @ pending s' = wire s @ pending s \<and> send_ok s' \<and> local s' = local s \<and>
    (rc = 0 \<longrightarrow> pending s' = [] \<and> tp_olen (tp s') = 0) \<and>
    (rc = LIBSSH2_ERROR_EAGAIN \<longrightarrow> tp_olen (tp s') \<noteq> 0)"
proof -
  let ?s = "c_assert (has_st SSH2_STATE_NEWKEYS s \<longrightarrow> crypt (local s) \<noteq> None) s"
  obtain r ret s1 where e: "transport_send_existing ptr (length data) ?s = (r, ret, s1)"
    by (metis prod_cases3)
  have "r \<noteq> 0 \<or> ret \<noteq> 0" and k: "r = - 37 \<longrightarrow> tp_olen (tp s1) \<noteq> 0"
    using e assms(1)
    by (auto simp: transport_send_existing_def Let_def block_out_def upd_tp_def ssh2_send_def
        split: if_splits list.splits send_event.splits)
  moreover note send_existing_conserves [OF _ e] local_existing [OF e]
  moreover have "wire (s1\<lparr>block_directions := x\<rparr>) = wire s1"
    "pending (s1\<lparr>block_directions := x\<rparr>) = pending s1" for x
    by (simp_all add: pending_def)
  ultimately show ?thesis
    using assms(2,3) e k pending_cong [of ?s s] send_ok_cong [of ?s s]
    by (auto simp: ssh2_transport_send_def Let_def send_ok_def split: if_splits)
qed

lemma send_again_busy:
  assumes "tp_olen (tp s) \<noteq> 0" "send_ok s" "send_again n kx ptr data data2 s = (rc, s')"
  shows "wire s' @ pending s' = wire s @ pending s \<and> local s' = local s \<and>
    (rc = 0 \<longrightarrow> pending s' = [])"
  using assms
proof (induction n arbitrary: s)
  case 0
  then show ?case using send_busy [of s kx ptr data data2 rc s'] by simp
next
  case (Suc n)
  obtain r s1 where 1: "ssh2_transport_send kx ptr data data2 s = (r, s1)"
    by (cases "ssh2_transport_send kx ptr data data2 s") auto
  note b = send_busy [OF Suc.prems(1,2) 1]
  show ?case
  proof (cases "r = LIBSSH2_ERROR_EAGAIN")
    case True
    then show ?thesis using Suc.IH [of s1] Suc.prems(3) 1 b by simp
  next
    case False
    then show ?thesis using Suc.prems(3) 1 b by simp
  qed
qed


text \<open>A session with three of the eight bytes of a packet still to be sent.\<close>

definition busy_session :: session where
  "busy_session = libssh2_session_init_ex\<lparr>tp := transportpacket_0\<lparr>tp_outbuf := [1, 2, 3, 4, 5, 6, 7, 8],
     tp_odata := Some (''packet'', 0), tp_olen := 1, tp_osent := 5, tp_ototal_num := 8\<rparr>,
     sock_out := [Send_upto 2]\<rparr>"




end
