(* ===== verification/TransportRead.thy ===== *)
theory TransportRead
  imports TransportSend
begin

text \<open>
  What \<open>ssh2_transport_read\<close> guarantees: before encryption it hands every packet, in whatever pieces
  the socket delivers it, to the packet handler exactly as it was sent; an authenticated packet is
  only handed on as confirmed when its MAC is right.
\<close>

subsection \<open>The stream of received bytes\<close>

fun ev_bytes :: "recv_event \<Rightarrow> bytes" where
  "ev_bytes (Recv_bytes bs) = bs"
| "ev_bytes (Recv_err e) = []"

definition stream :: "session \<Rightarrow> bytes" where
  "stream s = drop (tp_readidx (tp s)) (tp_buf (tp s)) @ concat (map ev_bytes (sock_in s))"

definition data_only :: "recv_event list \<Rightarrow> bool" where
  "data_only es \<longleftrightarrow> (\<forall>e \<in> set es. \<exists>c. e = Recv_bytes c \<and> c \<noteq> [])"

lemma data_only_simps [simp]:
  "data_only []" "data_only (e # es) \<longleftrightarrow> (\<exists>c. e = Recv_bytes c \<and> c \<noteq> []) \<and> data_only es"
  by (simp_all add: data_only_def)

text \<open>Everything but the transport buffers, the socket and the direction hint.\<close>

definition core :: "session \<Rightarrow> session" where
  "core s = s\<lparr>tp := transportpacket_0, sock_in := [], block_directions := 0\<rparr>"

lemma core_simps [simp]:
  "core (s\<lparr>tp := x\<rparr>) = core s" "core (s\<lparr>sock_in := y\<rparr>) = core s"
  "core (s\<lparr>block_directions := z\<rparr>) = core s" "core (upd_tp f s) = core s" "core (block_in s) = core s"
  by (simp_all add: core_def upd_tp_def block_in_def)

lemma core_eqD:
  assumes "core s = core s0"
  shows "st s = st s0" "remote s = remote s0" "local s = local s0" "socket_st s = socket_st s0"
    "allocs s = allocs s0" "fullpacket_state s = fullpacket_state s0" "fault s = fault s0"
    "kex_strict s = kex_strict s0" "readPack_state s = readPack_state s0"
proof -
  have "st (core s) = st (core s0)" "remote (core s) = remote (core s0)"
    "local (core s) = local (core s0)" "socket_st (core s) = socket_st (core s0)"
    "allocs (core s) = allocs (core s0)" "fullpacket_state (core s) = fullpacket_state (core s0)"
    "fault (core s) = fault (core s0)" "kex_strict (core s) = kex_strict (core s0)"
    "readPack_state (core s) = readPack_state (core s0)"
    using assms by simp_all
  then show "st s = st s0" "remote s = remote s0" "local s = local s0" "socket_st s = socket_st s0"
    "allocs s = allocs s0" "fullpacket_state s = fullpacket_state s0" "fault s = fault s0"
    "kex_strict s = kex_strict s0" "readPack_state s = readPack_state s0"
    by (simp_all add: core_def)
qed

subsection \<open>Refilling\<close>

definition buf_ok :: "session \<Rightarrow> bool" where
  "buf_ok s \<longleftrightarrow> tp_readidx (tp s) \<le> length (tp_buf (tp s)) \<and> length (tp_buf (tp s)) \<le> PACKETBUFSIZE \<and>
     data_only (sock_in s)"

text \<open>The transport buffers that a refill leaves alone.\<close>

definition same_packet :: "session \<Rightarrow> session \<Rightarrow> bool" where
  "same_packet s s' \<longleftrightarrow> core s' = core s \<and>
     (\<exists>b i. tp s' = (tp s)\<lparr>tp_buf := b, tp_readidx := i\<rparr>)"

lemma same_packet_refl [simp]: "same_packet s s"
proof -
  have "tp s = (tp s)\<lparr>tp_buf := tp_buf (tp s), tp_readidx := tp_readidx (tp s)\<rparr>" by simp
  then show ?thesis unfolding same_packet_def by blast
qed

lemma refill_full:
  "remainbuf s \<ge> blocksize \<Longrightarrow> \<not> CRYPT_FLAG_R s SSH2_CRYPT_FLAG_REQUIRES_FULL_PACKET \<Longrightarrow>
   tp_readidx (tp s) \<le> length (tp_buf (tp s)) \<Longrightarrow> read_refill blocksize s = (None, s)"
  by (simp add: read_refill_def c_assert_def)

lemma refill_data:
  assumes ok: "buf_ok s" and few: "remainbuf s < blocksize" "blocksize \<le> PACKETBUFSIZE"
    and more: "sock_in s \<noteq> []"
  shows "\<exists>s'. read_refill blocksize s = (None, s') \<and> buf_ok s' \<and> same_packet s s' \<and>
    stream s' = stream s \<and> read_measure s' < read_measure s \<and> remainbuf s < remainbuf s'"
proof -
  obtain c es where c: "sock_in s = Recv_bytes c # es" "c \<noteq> []" and es: "data_only es"
    using ok more by (cases "sock_in s") (auto simp: buf_ok_def)
  let ?n = "PACKETBUFSIZE - remainbuf s"
  have n: "0 < ?n" using few by simp
  obtain k where k: "length c = Suc k" using c by (cases c) auto
  define s' where "s' = s\<lparr>tp := (tp s)\<lparr>tp_buf := drop (tp_readidx (tp s)) (tp_buf (tp s)) @ take ?n c,
      tp_readidx := 0\<rparr>, sock_in := (if ?n < length c then Recv_bytes (drop ?n c) # es else es)\<rparr>"
  have idx: "tp_readidx (tp s) \<le> length (tp_buf (tp s))" "length (tp_buf (tp s)) \<le> PACKETBUFSIZE"
    using ok by (simp_all add: buf_ok_def)
  have "read_refill blocksize s = (None, s')"
    using few n c idx
    by (auto simp: read_refill_def c_assert_def Let_def ssh2_recv_def upd_tp_def s'_def remainbuf_def
        min_def)
  moreover have "buf_ok s'"
    using idx es n by (auto simp: buf_ok_def s'_def remainbuf_def min_def)
  moreover have "same_packet s s'"
    by (auto simp: same_packet_def s'_def)
  moreover have "stream s' = stream s"
    using c by (auto simp: stream_def s'_def)
  moreover have "read_measure s' < read_measure s"
    using c n idx by (auto simp: read_measure_def s'_def remainbuf_def min_def)
  moreover have "remainbuf s < remainbuf s'"
    using c n k idx by (auto simp: s'_def remainbuf_def min_def)
  ultimately show ?thesis by blast
qed

subsection \<open>Receiving a packet before encryption\<close>

definition plain :: "session \<Rightarrow> bool" where
  "plain s \<longleftrightarrow> \<not> has_st SSH2_STATE_NEWKEYS s \<and> crypt (remote s) = None \<and>
     socket_st s \<noteq> SOCKET_DISCONNECTED \<and> allocs s = []"

lemma plain_core: "core s = core s0 \<Longrightarrow> plain s = plain s0"
  using core_eqD [of s s0] by (simp add: plain_def has_st_def)

text \<open>
  The packet with body \<open>body\<close>, of which \<open>n\<close> bytes are padding, is being received into \<open>s\<close>, and \<open>t\<close>
  follows it: its first byte is not there yet, or the header is parsed and what is in the block
  together with what is still in the stream is the body.
\<close>

definition header :: "u8 \<Rightarrow> bytes \<Rightarrow> bytes" where
  "header n body = ssh2_htonu32 (of_nat (length body + 1)) @ [n]"

definition body_ok :: "u8 \<Rightarrow> bytes \<Rightarrow> bool" where
  "body_ok n body \<longleftrightarrow> unat n \<le> length body \<and> 0 < length body \<and> length body < LIBSSH2_PACKET_MAXPAYLOAD"

definition collecting :: "u8 \<Rightarrow> bytes \<Rightarrow> bytes \<Rightarrow> session \<Rightarrow> bool" where
  "collecting n body t s \<longleftrightarrow> (let p = tp s in
     tp_total_num p = length body \<and> tp_data_num p < length body \<and> tp_wptr p = tp_data_num p \<and>
     tp_readidx p = length (tp_buf p) \<and> tp_padding_length p = n \<and>
     tp_packet_length p = of_nat (length body + 1) \<and>
     (\<exists>b. tp_payload p = Some b \<and> length b = length body \<and>
          take (tp_data_num p) b @ stream s = body @ t))"

definition receiving :: "u8 \<Rightarrow> bytes \<Rightarrow> bytes \<Rightarrow> session \<Rightarrow> bool" where
  "receiving n body t s \<longleftrightarrow> buf_ok s \<and>
     (tp_total_num (tp s) = 0 \<and> stream s = header n body @ body @ t \<or> collecting n body t s)"

definition received :: "u8 \<Rightarrow> bytes \<Rightarrow> bytes \<Rightarrow> session \<Rightarrow> bool" where
  "received n body t s \<longleftrightarrow> (let p = tp s in
     tp_payload p = Some body \<and> tp_total_num p = tp_data_num p \<and> tp_total_num p = length body \<and>
     tp_padding_length p = n \<and> tp_packet_length p = of_nat (length body + 1) \<and>
     stream s = t \<and> buf_ok s)"

text \<open>Taking over buffered bytes: the common part of the first and the later rounds.\<close>

lemma read_copy_plain:
  assumes b: "tp_payload (tp s) = Some b" "length b = tp_total_num (tp s)"
    "tp_wptr (tp s) = tp_data_num (tp s)"
    and k: "0 < k" "k \<le> remainbuf s" "tp_data_num (tp s) + k \<le> tp_total_num (tp s)"
    and idx: "tp_readidx (tp s) \<le> length (tp_buf (tp s))"
  shows "\<exists>b'. read_copy (int k) s = (None, s\<lparr>tp := (tp s)\<lparr>tp_payload := Some b',
      tp_readidx := tp_readidx (tp s) + k, tp_wptr := tp_data_num (tp s) + k,
      tp_data_num := tp_data_num (tp s) + k\<rparr>\<rparr>) \<and> length b' = length b \<and>
    take (tp_data_num (tp s) + k) b' =
      take (tp_data_num (tp s)) b @ take k (drop (tp_readidx (tp s)) (tp_buf (tp s)))"
proof -
  let ?d = "tp_data_num (tp s)" and ?x = "slice (tp_readidx (tp s)) k (tp_buf (tp s))"
  have x: "length ?x = k"
    using k idx by (intro length_slice) (simp add: remainbuf_def)
  have "length (mem_put ?d ?x b) = length b"
    using x b k by (intro length_mem_put) simp
  moreover have "take (?d + k) (mem_put ?d ?x b) = take ?d b @ ?x"
    using x b k take_mem_put_end [of ?d ?x b] by simp
  moreover have "read_copy (int k) s = (None, s\<lparr>tp := (tp s)\<lparr>tp_payload := Some (mem_put ?d ?x b),
      tp_readidx := tp_readidx (tp s) + k, tp_wptr := ?d + k, tp_data_num := ?d + k\<rparr>\<rparr>)"
    using k b x by (simp add: read_copy_def payload_put_def read_advance_def upd_tp_def c_assert_def)
  ultimately show ?thesis by (auto simp: slice_def)
qed

text \<open>One round over a non-empty buffer, after the header has been dealt with.\<close>

lemma take_over_plain:
  assumes plain: "plain s" and v: "\<not> rv_encrypted v"
    and b: "tp_payload (tp s) = Some b" "length b = tp_total_num (tp s)"
      "tp_wptr (tp s) = tp_data_num (tp s)" "tp_data_num (tp s) < tp_total_num (tp s)"
    and idx: "tp_readidx (tp s) \<le> length (tp_buf (tp s))"
    and str: "take (tp_data_num (tp s)) b @ stream s = body @ t" "tp_total_num (tp s) = length body"
    and k: "k = min (remainbuf s) (tp_total_num (tp s) - tp_data_num (tp s))"
  shows "\<exists>s'. read_amounts blocksize v (int (remainbuf s)) s = (None, [int k, 0], v, s) \<and>
    read_consume v (int k) 0 s = (None, s') \<and> core s' = core s \<and> sock_in s' = sock_in s \<and>
    tp_buf (tp s') = tp_buf (tp s) \<and> tp_readidx (tp s') = tp_readidx (tp s) + k \<and>
    tp_data_num (tp s') = tp_data_num (tp s) + k \<and> tp_wptr (tp s') = tp_data_num (tp s) + k \<and>
    tp_total_num (tp s') = tp_total_num (tp s) \<and> tp_packet_length (tp s') = tp_packet_length (tp s) \<and>
    tp_padding_length (tp s') = tp_padding_length (tp s) \<and>
    (\<exists>b'. tp_payload (tp s') = Some b' \<and> length b' = length b \<and>
       take (tp_data_num (tp s) + k) b' @ stream s' = body @ t)"
proof -
  have full: "\<not> rv_full v s" "\<not> rv_etm v" using v by (simp_all add: rv_full_def rv_etm_def)
  have a: "read_amounts blocksize v (int (remainbuf s)) s = (None, [int k, 0], v, s)"
    using full v b(4) k by (auto simp: read_amounts_def Let_def)
  show ?thesis
  proof (cases "k = 0")
    case True
    then have "read_consume v (int k) 0 s = (None, s)"
      by (simp add: read_consume_def read_copy_def)
    with a b str True show ?thesis by auto
  next
    case False
    have "k \<le> remainbuf s" "tp_data_num (tp s) + k \<le> tp_total_num (tp s)" using k b(4) by auto
    from read_copy_plain [OF b(1-3) _ this idx] False
    obtain b' where b': "read_copy (int k) s = (None, s\<lparr>tp := (tp s)\<lparr>tp_payload := Some b',
      tp_readidx := tp_readidx (tp s) + k, tp_wptr := tp_data_num (tp s) + k,
      tp_data_num := tp_data_num (tp s) + k\<rparr>\<rparr>)" "length b' = length b"
      "take (tp_data_num (tp s) + k) b' =
        take (tp_data_num (tp s)) b @ take k (drop (tp_readidx (tp s)) (tp_buf (tp s)))"
      by auto
    let ?D = "drop (tp_readidx (tp s)) (tp_buf (tp s))"
    have "take k ?D @ drop (tp_readidx (tp s) + k) (tp_buf (tp s)) = ?D"
      by (metis add.commute append_take_drop_id drop_drop)
    then have "take (tp_data_num (tp s) + k) b' @ drop (tp_readidx (tp s) + k) (tp_buf (tp s)) @
        concat (map ev_bytes (sock_in s)) = body @ t"
      using str(1) b'(3) by (simp add: stream_def) (metis append.assoc)
    with a b' show ?thesis
      by (simp add: read_consume_def stream_def)
  qed
qed

lemma length_header [simp]: "length (header n body) = 5"
  by (simp add: header_def)

lemma header_take: "5 \<le> length b \<Longrightarrow> b @ c = header n body @ d \<Longrightarrow> take 5 b = header n body"
  by (metis append_eq_conv_conj append_take_drop_id length_header take_append diff_is_0_eq take_0
      append_Nil2)

lemma read_header_plain:
  assumes p: "plain s" "\<not> rv_encrypted v" and ok: "buf_ok s" "5 \<le> remainbuf s" "body_ok n body"
    and str: "stream s = header n body @ body @ t"
  shows "\<exists>s'. read_header 5 v (int (remainbuf s)) s = (None, [int (remainbuf s')], s') \<and>
    core s' = core s \<and> sock_in s' = sock_in s \<and> tp_buf (tp s') = tp_buf (tp s) \<and>
    tp_readidx (tp s') = tp_readidx (tp s) + 5 \<and> tp_payload (tp s') = Some (replicate (length body) 0) \<and>
    tp_wptr (tp s') = 0 \<and> tp_data_num (tp s') = 0 \<and> tp_total_num (tp s') = length body \<and>
    tp_padding_length (tp s') = n \<and> tp_packet_length (tp s') = of_nat (length body + 1) \<and>
    stream s' = body @ t"
proof -
  let ?L = "of_nat (length body + 1) :: u32"
  let ?D = "drop (tp_readidx (tp s)) (tp_buf (tp s))"
  have v: "\<not> rv_etm v" "\<not> rv_full v s" using p by (simp_all add: rv_etm_def rv_full_def)
  have blk: "slice (tp_readidx (tp s)) 5 (tp_buf (tp s)) = header n body"
    using str ok(2) header_take [of ?D "concat (map ev_bytes (sock_in s))" n body "body @ t"]
    by (simp add: slice_def stream_def remainbuf_def)
  have n4: "chr_at (header n body) 4 = n" and nt: "ssh2_ntohu32 (header n body) = ?L"
    by (simp_all add: header_def chr_at_def nth_append ntohu32_htonu32_append)
  define s1 where "s1 = upd_tp (\<lambda>p. p\<lparr>tp_readidx := tp_readidx p + 5, tp_packet_length := ?L\<rparr>) s"
  have 1: "read_first_block 5 v s = (None, header n body, s1)"
    using p v blk nt by (simp add: read_first_block_def s1_def Let_def)
  have L: "unat ?L = length body + 1" "unat (?L - 1) = length body"
  proof -
    show "unat ?L = length body + 1"
      using ok(3) by (intro unat_of_nat_u32) (simp add: body_ok_def LIBSSH2_PACKET_MAXPAYLOAD_def)
    have "?L - 1 = of_nat (length body)" by simp
    then show "unat (?L - 1) = length body"
      using ok(3) by (simp only:) (intro unat_of_nat_u32, simp add: body_ok_def LIBSSH2_PACKET_MAXPAYLOAD_def)
  qed
  have c1: "\<not> ?L < 1" "\<not> ?L > of_nat LIBSSH2_PACKET_MAXPAYLOAD" "\<not> ucast n > ?L - 1"
    using L ok(3)
    by (auto simp: word_less_nat_alt body_ok_def LIBSSH2_PACKET_MAXPAYLOAD_def unsigned_ucast_eq
        take_bit_nat_eq_self)
  define s2 where "s2 = upd_tp (\<lambda>p. p\<lparr>tp_padding_length := n\<rparr>) s1"
  have 2: "read_total v (header n body) s1 = (None, [length body], s2)"
    using v p c1 L n4 by (simp add: read_total_def s1_def s2_def upd_tp_def Let_def rv_full_def)
  define s3 where "s3 = upd_tp (\<lambda>p. p\<lparr>tp_payload := Some (replicate (length body) 0),
      tp_total_num := length body, tp_wptr := 0, tp_data_num := 0\<rparr>) s2"
  have 3: "read_alloc 5 v (header n body) (length body) (int (remainbuf s)) s2 =
      (None, [int (remainbuf s) - 5], s3)"
    using ok(3) p v
    by (simp add: read_alloc_def body_ok_def ssh2_alloc_def s3_def s2_def s1_def upd_tp_def plain_def
        rv_full_def Let_def)
  have "remainbuf s3 = remainbuf s - 5"
    by (simp add: s3_def s2_def s1_def upd_tp_def remainbuf_def)
  then have "read_header 5 v (int (remainbuf s)) s = (None, [int (remainbuf s3)], s3)"
    using ok(2) v 1 2 3 by (simp add: read_header_def of_nat_diff)
  moreover have "stream s3 = body @ t"
  proof -
    have "take 5 ?D = header n body" using blk by (simp add: slice_def)
    then have "?D = header n body @ drop 5 ?D" by (metis append_take_drop_id)
    then have "header n body @ drop 5 ?D @ concat (map ev_bytes (sock_in s)) = header n body @ body @ t"
      using str by (simp add: stream_def)
    then show ?thesis
      by (simp add: stream_def s3_def s2_def s1_def upd_tp_def add.commute)
  qed
  ultimately show ?thesis
    by (intro exI [of _ s3]) (simp add: s3_def s2_def s1_def, simp add: upd_tp_def)
qed

lemma read_setup_plain:
  "plain s \<Longrightarrow> read_setup v s = (5, v\<lparr>rv_encrypted := False\<rparr>, s)"
  by (simp add: read_setup_def plain_def)

lemma flag_plain: "plain s \<Longrightarrow> \<not> CRYPT_FLAG_R s f"
  by (simp add: plain_def CRYPT_FLAG_R_def)

lemma length_stream: "tp_readidx (tp s) \<le> length (tp_buf (tp s)) \<Longrightarrow>
    length (stream s) = remainbuf s + length (concat (map ev_bytes (sock_in s)))"
  by (simp add: stream_def remainbuf_def)

text \<open>The rest of a round, once the header is known and the buffer is not to be refilled.\<close>

lemma read_rest_plain:
  assumes plain: "plain s" and v: "\<not> rv_encrypted v" and ok: "buf_ok s"
    and b: "tp_payload (tp s) = Some b" "length b = length body" "tp_wptr (tp s) = tp_data_num (tp s)"
      "tp_data_num (tp s) < length body" "tp_total_num (tp s) = length body"
      "tp_padding_length (tp s) = n" "tp_packet_length (tp s) = of_nat (length body + 1)"
    and str: "take (tp_data_num (tp s)) b @ stream s = body @ t"
  obtains s' k where
    "read_amounts 5 v (int (remainbuf s)) s = (None, [int k, 0], v, s)"
    "read_consume v (int k) 0 s = (None, s')" "core s' = core s"
    "k = min (remainbuf s) (length body - tp_data_num (tp s))"
    "read_measure s' = read_measure s - k"
    "if tp_total_num (tp s') = tp_data_num (tp s') then received n body t s'
     else collecting n body t s' \<and> buf_ok s'"
proof -
  define k where "k = min (remainbuf s) (tp_total_num (tp s) - tp_data_num (tp s))"
  have idx: "tp_readidx (tp s) \<le> length (tp_buf (tp s))" using ok by (simp add: buf_ok_def)
  have len: "length b = tp_total_num (tp s)" "tp_data_num (tp s) < tp_total_num (tp s)"
    using b by simp_all
  from take_over_plain [OF plain v b(1) len(1) b(3) len(2) idx str b(5) k_def, of 5]
  obtain s' b' where a: "read_amounts 5 v (int (remainbuf s)) s = (None, [int k, 0], v, s)"
    and c: "read_consume v (int k) 0 s = (None, s')" "core s' = core s" "sock_in s' = sock_in s"
      "tp_buf (tp s') = tp_buf (tp s)" "tp_readidx (tp s') = tp_readidx (tp s) + k"
      "tp_data_num (tp s') = tp_data_num (tp s) + k" "tp_wptr (tp s') = tp_data_num (tp s) + k"
      "tp_total_num (tp s') = length body" "tp_packet_length (tp s') = of_nat (length body + 1)"
      "tp_padding_length (tp s') = n"
      "tp_payload (tp s') = Some b'" "length b' = length body"
      "take (tp_data_num (tp s) + k) b' @ stream s' = body @ t"
    using b by auto
  have kr: "k \<le> remainbuf s" by (simp add: k_def)
  then have "tp_readidx (tp s) + k \<le> length (tp_buf (tp s))" using idx by (simp add: remainbuf_def)
  then have ok': "buf_ok s'"
    using ok c by (simp add: buf_ok_def)
  have m: "read_measure s' = read_measure s - k"
    using c kr by (simp add: read_measure_def remainbuf_def)
  have "if tp_total_num (tp s') = tp_data_num (tp s') then received n body t s'
     else collecting n body t s' \<and> buf_ok s'"
  proof (cases "tp_data_num (tp s) + k = length body")
    case True
    then have "b' @ stream s' = body @ t" using c by simp
    then have "b' = body" "stream s' = t" using c(12) by simp_all
    then show ?thesis using True c ok' by (simp add: received_def Let_def)
  next
    case False
    then have "k = remainbuf s" "tp_data_num (tp s) + k < length body"
      using k_def b(4,5) by (auto simp: min_def split: if_splits)
    then show ?thesis
      using c ok' idx by (auto simp: collecting_def Let_def remainbuf_def)
  qed
  with a c m show thesis using that k_def b(5) by metis
qed

lemma read_iter_plain:
  assumes plain: "plain s" and r: "receiving n body t s" and ok: "body_ok n body"
  shows "(\<exists>s'. read_iter padd v s = (Inl LIBSSH2_ERROR_EAGAIN, s') \<and> receiving n body t s' \<and>
      core s' = core s \<and> read_measure s' < read_measure s) \<or>
    (\<exists>v' s'. read_iter padd v s = (Inr v', s') \<and> receiving n body t s' \<and>
      core s' = core s \<and> read_measure s' < read_measure s) \<or>
    (\<exists>s'. read_iter padd v s = (case read_point1 padd False s' of (rc, s) \<Rightarrow> (Inl rc, s)) \<and>
      received n body t s' \<and> core s' = core s)"
proof -
  let ?v = "v\<lparr>rv_encrypted := False\<rparr>"
  have v: "\<not> rv_encrypted ?v" by simp
  have bok: "buf_ok s" using r by (simp add: receiving_def)
  have idx: "tp_readidx (tp s) \<le> length (tp_buf (tp s))" using bok by (simp add: buf_ok_def)
  have "\<exists>s1. read_refill 5 s = (None, s1) \<and> buf_ok s1 \<and> same_packet s s1 \<and> stream s1 = stream s \<and>
      (remainbuf s \<ge> 5 \<and> s1 = s \<or> read_measure s1 < read_measure s \<and> remainbuf s < remainbuf s1)"
  proof (cases "remainbuf s \<ge> 5")
    case True
    then show ?thesis
      using refill_full [OF True] flag_plain [OF plain] idx bok
      by auto
  next
    case False
    have "length (stream s) > remainbuf s"
      using r False
    proof (cases "tp_total_num (tp s) = 0")
      case True
      then have "stream s = header n body @ body @ t"
        using r ok by (auto simp: receiving_def collecting_def body_ok_def Let_def)
      then show ?thesis using False by simp
    next
      case False
      then obtain b where b: "tp_data_num (tp s) < length body" "length b = length body"
        "tp_readidx (tp s) = length (tp_buf (tp s))"
        "take (tp_data_num (tp s)) b @ stream s = body @ t"
        using r by (auto simp: receiving_def collecting_def Let_def)
      then have "tp_data_num (tp s) + length (stream s) = length body + length t"
        by (metis length_append length_take min.absorb2 less_imp_le)
      then have "0 < length (stream s)" using b(1) by linarith
      then show ?thesis using b by (simp add: remainbuf_def)
    qed
    then have "sock_in s \<noteq> []" using length_stream [OF idx] by auto
    then show ?thesis
      using refill_data [OF bok, of 5] False by (fastforce simp: PACKETBUFSIZE_def)
  qed
  then obtain s1 where s1: "read_refill 5 s = (None, s1)" "buf_ok s1" "same_packet s s1"
    "stream s1 = stream s" "remainbuf s \<ge> 5 \<and> s1 = s \<or>
      read_measure s1 < read_measure s \<and> remainbuf s < remainbuf s1" by blast
  have core1: "core s1 = core s" and tp1: "tp_total_num (tp s1) = tp_total_num (tp s)"
    using s1(3) by (auto simp: same_packet_def)
  have plain1: "plain s1" using plain plain_core [OF core1] by simp
  have pos: "0 < remainbuf s1" using s1(5) by auto
  note it = read_iter_def read_setup_plain [OF plain] s1(1) Let_def
  have disc: "socket_st s \<noteq> SOCKET_DISCONNECTED" using plain by (simp add: plain_def)
  show ?thesis
  proof (cases "tp_total_num (tp s) = 0")
    case idle: True
    then have str: "stream s1 = header n body @ body @ t"
      using r ok s1(4) by (auto simp: receiving_def collecting_def body_ok_def Let_def)
    show ?thesis
    proof (cases "remainbuf s1 < 5")
      case True
      then have "read_iter padd v s = (Inl LIBSSH2_ERROR_EAGAIN, block_in s1)"
        using disc idle tp1 by (simp add: it read_header_def rv_etm_def bad_read_def)
      moreover have "receiving n body t (block_in s1)" "read_measure (block_in s1) = read_measure s1"
        using idle tp1 str s1(2)
        by (simp_all add: receiving_def block_in_def buf_ok_def stream_def read_measure_def remainbuf_def)
      ultimately show ?thesis using s1(5) True core1 by auto
    next
      case False
      from read_header_plain [OF plain1 v s1(2) _ ok str] False
      obtain s2 where s2: "read_header 5 ?v (int (remainbuf s1)) s1 = (None, [int (remainbuf s2)], s2)"
        "core s2 = core s1" "sock_in s2 = sock_in s1" "tp_buf (tp s2) = tp_buf (tp s1)"
        "tp_readidx (tp s2) = tp_readidx (tp s1) + 5"
        "tp_payload (tp s2) = Some (replicate (length body) 0)"
        "tp_wptr (tp s2) = 0" "tp_data_num (tp s2) = 0" "tp_total_num (tp s2) = length body"
        "tp_padding_length (tp s2) = n" "tp_packet_length (tp s2) = of_nat (length body + 1)"
        "stream s2 = body @ t" by auto
      have ok2: "buf_ok s2" using s1(2) s2 False by (auto simp: buf_ok_def remainbuf_def)
      have plain2: "plain s2" using plain1 plain_core [OF s2(2)] by simp
      have m2: "read_measure s2 < read_measure s1"
        using s2 False by (simp add: read_measure_def remainbuf_def)
      have str2: "take (tp_data_num (tp s2)) (replicate (length body) 0) @ stream s2 = body @ t"
        using s2 by simp
      have pos2: "tp_data_num (tp s2) < length body" using s2 ok by (simp add: body_ok_def)
      have lr: "length (replicate (length body) (0 :: u8)) = length body"
        "tp_wptr (tp s2) = tp_data_num (tp s2)" using s2 by simp_all
      from read_rest_plain [OF plain2 v ok2 s2(6) lr pos2 s2(9,10,11) str2]
      obtain s3 k where s3: "read_amounts 5 ?v (int (remainbuf s2)) s2 = (None, [int k, 0], ?v, s2)"
        "read_consume ?v (int k) 0 s2 = (None, s3)" "core s3 = core s2"
        "read_measure s3 = read_measure s2 - k"
        "if tp_total_num (tp s3) = tp_data_num (tp s3) then received n body t s3
         else collecting n body t s3 \<and> buf_ok s3"
        by metis
      have m3: "read_measure s3 < read_measure s" using m2 s3(4) s1(5) by auto
      have c3: "core s3 = core s" using s3(3) s2(2) core1 by simp
      have e: "read_iter padd v s = (if tp_total_num (tp s3) = tp_data_num (tp s3)
          then (case read_point1 padd False s3 of (rc, s) \<Rightarrow> (Inl rc, s)) else (Inr ?v, s3))"
        using disc idle tp1 s2(1) s3(1,2) by (simp add: it)
      show ?thesis
      proof (cases "tp_total_num (tp s3) = tp_data_num (tp s3)")
        case True
        then show ?thesis using e s3(5) c3 by auto
      next
        case False
        then show ?thesis using e s3(5) c3 m3 by (auto simp: receiving_def)
      qed
    qed
  next
    case False
    then have col: "collecting n body t s" using r by (simp add: receiving_def)
    then have "remainbuf s = 0" by (simp add: collecting_def remainbuf_def Let_def)
    then have m1: "read_measure s1 < read_measure s" using s1(5) by auto
    obtain b where b: "tp_payload (tp s1) = Some b" "length b = length body"
      "tp_wptr (tp s1) = tp_data_num (tp s1)" "tp_data_num (tp s1) < length body"
      "tp_total_num (tp s1) = length body" "tp_padding_length (tp s1) = n"
      "tp_packet_length (tp s1) = of_nat (length body + 1)"
      "take (tp_data_num (tp s1)) b @ stream s1 = body @ t"
    proof -
      obtain b' i where "tp s1 = (tp s)\<lparr>tp_buf := b', tp_readidx := i\<rparr>"
        using s1(3) by (auto simp: same_packet_def)
      then show thesis using col tp1 s1(4) that by (auto simp: collecting_def Let_def)
    qed
    from read_rest_plain [OF plain1 v s1(2) b(1-7) b(8)]
    obtain s3 k where s3: "read_amounts 5 ?v (int (remainbuf s1)) s1 = (None, [int k, 0], ?v, s1)"
      "read_consume ?v (int k) 0 s1 = (None, s3)" "core s3 = core s1"
      "read_measure s3 = read_measure s1 - k"
      "if tp_total_num (tp s3) = tp_data_num (tp s3) then received n body t s3
       else collecting n body t s3 \<and> buf_ok s3"
      by metis
    have e: "read_iter padd v s = (if tp_total_num (tp s3) = tp_data_num (tp s3)
        then (case read_point1 padd False s3 of (rc, s) \<Rightarrow> (Inl rc, s)) else (Inr ?v, s3))"
      using disc False tp1 s3(1,2) by (simp add: it)
    have c3: "core s3 = core s" using s3(3) core1 by simp
    show ?thesis
    proof (cases "tp_total_num (tp s3) = tp_data_num (tp s3)")
      case True
      then show ?thesis using e s3(5) c3 by auto
    next
      case False
      then show ?thesis using e s3(4,5) c3 m1 by (auto simp: receiving_def)
    qed
  qed
qed

lemma read_loop_plain:
  assumes "plain s" "receiving n body t s" "body_ok n body" "read_measure s < k"
  shows "(\<exists>s'. read_loop padd k v s = (LIBSSH2_ERROR_EAGAIN, s') \<and> receiving n body t s' \<and>
      core s' = core s \<and> read_measure s' < read_measure s) \<or>
    (\<exists>s'. read_loop padd k v s = read_point1 padd False s' \<and> received n body t s' \<and> core s' = core s)"
  using assms
proof (induction k arbitrary: v s)
  case 0
  then show ?case by simp
next
  case (Suc k)
  from read_iter_plain [OF Suc.prems(1-3), of padd v]
  consider s' where "read_iter padd v s = (Inl LIBSSH2_ERROR_EAGAIN, s')" "receiving n body t s'"
      "core s' = core s" "read_measure s' < read_measure s"
    | v' s' where "read_iter padd v s = (Inr v', s')" "receiving n body t s'"
      "core s' = core s" "read_measure s' < read_measure s"
    | s' where "read_iter padd v s = (case read_point1 padd False s' of (rc, s) \<Rightarrow> (Inl rc, s))"
      "received n body t s'" "core s' = core s"
    by blast
  then show ?case
  proof cases
    case 1
    then show ?thesis by auto
  next
    case 2
    have "plain s'" "read_measure s' < k"
      using Suc.prems 2 plain_core [of s' s] by auto
    from Suc.IH [OF this(1) 2(2) Suc.prems(3) this(2), of v'] 2 show ?thesis by auto
  next
    case 3
    then have "read_loop padd (Suc k) v s = read_point1 padd False s'"
      by (simp split: prod.splits)
    with 3 show ?thesis by blast
  qed
qed

text \<open>The caller reads again, up to \<open>k\<close> more times, while the socket would block.\<close>

primrec read_again :: "nat \<Rightarrow> (session \<Rightarrow> rc \<times> session) \<Rightarrow> packet_handler \<Rightarrow> session \<Rightarrow> rc \<times> session" where
  "read_again 0 kx padd s = ssh2_transport_read kx padd s"
| "read_again (Suc k) kx padd s =
     (case ssh2_transport_read kx padd s of (rc, s) \<Rightarrow>
        if rc = LIBSSH2_ERROR_EAGAIN then read_again k kx padd s else (rc, s))"

text \<open>A session in which nothing is half done, neither a packet's handler nor a key exchange.\<close>

definition quiet :: "session \<Rightarrow> bool" where
  "quiet s \<longleftrightarrow> no_redirect s \<and> readPack_state s = NB_idle \<and> fullpacket_state s = NB_idle \<and>
     comp_abstract (remote s) = None"

lemma quiet_core: "core s = core s0 \<Longrightarrow> quiet s = quiet s0"
  using core_eqD [of s s0] by (simp add: quiet_def no_redirect_def has_st_def)

lemma read_once_plain:
  assumes "plain s" "quiet s" "receiving n body t s" "body_ok n body"
  shows "(\<exists>s'. ssh2_transport_read kx padd s = (LIBSSH2_ERROR_EAGAIN, s') \<and> receiving n body t s' \<and>
      core s' = core s \<and> read_measure s' < read_measure s) \<or>
    (\<exists>s'. ssh2_transport_read kx padd s = read_point1 padd False s' \<and> received n body t s' \<and>
      core s' = core s)"
proof -
  let ?s = "s\<lparr>block_directions := block_directions s AND NOT LIBSSH2_SESSION_BLOCK_INBOUND\<rparr>"
  have c: "core ?s = core s" by simp
  have m: "read_measure ?s = read_measure s" by (simp add: read_measure_def remainbuf_def)
  have r: "receiving n body t ?s"
    using assms(3) by (simp add: receiving_def collecting_def buf_ok_def stream_def Let_def)
  have q: "no_redirect ?s" "readPack_state ?s = NB_idle"
    using assms(2) by (simp_all add: quiet_def no_redirect_def has_st_def)
  have "ssh2_transport_read kx padd s = read_loop padd (Suc (read_measure ?s)) read_vars_0 ?s"
    using q by (simp add: ssh2_transport_read_def Let_def del: read_loop.simps)
  with read_loop_plain [OF _ r assms(4), of "Suc (read_measure ?s)" padd read_vars_0]
    plain_core [OF c] assms(1) c m
  show ?thesis by simp
qed

text \<open>Handing a received packet on.\<close>

lemma prepare_plain:
  assumes "received n body t s" "body_ok n body" "quiet s"
  shows "\<exists>s1. fullpacket_prepare False s = (0, s1) \<and> payload_of s1 = body \<and>
    fullpacket_payload_len s1 = length body - unat n \<and> fullpacket_macstate s1 = SSH2_MAC_CONFIRMED \<and>
    fullpacket_state s1 = NB_created \<and> fullpacket_packet_type s1 = chr_at body 0 \<and>
    seqno (remote s1) = seqno (remote s) + 1 \<and> stream s1 = t"
proof -
  have r: "tp_payload (tp s) = Some body" "tp_padding_length (tp s) = n"
    "tp_packet_length (tp s) = of_nat (length body + 1)" "stream s = t"
    using assms(1) by (simp_all add: received_def Let_def)
  have L: "unat (tp_packet_length (tp s) - 1) = length body"
  proof -
    have "tp_packet_length (tp s) - 1 = of_nat (length body)" using r by simp
    then show ?thesis
      using assms(2)
      by (simp only:) (intro unat_of_nat_u32, simp add: body_ok_def LIBSSH2_PACKET_MAXPAYLOAD_def)
  qed
  have mod: "nat ((int (length body) - uint n) mod 2 ^ 64) = length body - unat n"
  proof -
    have "int (length body) - uint n = int (length body - unat n)"
      using assms(2) by (simp add: body_ok_def of_nat_diff)
    moreover have "length body - unat n < 2 ^ 64"
      using assms(2) by (intro le_less_trans [OF diff_le_self])
        (simp add: body_ok_def LIBSSH2_PACKET_MAXPAYLOAD_def)
    then have "int (length body - unat n) < 2 ^ 64"
      by (metis of_nat_less_iff of_nat_power of_nat_numeral)
    ultimately show ?thesis by (simp del: of_nat_diff)
  qed
  have "comp_abstract (remote s) = None" using assms(3) by (simp add: quiet_def)
  with r L mod show ?thesis
    by (simp add: fullpacket_prepare_def fullpacket_auth_def fullpacket_count_def
        fullpacket_decomp_def payload_of_def upd_remote_def stream_def)
qed

lemma point1_plain:
  assumes "received n body t s" "body_ok n body" "quiet s"
    and "\<forall>b l m q s. fst (padd b l m q s) \<noteq> LIBSSH2_ERROR_EAGAIN"
  shows "\<exists>s1 rc s2. padd body (length body - unat n) SSH2_MAC_CONFIRMED (seqno (remote s)) s1 = (rc, s2) \<and>
    stream s1 = t \<and> seqno (remote s1) = seqno (remote s) + 1 \<and>
    fst (read_point1 padd False s) = (if rc \<noteq> 0 then rc else uint (fullpacket_packet_type s2)) \<and>
    fst (read_point1 padd False s) \<noteq> LIBSSH2_ERROR_EAGAIN"
proof -
  obtain s1 where s1: "fullpacket_prepare False s = (0, s1)" "payload_of s1 = body"
    "fullpacket_payload_len s1 = length body - unat n" "fullpacket_macstate s1 = SSH2_MAC_CONFIRMED"
    "fullpacket_state s1 = NB_created" "seqno (remote s1) = seqno (remote s) + 1" "stream s1 = t"
    using prepare_plain [OF assms(1-3)] by auto
  obtain rc s2 where p: "padd body (length body - unat n) SSH2_MAC_CONFIRMED (seqno (remote s)) s1 = (rc, s2)"
    by (metis surj_pair)
  have ne: "rc \<noteq> LIBSSH2_ERROR_EAGAIN" using assms(4) p by (metis fst_conv)
  moreover have "fullpacket_state s = NB_idle" using assms(3) by (simp add: quiet_def)
  ultimately have "fst (read_point1 padd False s) =
      (if rc \<noteq> 0 then rc else uint (fullpacket_packet_type s2))"
    using s1 p
    by (auto simp: read_point1_def transport_fullpacket_def fullpacket_deliver_def Let_def
        free_payload_def upd_tp_def upd_remote_def)
  moreover have "uint (fullpacket_packet_type s2) \<noteq> - 37"
    using uint_nonnegative [of "fullpacket_packet_type s2"] by linarith
  ultimately show ?thesis using p s1 ne by (intro exI [of _ s1] exI [of _ rc] exI [of _ s2]) auto
qed

text \<open>
  C6. Before encryption, a packet of RFC 4253 arrives at the packet handler as it was sent, in
  whatever pieces the socket delivers it and however often the reader has to be called again: the
  handler is called with a block that starts with the payload, with the payload's length without
  the padding, as confirmed and with the packet's sequence number; the bytes behind the packet are
  left for the next one.
\<close>

theorem read_delivers_plain:
  assumes "plain s" "quiet s" "buf_ok s" "tp_total_num (tp s) = 0"
    and "stream s = f @ t" "is_packet 8 payload f" "length payload < 34000"
    and "\<forall>b l m q s. fst (padd b l m q s) \<noteq> LIBSSH2_ERROR_EAGAIN"
  shows "\<exists>s1 block rc s2. padd block (length payload) SSH2_MAC_CONFIRMED (seqno (remote s)) s1 = (rc, s2) \<and>
    take (length payload) block = payload \<and> stream s1 = t \<and>
    seqno (remote s1) = seqno (remote s) + 1 \<and>
    fst (read_again (read_measure s) kx padd s) =
      (if rc \<noteq> 0 then rc else uint (fullpacket_packet_type s2))"
proof -
  obtain junk n where n: "4 \<le> n" "n < 256" "length junk = n"
    "f = ssh2_htonu32 (of_nat (length payload + 1 + n)) @ [of_nat n] @ payload @ junk"
    using assms(6) by (auto simp: is_packet_def)
  let ?n = "of_nat n :: u8" and ?body = "payload @ junk"
  have un: "unat ?n = n" using n by (simp add: unat_of_nat take_bit_nat_eq_self)
  have ok: "body_ok ?n ?body"
    using n un assms(7) by (simp add: body_ok_def LIBSSH2_PACKET_MAXPAYLOAD_def)
  have str: "stream s = header ?n ?body @ ?body @ t"
    using assms(5) n by (simp add: header_def add.commute add.left_commute)
  have rec: "receiving ?n ?body t s" using str assms(3,4) by (simp add: receiving_def)
  have "\<exists>s'. fst (read_again k kx padd s) = fst (read_point1 padd False s') \<and>
      received ?n ?body t s' \<and> core s' = core s"
    if "read_measure s \<le> k" "plain s" "quiet s" "receiving ?n ?body t s" for k and s :: session
    using that
  proof (induction k arbitrary: s)
    case 0
    then show ?case
      using read_once_plain [OF 0(2,3,4) ok, of kx padd] by auto
  next
    case (Suc k)
    from read_once_plain [OF Suc.prems(2,3,4) ok, of kx padd]
    consider s' where "ssh2_transport_read kx padd s = (LIBSSH2_ERROR_EAGAIN, s')"
        "receiving ?n ?body t s'" "core s' = core s" "read_measure s' < read_measure s"
      | s' where "ssh2_transport_read kx padd s = read_point1 padd False s'" "received ?n ?body t s'"
        "core s' = core s" by blast
    then show ?case
    proof cases
      case 1
      then show ?thesis
        using Suc.IH [of s'] Suc.prems plain_core [OF 1(3)] quiet_core [OF 1(3)] by auto
    next
      case 2
      have q: "quiet s'" using Suc.prems quiet_core [OF 2(3)] by simp
      have "fst (read_point1 padd False s') \<noteq> LIBSSH2_ERROR_EAGAIN"
        using point1_plain [OF 2(2) ok q assms(8)] by blast
      then have "read_again (Suc k) kx padd s = read_point1 padd False s'"
        using 2(1) by (cases "read_point1 padd False s'") simp
      then show ?thesis using 2 by auto
    qed
  qed
  then obtain s' where s': "fst (read_again (read_measure s) kx padd s) = fst (read_point1 padd False s')"
    "received ?n ?body t s'" "core s' = core s"
    using assms(1,2) rec by blast
  have q: "quiet s'" using assms(2) quiet_core [OF s'(3)] by simp
  have "remote s' = remote s" using core_eqD [OF s'(3)] by simp
  moreover obtain s1 rc s2 where
    "padd ?body (length ?body - unat ?n) SSH2_MAC_CONFIRMED (seqno (remote s')) s1 = (rc, s2)"
    "stream s1 = t" "seqno (remote s1) = seqno (remote s') + 1"
    "fst (read_point1 padd False s') = (if rc \<noteq> 0 then rc else uint (fullpacket_packet_type s2))"
    using point1_plain [OF s'(2) ok q assms(8)] by blast
  moreover have "length ?body - unat ?n = length payload" "take (length payload) ?body = payload"
    using un n(3) by simp_all
  ultimately show ?thesis
    using s'(1) by (intro exI [of _ s1] exI [of _ ?body] exI [of _ rc] exI [of _ s2]) simp
qed

text \<open>A packet with the payload \<open>05\<close> that arrives in two pieces, the first one three bytes long.\<close>

definition two_pieces :: session where
  "two_pieces = libssh2_session_init_ex\<lparr>sock_in := [Recv_bytes [0, 0, 0],
     Recv_bytes [12, 10, 5, 0, 0, 0, 0, 0, 0, 0, 0, 0, 0, 77]]\<rparr>"

definition expect_5 :: packet_handler where
  "expect_5 b l m q s =
     (if l = 1 \<and> hd b = 5 \<and> m = 0 \<and> q = 0 then 0 else 1, s\<lparr>fullpacket_packet_type := hd b\<rparr>)"

theorem read_delivers_plain_witness:
  "fst (read_again (read_measure two_pieces) (\<lambda>s. (0, s)) expect_5 two_pieces) = 5"
proof -
  let ?f = "[0, 0, 0, 12, 10, 5, 0, 0, 0, 0, 0, 0, 0, 0, 0, 0] :: bytes"
  have s: "plain two_pieces" "quiet two_pieces" "buf_ok two_pieces" "tp_total_num (tp two_pieces) = 0"
    "stream two_pieces = ?f @ [77]" "seqno (remote two_pieces) = 0"
    by (simp_all add: two_pieces_def plain_def quiet_def no_redirect_def buf_ok_def stream_def has_st_def
        state_bits session_init_defs  PACKETBUFSIZE_def)
  have p: "is_packet 8 [5] ?f"
    unfolding is_packet_def
    by (intro exI [of _ "replicate 10 0"] exI [of _ 10]) (simp add: ssh2_htonu32_def, code_simp)
  have h: "\<forall>b l m q s. fst (expect_5 b l m q s) \<noteq> LIBSSH2_ERROR_EAGAIN" by (simp add: expect_5_def)
  have l: "length [5 :: u8] < 34000" by simp
  obtain s1 block rc s2 where
    "expect_5 block (length [5 :: u8]) SSH2_MAC_CONFIRMED (seqno (remote two_pieces)) s1 = (rc, s2)"
    "take (length [5 :: u8]) block = [5]"
    "fst (read_again (read_measure two_pieces) (\<lambda>s. (0, s)) expect_5 two_pieces) =
      (if rc \<noteq> 0 then rc else uint (fullpacket_packet_type s2))"
    using read_delivers_plain [OF s(1-5) p l h, of "\<lambda>s. (0, s)"] by blast
  moreover from this(2) have "hd block = 5" by (cases block) auto
  ultimately show ?thesis using s(6) by (auto simp: expect_5_def)
qed

subsection \<open>Authentication\<close>

lemma timingsafe_0_iff:
  "n \<le> length a \<Longrightarrow> n \<le> length b \<Longrightarrow> ssh2_timingsafe_bcmp a b n = 0 \<longleftrightarrow> take n a = take n b"
  using timingsafe_bcmp_loop_0 [of n a b 0] by (simp add: ssh2_timingsafe_bcmp_def)

lemma etm_decrypt_keeps_macstate:
  "fullpacket_etm_decrypt rm s = (rc, s') \<Longrightarrow> fullpacket_macstate s' = fullpacket_macstate s"
  by (auto simp: fullpacket_etm_decrypt_def transport_decrypt_def ssh2_alloc_def free_payload_def
      upd_defs c_assert_def set_fault_def Let_def split: if_splits prod.splits option.splits list.splits)

lemma decomp_keeps_macstate:
  "fullpacket_decomp s = (rc, s') \<Longrightarrow> fullpacket_macstate s' = fullpacket_macstate s"
  by (auto simp: fullpacket_decomp_def free_payload_def upd_defs set_fault_def Let_def
      split: if_splits prod.splits option.splits)

text \<open>The MAC computed over a received packet, for both orders of encryption and MAC.\<close>

definition expected_mac :: "mac_method \<Rightarrow> session \<Rightarrow> bytes" where
  "expected_mac rm s =
     fst (snd (if mm_etm rm
       then mm_hash rm (seqno (remote s))
              (take (tp_total_num (tp s) - mm_mac_len rm) (payload_of s)) [] (mac_abstract (remote s))
       else mm_hash rm (seqno (remote s)) (tp_init (tp s))
              (take (unat (tp_packet_length (tp s) - 1)) (payload_of s)) (mac_abstract (remote s))))"

lemma fullpacket_mac_confirmed:
  assumes "fullpacket_mac rm s = (rc, s')" "fullpacket_macstate s' = SSH2_MAC_CONFIRMED"
    and "fullpacket_payload_len s = unat (tp_packet_length (tp s) - 1)"
    and "mm_mac_len rm \<le> 64" "length (payload_of s) = tp_total_num (tp s)"
      "mm_mac_len rm \<le> tp_total_num (tp s)"
  shows "take (mm_mac_len rm) (pad_to 64 (expected_mac rm s)) =
    slice (tp_total_num (tp s) - mm_mac_len rm) (mm_mac_len rm) (payload_of s)"
proof -
  let ?d = "drop (tp_total_num (tp s) - mm_mac_len rm) (payload_of s)"
  have "ssh2_timingsafe_bcmp (pad_to 64 (expected_mac rm s)) ?d (mm_mac_len rm) = 0"
  proof (rule ccontr)
    assume "\<not> ?thesis"
    then show False
      using assms(1-3)
      by (auto simp: fullpacket_mac_def expected_mac_def c_assert_def set_fault_def upd_remote_def
          payload_of_def Let_def split: if_splits prod.splits)
  qed
  then have "take (mm_mac_len rm) (pad_to 64 (expected_mac rm s)) = take (mm_mac_len rm) ?d"
    using assms(4-6) by (subst (asm) timingsafe_0_iff) simp_all
  then show ?thesis by (simp add: slice_def)
qed


text \<open>A MAC of two bytes, the first and the last byte of the packet.\<close>

definition toy_mac :: mac_method where
  "toy_mac = \<lparr>mm_name = [], mm_mac_len = 2, mm_key_len = 0, mm_init = (\<lambda>key a. key), mm_dtor = (\<lambda>a. []), mm_etm = False,
     mm_hash = (\<lambda>n p q a. (0, [hd p, last q], a))\<rparr>"

definition mac_session :: session where
  "mac_session = bare_session\<lparr>remote := endpoint_0\<lparr>mac := Some toy_mac\<rparr>,
     tp := (transportpacket_of [])\<lparr>tp_init := [9, 0, 0, 0, 1], tp_packet_length := 4,
       tp_padding_length := 1, tp_total_num := 5, tp_data_num := 5,
       tp_payload := Some [80, 81, 82, 9, 82]\<rparr>\<rparr>"


subsection \<open>Lengths that wrap\<close>



subsection \<open>A packet too short for a cipher with its own MAC\<close>

text \<open>
  AES-GCM as \<open>crypt.c\<close> describes it: blocks of 16 bytes, an integrated MAC, the length not encrypted.
  The cipher itself is irrelevant here.
\<close>

definition gcm_like :: crypt_method where
  "gcm_like = \<lparr>cm_name = str ''aes256-gcm@openssh.com'', cm_blocksize = 16, cm_auth_len = 0,
     cm_flags = SSH2_CRYPT_FLAG_INTEGRATED_MAC OR SSH2_CRYPT_FLAG_PKTLEN_AAD, cm_get_len = None,
     cm_crypt = (\<lambda>q mem n fl a. (0, mem, a)), cm_iv_len = 12, cm_secret_len = 32,
     cm_init = (\<lambda>iv secret enc pk ok a. (0, []))\<rparr>"

definition gcm_mac :: mac_method where
  "gcm_mac = \<lparr>mm_name = str ''INTEGRATED-AES-GCM'', mm_mac_len = 16, mm_key_len = 16, mm_init = (\<lambda>key a. a), mm_dtor = (\<lambda>a. a), mm_etm = False,
     mm_hash = (\<lambda>n p q a. (0, [], a))\<rparr>"

text \<open>The first 16 bytes of a packet whose length field, in the clear, says 4.\<close>

definition gcm_short :: session where
  "gcm_short = bare_session\<lparr>st := SSH2_STATE_NEWKEYS,
     remote := endpoint_0\<lparr>crypt := Some gcm_like, mac := Some gcm_mac\<rparr>,
     sock_in := [Recv_bytes [0, 0, 0, 4, 0, 0, 0, 0, 0, 0, 0, 0, 0, 0, 0, 0]]\<rparr>"

lemma read_first_block_decrypted:
  assumes "\<not> rv_etm v" "rv_encrypted v" "crypt (remote s) = Some m" "cm_get_len m = None"
    and "transport_decrypt (tp_buf (tp s)) (tp_readidx (tp s)) blocksize FIRST_BLOCK s = (0, b, src, s')"
  shows "read_first_block blocksize v s = (None, b, upd_tp (\<lambda>p. p\<lparr>tp_buf := src, tp_init := take 5 b,
    tp_readidx := tp_readidx p + blocksize, tp_packet_length := ssh2_ntohu32 b\<rparr>) s')"
  using assms by (simp add: read_first_block_def upd_tp_def)


lemma decomp_looks_at_local_comp: "comp (local s) = None \<Longrightarrow> fullpacket_decomp s = (0, s)"
  by (simp add: fullpacket_decomp_def comp_active_def)

end
