(* ===== verification/Chacha.thy ===== *)
theory Chacha
  imports Wire
begin

text \<open>
  The stream cipher of \<open>chacha.c\<close>, the authenticator of \<open>poly1305.c\<close> and their combination in
  \<open>cipher-chachapoly.c\<close>.  The arithmetic keeps the widths of the C code: 32-bit words for the state and
  the limbs, 64-bit words for the products.
\<close>

unbundle bit_operations_syntax

subsection \<open>\<open>chacha.c\<close>\<close>

text \<open>The context is the array \<open>input\<close> of sixteen words.\<close>

type_synonym chacha_ctx = "u32 list"

definition U8TO32_LITTLE :: "bytes \<Rightarrow> nat \<Rightarrow> u32" where
  "U8TO32_LITTLE p i =
     ucast (p ! i) OR push_bit 8 (ucast (p ! (i + 1))) OR
     push_bit 16 (ucast (p ! (i + 2))) OR push_bit 24 (ucast (p ! (i + 3)))"

definition U32TO8_LITTLE :: "u32 \<Rightarrow> bytes" where
  "U32TO8_LITTLE v = [ucast v, ucast (drop_bit 8 v), ucast (drop_bit 16 v), ucast (drop_bit 24 v)]"

definition ROTL32 :: "u32 \<Rightarrow> nat \<Rightarrow> u32" where
  "ROTL32 v n = push_bit n v OR drop_bit (32 - n) v"

definition QUARTERROUND :: "nat \<Rightarrow> nat \<Rightarrow> nat \<Rightarrow> nat \<Rightarrow> u32 list \<Rightarrow> u32 list" where
  "QUARTERROUND a b c d x =
     (let x = x[a := x ! a + x ! b]; x = x[d := ROTL32 (x ! d XOR x ! a) 16];
          x = x[c := x ! c + x ! d]; x = x[b := ROTL32 (x ! b XOR x ! c) 12];
          x = x[a := x ! a + x ! b]; x = x[d := ROTL32 (x ! d XOR x ! a) 8];
          x = x[c := x ! c + x ! d]
      in x[b := ROTL32 (x ! b XOR x ! c) 7])"

definition sigma :: bytes where "sigma = str ''expand 32-byte k''"
definition tau :: bytes where "tau = str ''expand 16-byte k''"

definition chacha_keysetup :: "bytes \<Rightarrow> nat \<Rightarrow> chacha_ctx \<Rightarrow> chacha_ctx" where
  "chacha_keysetup k kbits x =
     (let x = x[4 := U8TO32_LITTLE k 0, 5 := U8TO32_LITTLE k 4, 6 := U8TO32_LITTLE k 8,
                7 := U8TO32_LITTLE k 12];
          (k, constants) = (if kbits = 256 then (drop 16 k, sigma) else (k, tau))
      in x[8 := U8TO32_LITTLE k 0, 9 := U8TO32_LITTLE k 4, 10 := U8TO32_LITTLE k 8,
           11 := U8TO32_LITTLE k 12, 0 := U8TO32_LITTLE constants 0, 1 := U8TO32_LITTLE constants 4,
           2 := U8TO32_LITTLE constants 8, 3 := U8TO32_LITTLE constants 12])"

definition chacha_ivsetup :: "bytes \<Rightarrow> bytes option \<Rightarrow> chacha_ctx \<Rightarrow> chacha_ctx" where
  "chacha_ivsetup iv counter x =
     x[12 := (case counter of Some c \<Rightarrow> U8TO32_LITTLE c 0 | None \<Rightarrow> 0),
       13 := (case counter of Some c \<Rightarrow> U8TO32_LITTLE c 4 | None \<Rightarrow> 0),
       14 := U8TO32_LITTLE iv 0, 15 := U8TO32_LITTLE iv 4]"

text \<open>The twenty rounds, two per iteration.\<close>

definition double_round :: "u32 list \<Rightarrow> u32 list" where
  "double_round x =
     (let x = QUARTERROUND 0 4 8 12 x; x = QUARTERROUND 1 5 9 13 x;
          x = QUARTERROUND 2 6 10 14 x; x = QUARTERROUND 3 7 11 15 x;
          x = QUARTERROUND 0 5 10 15 x; x = QUARTERROUND 1 6 11 12 x;
          x = QUARTERROUND 2 7 8 13 x
      in QUARTERROUND 3 4 9 14 x)"

fun chacha_rounds :: "nat \<Rightarrow> u32 list \<Rightarrow> u32 list" where
  "chacha_rounds i x = (if i > 0 then chacha_rounds (i - 2) (double_round x) else x)"

declare chacha_rounds.simps [simp del]

text \<open>One block: the input words added, the message words mixed in, the result written out.\<close>

definition chacha_block :: "u32 list \<Rightarrow> bytes \<Rightarrow> bytes" where
  "chacha_block j m =
     (let x = map2 (+) (chacha_rounds 20 j) j;
          x = map (\<lambda>i. x ! i XOR U8TO32_LITTLE m (4 * i)) [0..<16]
      in concat (map U32TO8_LITTLE x))"

definition chacha_next :: "u32 list \<Rightarrow> u32 list" where
  "chacha_next j =
     (let j = j[12 := j ! 12 + 1] in if j ! 12 = 0 then j[13 := j ! 13 + 1] else j)"

text \<open>
  The loop over the blocks.  A last block of fewer than 64 bytes goes through \<open>tmp\<close>, whose tail is
  never copied out (here it is zero).
\<close>

function chacha_loop :: "u32 list \<Rightarrow> bytes \<Rightarrow> bytes \<times> u32 list" where
  "chacha_loop j m =
     (if length m \<le> 64
      then (take (length m) (chacha_block j (m @ replicate (64 - length m) 0)), chacha_next j)
      else
        let (c, j') = chacha_loop (chacha_next j) (drop 64 m)
        in (chacha_block j (take 64 m) @ c, j'))"
  by pat_completeness auto
termination by (relation "measure (\<lambda>(j, m). length m)") auto

declare chacha_loop.simps [simp del]

definition chacha_encrypt_bytes :: "chacha_ctx \<Rightarrow> bytes \<Rightarrow> bytes \<times> chacha_ctx" where
  "chacha_encrypt_bytes x m =
     (if m = [] then ([], x)
      else let (c, j) = chacha_loop x m in (c, x[12 := j ! 12, 13 := j ! 13]))"

subsection \<open>\<open>poly1305.c\<close>\<close>

text \<open>Five limbs of 26 bits.\<close>

record limbs =
  l0 :: u32
  l1 :: u32
  l2 :: u32
  l3 :: u32
  l4 :: u32

definition mul32x32_64 :: "u32 \<Rightarrow> u32 \<Rightarrow> u64" where
  "mul32x32_64 a b = ucast a * ucast b"

definition poly_clamp :: "bytes \<Rightarrow> limbs" where
  "poly_clamp key =
     (let t0 = U8TO32_LITTLE key 0; t1 = U8TO32_LITTLE key 4;
          t2 = U8TO32_LITTLE key 8; t3 = U8TO32_LITTLE key 12;
          r0 = t0 AND 0x3ffffff; t0 = drop_bit 26 t0 OR push_bit 6 t1;
          r1 = t0 AND 0x3ffff03; t1 = drop_bit 20 t1 OR push_bit 12 t2;
          r2 = t1 AND 0x3ffc0ff; t2 = drop_bit 14 t2 OR push_bit 18 t3;
          r3 = t2 AND 0x3f03fff; t3 = drop_bit 8 t3;
          r4 = t3 AND 0x00fffff
      in \<lparr>l0 = r0, l1 = r1, l2 = r2, l3 = r3, l4 = r4\<rparr>)"

text \<open>Adding sixteen bytes to the accumulator; \<open>hibit\<close> is \<open>1 << 24\<close> for a full block and 0 for the last.\<close>

definition limb_at :: "u32 \<Rightarrow> u32 \<Rightarrow> nat \<Rightarrow> u32" where
  "limb_at hi lo n = ucast (drop_bit n (push_bit 32 (ucast hi) OR ucast lo :: u64)) AND 0x3ffffff"

definition poly_add :: "u32 \<Rightarrow> bytes \<Rightarrow> limbs \<Rightarrow> limbs" where
  "poly_add hibit m h =
     (let t0 = U8TO32_LITTLE m 0; t1 = U8TO32_LITTLE m 4;
          t2 = U8TO32_LITTLE m 8; t3 = U8TO32_LITTLE m 12
      in \<lparr>l0 = l0 h + (t0 AND 0x3ffffff), l1 = l1 h + limb_at t1 t0 26,
          l2 = l2 h + limb_at t2 t1 20, l3 = l3 h + limb_at t3 t2 14,
          l4 = l4 h + (drop_bit 8 t3 OR hibit)\<rparr>)"

text \<open>The products of one column, and the carries from column to column.\<close>

definition poly_mul :: "limbs \<Rightarrow> limbs \<Rightarrow> limbs" where
  "poly_mul r h =
     (let s1 = l1 r * 5; s2 = l2 r * 5; s3 = l3 r * 5; s4 = l4 r * 5;
          t0 = mul32x32_64 (l0 h) (l0 r) + mul32x32_64 (l1 h) s4 + mul32x32_64 (l2 h) s3 +
               mul32x32_64 (l3 h) s2 + mul32x32_64 (l4 h) s1;
          t1 = mul32x32_64 (l0 h) (l1 r) + mul32x32_64 (l1 h) (l0 r) + mul32x32_64 (l2 h) s4 +
               mul32x32_64 (l3 h) s3 + mul32x32_64 (l4 h) s2;
          t2 = mul32x32_64 (l0 h) (l2 r) + mul32x32_64 (l1 h) (l1 r) + mul32x32_64 (l2 h) (l0 r) +
               mul32x32_64 (l3 h) s4 + mul32x32_64 (l4 h) s3;
          t3 = mul32x32_64 (l0 h) (l3 r) + mul32x32_64 (l1 h) (l2 r) + mul32x32_64 (l2 h) (l1 r) +
               mul32x32_64 (l3 h) (l0 r) + mul32x32_64 (l4 h) s4;
          t4 = mul32x32_64 (l0 h) (l4 r) + mul32x32_64 (l1 h) (l3 r) + mul32x32_64 (l2 h) (l2 r) +
               mul32x32_64 (l3 h) (l1 r) + mul32x32_64 (l4 h) (l0 r);
          h0 = ucast t0 AND 0x3ffffff; c = drop_bit 26 t0;
          t1 = t1 + c;
          h1 = ucast t1 AND 0x3ffffff; b = ucast (drop_bit 26 t1) :: u32;
          t2 = t2 + ucast b;
          h2 = ucast t2 AND 0x3ffffff; b = ucast (drop_bit 26 t2) :: u32;
          t3 = t3 + ucast b;
          h3 = ucast t3 AND 0x3ffffff; b = ucast (drop_bit 26 t3) :: u32;
          t4 = t4 + ucast b;
          h4 = ucast t4 AND 0x3ffffff; b = ucast (drop_bit 26 t4) :: u32;
          h0 = h0 + b * 5
      in \<lparr>l0 = h0, l1 = h1, l2 = h2, l3 = h3, l4 = h4\<rparr>)"

text \<open>The blocks of the message: sixteen bytes each, then what is left with a 1 behind it.\<close>

function poly_blocks :: "limbs \<Rightarrow> bytes \<Rightarrow> limbs \<Rightarrow> limbs" where
  "poly_blocks r m h =
     (if length m \<ge> 16 then poly_blocks r (drop 16 m) (poly_mul r (poly_add (push_bit 24 1) (take 16 m) h))
      else if m = [] then h
      else poly_mul r (poly_add 0 (m @ [1] @ replicate (15 - length m) 0) h))"
  by pat_completeness auto
termination by (relation "measure (\<lambda>(r, m, h). length m)") auto

declare poly_blocks.simps [simp del]

definition poly_carry :: "limbs \<Rightarrow> limbs" where
  "poly_carry h =
     (let b = drop_bit 26 (l0 h); h0 = l0 h AND 0x3ffffff;
          h1 = l1 h + b; b = drop_bit 26 h1; h1 = h1 AND 0x3ffffff;
          h2 = l2 h + b; b = drop_bit 26 h2; h2 = h2 AND 0x3ffffff;
          h3 = l3 h + b; b = drop_bit 26 h3; h3 = h3 AND 0x3ffffff;
          h4 = l4 h + b; b = drop_bit 26 h4; h4 = h4 AND 0x3ffffff;
          h0 = h0 + b * 5; b = drop_bit 26 h0; h0 = h0 AND 0x3ffffff;
          h1 = h1 + b
      in \<lparr>l0 = h0, l1 = h1, l2 = h2, l3 = h3, l4 = h4\<rparr>)"

text \<open>Subtracting the prime when the accumulator is not below it, without a branch.\<close>

definition poly_select :: "limbs \<Rightarrow> limbs" where
  "poly_select h =
     (let g0 = l0 h + 5; b = drop_bit 26 g0; g0 = g0 AND 0x3ffffff;
          g1 = l1 h + b; b = drop_bit 26 g1; g1 = g1 AND 0x3ffffff;
          g2 = l2 h + b; b = drop_bit 26 g2; g2 = g2 AND 0x3ffffff;
          g3 = l3 h + b; b = drop_bit 26 g3; g3 = g3 AND 0x3ffffff;
          g4 = l4 h + b - push_bit 26 1;
          b = drop_bit 31 g4 - 1; nb = NOT b
      in \<lparr>l0 = (l0 h AND nb) OR (g0 AND b), l1 = (l1 h AND nb) OR (g1 AND b),
          l2 = (l2 h AND nb) OR (g2 AND b), l3 = (l3 h AND nb) OR (g3 AND b),
          l4 = (l4 h AND nb) OR (g4 AND b)\<rparr>)"

definition poly_tag :: "bytes \<Rightarrow> limbs \<Rightarrow> bytes" where
  "poly_tag key h =
     (let f0 = ucast (l0 h OR push_bit 26 (l1 h)) + ucast (U8TO32_LITTLE key 16) :: u64;
          f1 = ucast (drop_bit 6 (l1 h) OR push_bit 20 (l2 h)) + ucast (U8TO32_LITTLE key 20) :: u64;
          f2 = ucast (drop_bit 12 (l2 h) OR push_bit 14 (l3 h)) + ucast (U8TO32_LITTLE key 24) :: u64;
          f3 = ucast (drop_bit 18 (l3 h) OR push_bit 8 (l4 h)) + ucast (U8TO32_LITTLE key 28) :: u64;
          f1 = f1 + drop_bit 32 f0;
          f2 = f2 + drop_bit 32 f1;
          f3 = f3 + drop_bit 32 f2
      in U32TO8_LITTLE (ucast f0) @ U32TO8_LITTLE (ucast f1) @
         U32TO8_LITTLE (ucast f2) @ U32TO8_LITTLE (ucast f3))"

definition poly1305_auth :: "bytes \<Rightarrow> bytes \<Rightarrow> bytes" where
  "poly1305_auth m key =
     poly_tag key (poly_select (poly_carry
       (poly_blocks (poly_clamp key) m \<lparr>l0 = 0, l1 = 0, l2 = 0, l3 = 0, l4 = 0\<rparr>)))"

subsection \<open>\<open>cipher-chachapoly.c\<close>\<close>

record chachapoly_ctx =
  main_ctx :: chacha_ctx
  header_ctx :: chacha_ctx

fun chachapoly_bcmp_loop :: "int \<Rightarrow> bytes \<Rightarrow> bytes \<Rightarrow> nat \<Rightarrow> int" where
  "chachapoly_bcmp_loop ret p1 p2 0 = ret"
| "chachapoly_bcmp_loop ret p1 p2 (Suc n) =
     chachapoly_bcmp_loop (ret OR (uint (hd p1) XOR uint (hd p2))) (tl p1) (tl p2) n"

definition chachapoly_timingsafe_bcmp :: "bytes \<Rightarrow> bytes \<Rightarrow> nat \<Rightarrow> bool" where
  "chachapoly_timingsafe_bcmp p1 p2 n \<longleftrightarrow> chachapoly_bcmp_loop 0 p1 p2 n \<noteq> 0"

definition chachapoly_init :: "bytes \<Rightarrow> nat \<Rightarrow> chachapoly_ctx \<Rightarrow> rc \<times> chachapoly_ctx" where
  "chachapoly_init key keylen ctx =
     (if keylen \<noteq> 32 + 32 then (LIBSSH2_ERROR_INVAL, ctx)
      else (0, ctx\<lparr>main_ctx := chacha_keysetup key 256 (main_ctx ctx),
                   header_ctx := chacha_keysetup (drop 32 key) 256 (header_ctx ctx)\<rparr>))"

definition poly_key_of :: "bytes \<Rightarrow> chacha_ctx \<Rightarrow> bytes \<times> chacha_ctx" where
  "poly_key_of seqbuf x = chacha_encrypt_bytes (chacha_ivsetup seqbuf None x) (replicate 32 0)"

text \<open>
  \<open>src\<close> and \<open>dest\<close> are the same block in every call of \<open>crypt.c\<close>: \<open>buf\<close> is that block, and the result is
  what it holds afterwards.
\<close>

definition chachapoly_crypt :: "u64 \<Rightarrow> bytes \<Rightarrow> nat \<Rightarrow> nat \<Rightarrow> bool \<Rightarrow> chachapoly_ctx \<Rightarrow>
    rc \<times> bytes \<times> chachapoly_ctx" where
  "chachapoly_crypt seqnr buf len aadlen do_encrypt ctx =
     (let seqbuf = ssh2_store_u64 [] seqnr;
          (poly_key, mc) = poly_key_of seqbuf (main_ctx ctx);
          ctx = ctx\<lparr>main_ctx := mc\<rparr>;
          tag = slice (aadlen + len) 16 buf;
          expected_tag = poly1305_auth (take (aadlen + len) buf) poly_key
      in if \<not> do_encrypt \<and> chachapoly_timingsafe_bcmp expected_tag tag 16
         then (LIBSSH2_ERROR_DECRYPT, buf, ctx)
         else
           let (aad, hc) = (if aadlen \<noteq> 0
                 then chacha_encrypt_bytes (chacha_ivsetup seqbuf None (header_ctx ctx)) (take aadlen buf)
                 else ([], header_ctx ctx));
               (body, mc) = chacha_encrypt_bytes
                 (chacha_ivsetup seqbuf (Some [1, 0, 0, 0, 0, 0, 0, 0]) (main_ctx ctx))
                 (slice aadlen len buf);
               dest = aad @ body;
               tail = (if do_encrypt then poly1305_auth dest poly_key @ drop (aadlen + len + 16) buf
                       else drop (aadlen + len) buf)
           in (LIBSSH2_ERROR_NONE, dest @ tail, ctx\<lparr>main_ctx := mc, header_ctx := hc\<rparr>))"

definition chachapoly_get_length :: "u64 \<Rightarrow> bytes \<Rightarrow> nat \<Rightarrow> chachapoly_ctx \<Rightarrow>
    rc \<times> u32 \<times> chachapoly_ctx" where
  "chachapoly_get_length seqnr cp len ctx =
     (if len < 4 then (- 1, 0, ctx)
      else
        let seqbuf = ssh2_store_u64 [] seqnr;
            (buf, hc) = chacha_encrypt_bytes (chacha_ivsetup seqbuf None (header_ctx ctx)) (take 4 cp)
        in (0, ssh2_ntohu32 buf, ctx\<lparr>header_ctx := hc\<rparr>))"

end
