(* ===== verification/Methods.thy ===== *)
theory Methods
  imports Session Chacha
begin

text \<open>
  The method tables: key exchange (\<open>kex.c\<close>), host keys (\<open>hostkey.c\<close>), ciphers (\<open>crypt.c\<close>), MACs (\<open>mac.c\<close>)
  and compression (\<open>comp.c\<close>), each in the order of preference the code gives it.  Which entries are
  compiled in is the \<open>build\<close>, a record of the preprocessor conditions; the primitives of the crypto
  library and of zlib, which are not part of the sources modelled, are its functions.
\<close>

unbundle bit_operations_syntax

record build =
  b_mlkem :: bool
  b_ed25519 :: bool
  b_ecdsa :: bool
  b_kex_sha1 :: bool
  b_rsa :: bool
  b_rsa_sha1 :: bool
  b_rsa_sha2 :: bool
  b_dsa :: bool
  b_aes_gcm :: bool
  b_aes_ctr :: bool
  b_aes_cbc :: bool
  b_blowfish :: bool
  b_rc4 :: bool
  b_cast :: bool
  b_3des :: bool
  b_sha256 :: bool
  b_sha512 :: bool
  b_sha1 :: bool
  b_md5 :: bool
  b_ripemd :: bool
  b_have_zlib :: bool
  b_hmac :: "string \<Rightarrow> bytes \<Rightarrow> bytes \<Rightarrow> bytes option"
  b_cipher :: "string \<Rightarrow> bytes \<Rightarrow> nat \<Rightarrow> int \<Rightarrow> abstr \<Rightarrow> rc \<times> bytes \<times> abstr"
  b_deflate :: "abstr \<Rightarrow> bytes \<Rightarrow> nat \<Rightarrow> int \<times> bytes \<times> abstr"
  b_inflate :: "abstr \<Rightarrow> bytes \<Rightarrow> nat \<Rightarrow> int \<times> bytes \<times> bytes \<times> abstr"
  b_cipher_init :: "string \<Rightarrow> bytes \<Rightarrow> bytes \<Rightarrow> bool \<Rightarrow> abstr option"
  b_zlib_init :: "bool \<Rightarrow> abstr option"

text \<open>Entries under a preprocessor condition.\<close>

definition only_if :: "bool \<Rightarrow> 'a list \<Rightarrow> 'a list" where
  "only_if b xs = (if b then xs else [])"

subsection \<open>Key exchange methods\<close>

definition KEX_METHOD_FLAG_REQ_ENC_HOSTKEY :: u32 where "KEX_METHOD_FLAG_REQ_ENC_HOSTKEY = 1"
definition KEX_METHOD_FLAG_REQ_SIGN_HOSTKEY :: u32 where "KEX_METHOD_FLAG_REQ_SIGN_HOSTKEY = 2"

text \<open>The methods that exchange keys all have both functions and need a host key that signs.\<close>

definition kex_entry :: "string \<Rightarrow> kex_method" where
  "kex_entry n = \<lparr>km_name = str n, km_exchange_keys = True, km_cleanup = True,
     km_flags = KEX_METHOD_FLAG_REQ_SIGN_HOSTKEY\<rparr>"

definition kex_marker :: "string \<Rightarrow> kex_method" where
  "kex_marker n = \<lparr>km_name = str n, km_exchange_keys = False, km_cleanup = False, km_flags = 0\<rparr>"

definition kex_methods :: "build \<Rightarrow> kex_method list" where
  "kex_methods b =
     only_if (b_mlkem b \<and> b_ed25519 b) [kex_entry ''mlkem768x25519-sha256''] @
     only_if (b_mlkem b \<and> b_ecdsa b)
       [kex_entry ''mlkem768nistp256-sha256'', kex_entry ''mlkem1024nistp384-sha384''] @
     only_if (b_ed25519 b)
       [kex_entry ''curve25519-sha256'', kex_entry ''curve25519-sha256@libssh.org''] @
     only_if (b_ecdsa b)
       [kex_entry ''ecdh-sha2-nistp256'', kex_entry ''ecdh-sha2-nistp384'',
        kex_entry ''ecdh-sha2-nistp521''] @
     [kex_entry ''diffie-hellman-group-exchange-sha256'', kex_entry ''diffie-hellman-group16-sha512'',
      kex_entry ''diffie-hellman-group18-sha512'', kex_entry ''diffie-hellman-group14-sha256''] @
     only_if (b_kex_sha1 b)
       [kex_entry ''diffie-hellman-group14-sha1'', kex_entry ''diffie-hellman-group1-sha1'',
        kex_entry ''diffie-hellman-group-exchange-sha1''] @
     [kex_marker ''ext-info-c'', kex_marker ''kex-strict-c-v00@openssh.com'']"

subsection \<open>Host key methods\<close>

definition hostkey_entry :: "string \<Rightarrow> hostkey_method" where
  "hostkey_entry n = \<lparr>hm_name = str n, hm_sig_verify = True, hm_encrypt = False, hm_dtor = True\<rparr>"

text \<open>The certificate types without a verification function.\<close>

definition hostkey_cert_entry :: "string \<Rightarrow> hostkey_method" where
  "hostkey_cert_entry n = \<lparr>hm_name = str n, hm_sig_verify = False, hm_encrypt = False, hm_dtor = True\<rparr>"

definition ssh2_hostkey_methods :: "build \<Rightarrow> hostkey_method list" where
  "ssh2_hostkey_methods b =
     only_if (b_ed25519 b) [hostkey_entry ''ssh-ed25519-cert-v01@openssh.com''] @
     only_if (b_ecdsa b)
       [hostkey_cert_entry ''ecdsa-sha2-nistp256-cert-v01@openssh.com'',
        hostkey_cert_entry ''ecdsa-sha2-nistp384-cert-v01@openssh.com'',
        hostkey_cert_entry ''ecdsa-sha2-nistp521-cert-v01@openssh.com''] @
     only_if (b_rsa b \<and> b_rsa_sha2 b)
       [hostkey_cert_entry ''rsa-sha2-512-cert-v01@openssh.com'',
        hostkey_cert_entry ''rsa-sha2-256-cert-v01@openssh.com''] @
     only_if (b_ed25519 b) [hostkey_entry ''ssh-ed25519''] @
     only_if (b_ecdsa b)
       [hostkey_entry ''ecdsa-sha2-nistp256'', hostkey_entry ''ecdsa-sha2-nistp384'',
        hostkey_entry ''ecdsa-sha2-nistp521''] @
     only_if (b_rsa b \<and> b_rsa_sha2 b) [hostkey_entry ''rsa-sha2-512'', hostkey_entry ''rsa-sha2-256''] @
     only_if (b_rsa b \<and> b_rsa_sha1 b)
       [hostkey_entry ''ssh-rsa'', hostkey_cert_entry ''ssh-rsa-cert-v01@openssh.com''] @
     only_if (b_dsa b) [hostkey_entry ''ssh-dss'']"

subsection \<open>Ciphers\<close>

text \<open>\<open>crypt_encrypt\<close> hands the block to the crypto library.\<close>

definition crypt_encrypt :: "build \<Rightarrow> string \<Rightarrow> u32 \<Rightarrow> bytes \<Rightarrow> nat \<Rightarrow> int \<Rightarrow> abstr \<Rightarrow> rc \<times> bytes \<times> abstr" where
  "crypt_encrypt b algo seq buf buf_len firstlast a = b_cipher b algo buf buf_len firstlast a"

text \<open>The context holds the algorithm and the direction; \<open>privkeyfile\<close> does not matter to these ciphers.\<close>

definition crypt_init :: "build \<Rightarrow> string \<Rightarrow> bytes \<Rightarrow> bytes \<Rightarrow> bool \<Rightarrow> bool \<Rightarrow> bool \<Rightarrow> abstr \<Rightarrow> rc \<times> abstr" where
  "crypt_init b algo iv secret encrypt privkeyfile ok a =
     (if \<not> ok then (LIBSSH2_ERROR_ALLOC, a)
      else case b_cipher_init b algo iv secret encrypt of None \<Rightarrow> (- 1, a) | Some h \<Rightarrow> (0, h))"

text \<open>The first 1536 bytes of the key stream are thrown away, eight at a time.\<close>

fun discard_blocks :: "build \<Rightarrow> nat \<Rightarrow> abstr \<Rightarrow> abstr" where
  "discard_blocks b 0 h = h"
| "discard_blocks b (Suc n) h =
     (case b_cipher b ''ssh2_cipher_arcfour'' (replicate 8 0) 8 MIDDLE_BLOCK h of (_, _, h) \<Rightarrow> discard_blocks b n h)"

definition crypt_init_arcfour128 :: "build \<Rightarrow> bytes \<Rightarrow> bytes \<Rightarrow> bool \<Rightarrow> bool \<Rightarrow> bool \<Rightarrow> abstr \<Rightarrow> rc \<times> abstr" where
  "crypt_init_arcfour128 b iv secret encrypt privkeyfile ok a =
     (case crypt_init b ''ssh2_cipher_arcfour'' iv secret encrypt privkeyfile ok a of
        (rc, a) \<Rightarrow> (rc, if rc = 0 then discard_blocks b 192 a else a))"

text \<open>
  \<open>struct crypt_ctx\<close> for ChaCha20: the two flags and the two key states.  A session keeps it as a byte
  string; the empty one is the NULL pointer.
\<close>

record crypt_ctx =
  cx_encrypt :: bool
  cx_privkeyfile :: bool
  cx_chachapoly :: chachapoly_ctx

definition words_of :: "bytes \<Rightarrow> u32 list" where
  "words_of bs = map (\<lambda>i. U8TO32_LITTLE bs (4 * i)) [0..<16]"

definition ctx_of_bytes :: "abstr \<Rightarrow> crypt_ctx" where
  "ctx_of_bytes a =
     \<lparr>cx_encrypt = a ! 0 \<noteq> 0, cx_privkeyfile = a ! 1 \<noteq> 0,
      cx_chachapoly = \<lparr>main_ctx = words_of (drop 2 a), header_ctx = words_of (drop 66 a)\<rparr>\<rparr>"

definition bytes_of_ctx :: "crypt_ctx \<Rightarrow> abstr" where
  "bytes_of_ctx c =
     [if cx_encrypt c then 1 else 0, if cx_privkeyfile c then 1 else 0] @
     concat (map U32TO8_LITTLE (main_ctx (cx_chachapoly c))) @
     concat (map U32TO8_LITTLE (header_ctx (cx_chachapoly c)))"

definition crypt_init_chacha20_poly :: "bytes \<Rightarrow> nat \<Rightarrow> bool \<Rightarrow> bool \<Rightarrow> bool \<Rightarrow> abstr \<Rightarrow> rc \<times> abstr" where
  "crypt_init_chacha20_poly secret secret_len encrypt privkeyfile alloc_ok a =
     (if \<not> alloc_ok then (LIBSSH2_ERROR_ALLOC, a)
      else
        let zero = \<lparr>main_ctx = replicate 16 0, header_ctx = replicate 16 0\<rparr>;
            (rc, cp) = chachapoly_init secret secret_len zero
        in if rc \<noteq> 0 then (- 1, a)
           else (0, bytes_of_ctx \<lparr>cx_encrypt = encrypt, cx_privkeyfile = privkeyfile, cx_chachapoly = cp\<rparr>))"

definition crypt_encrypt_chacha20_poly_buffer :: "u32 \<Rightarrow> bytes \<Rightarrow> nat \<Rightarrow> int \<Rightarrow> abstr \<Rightarrow>
    rc \<times> bytes \<times> abstr" where
  "crypt_encrypt_chacha20_poly_buffer seq buf buf_len firstlast a =
     (if a = [] then (1, buf, a)
      else
        let c = ctx_of_bytes a;
            run = (\<lambda>len aadlen. chachapoly_crypt (ucast seq) buf len aadlen (cx_encrypt c) (cx_chachapoly c));
            fin = (\<lambda>(ret, buf', cp). (if ret = 0 then 0 else 1, buf', bytes_of_ctx (c\<lparr>cx_chachapoly := cp\<rparr>)))
        in if cx_encrypt c then fin (run (buf_len - 4) 4)
           else if \<not> cx_privkeyfile c then
             if buf_len < 4 then (1, buf, a)
             else
               let (ret, buf', cp) = run buf_len 4;
                   buf' = (if ret = 0
                           then slice 4 (buf_len - 4) buf' @ drop (buf_len - 4) buf' else buf')
               in fin (ret, buf', cp)
           else fin (run buf_len 0))"

definition crypt_get_length_chacha20_poly :: "u32 \<Rightarrow> bytes \<Rightarrow> abstr \<Rightarrow> rc \<times> u32 \<times> abstr" where
  "crypt_get_length_chacha20_poly seq data a =
     (let c = ctx_of_bytes a;
          (ret, len, cp) = chachapoly_get_length (ucast seq) data (length data) (cx_chachapoly c)
      in (if ret = 0 then 0 else 1, len, bytes_of_ctx (c\<lparr>cx_chachapoly := cp\<rparr>)))"

definition crypt_entry :: "build \<Rightarrow> string \<Rightarrow> nat \<Rightarrow> nat \<Rightarrow> nat \<Rightarrow> nat \<Rightarrow> u32 \<Rightarrow> string \<Rightarrow> crypt_method" where
  "crypt_entry b n blocksize iv_len secret_len auth_len flags algo =
     \<lparr>cm_name = str n, cm_blocksize = blocksize, cm_auth_len = auth_len, cm_flags = flags,
      cm_get_len = None, cm_crypt = crypt_encrypt b algo, cm_iv_len = iv_len, cm_secret_len = secret_len,
      cm_init = crypt_init b algo\<rparr>"

definition crypt_method_chacha20_poly1305_openssh :: crypt_method where
  "crypt_method_chacha20_poly1305_openssh =
     \<lparr>cm_name = str ''chacha20-poly1305@openssh.com'', cm_blocksize = 8, cm_auth_len = 16,
      cm_flags = SSH2_CRYPT_FLAG_REQUIRES_FULL_PACKET,
      cm_get_len = Some crypt_get_length_chacha20_poly,
      cm_crypt = crypt_encrypt_chacha20_poly_buffer, cm_iv_len = 0, cm_secret_len = 64,
      cm_init = (\<lambda>iv secret. crypt_init_chacha20_poly secret 64)\<rparr>"

definition gcm_entries :: "build \<Rightarrow> crypt_method list" where
  "gcm_entries b =
     (let flags = SSH2_CRYPT_FLAG_INTEGRATED_MAC OR SSH2_CRYPT_FLAG_PKTLEN_AAD
      in [crypt_entry b ''aes256-gcm@openssh.com'' 16 12 32 16 flags ''ssh2_cipher_aes256gcm'',
          crypt_entry b ''aes128-gcm@openssh.com'' 16 12 16 16 flags ''ssh2_cipher_aes128gcm''])"

definition ctr_entries :: "build \<Rightarrow> crypt_method list" where
  "ctr_entries b =
     [crypt_entry b ''aes256-ctr'' 16 16 32 0 0 ''ssh2_cipher_aes256ctr'',
      crypt_entry b ''aes192-ctr'' 16 16 24 0 0 ''ssh2_cipher_aes192ctr'',
      crypt_entry b ''aes128-ctr'' 16 16 16 0 0 ''ssh2_cipher_aes128ctr'']"

definition cbc_entries :: "build \<Rightarrow> crypt_method list" where
  "cbc_entries b =
     [crypt_entry b ''aes256-cbc'' 16 16 32 0 0 ''ssh2_cipher_aes256'',
      crypt_entry b ''rijndael-cbc@lysator.liu.se'' 16 16 32 0 0 ''ssh2_cipher_aes256'',
      crypt_entry b ''aes192-cbc'' 16 16 24 0 0 ''ssh2_cipher_aes192'',
      crypt_entry b ''aes128-cbc'' 16 16 16 0 0 ''ssh2_cipher_aes128'']"

definition old_entries :: "build \<Rightarrow> crypt_method list" where
  "old_entries b =
     only_if (b_blowfish b) [crypt_entry b ''blowfish-cbc'' 8 8 16 0 0 ''ssh2_cipher_blowfish''] @
     only_if (b_rc4 b) [(crypt_entry b ''arcfour128'' 8 8 16 0 0 ''ssh2_cipher_arcfour'')\<lparr>cm_init := crypt_init_arcfour128 b\<rparr>,
                        crypt_entry b ''arcfour'' 8 8 16 0 0 ''ssh2_cipher_arcfour''] @
     only_if (b_cast b) [crypt_entry b ''cast128-cbc'' 8 8 16 0 0 ''ssh2_cipher_cast5''] @
     only_if (b_3des b) [crypt_entry b ''3des-cbc'' 8 8 24 0 0 ''ssh2_cipher_3des'']"

definition ssh2_crypt_methods :: "build \<Rightarrow> crypt_method list" where
  "ssh2_crypt_methods b =
     [crypt_method_chacha20_poly1305_openssh] @ only_if (b_aes_gcm b) (gcm_entries b) @
     only_if (b_aes_ctr b) (ctr_entries b) @ only_if (b_aes_cbc b) (cbc_entries b) @ old_entries b"

subsection \<open>MACs\<close>

text \<open>The key is the context; sequence number, packet and additional data are hashed in this order.\<close>

definition mac_method_hmac :: "build \<Rightarrow> string \<Rightarrow> u32 \<Rightarrow> bytes \<Rightarrow> bytes \<Rightarrow> abstr \<Rightarrow> rc \<times> bytes \<times> abstr" where
  "mac_method_hmac b alg seq packet addtl key =
     (case b_hmac b alg key (ssh2_htonu32 seq @ packet @ addtl) of
        Some digest \<Rightarrow> (0, digest, key)
      | None \<Rightarrow> (1, [], key))"

definition mac_method_hmac_96 :: "build \<Rightarrow> string \<Rightarrow> u32 \<Rightarrow> bytes \<Rightarrow> bytes \<Rightarrow> abstr \<Rightarrow> rc \<times> bytes \<times> abstr" where
  "mac_method_hmac_96 b alg seq packet addtl key =
     (case mac_method_hmac b alg seq packet addtl key of
        (rc, temp, key) \<Rightarrow> if rc \<noteq> 0 then (1, [], key) else (0, take (96 div 8) temp, key))"

definition mac_method_common_init :: "bytes \<Rightarrow> abstr \<Rightarrow> abstr" where
  "mac_method_common_init key a = key"

definition mac_method_common_dtor :: "abstr \<Rightarrow> abstr" where
  "mac_method_common_dtor a = []"

definition mac_entry :: "string \<Rightarrow> nat \<Rightarrow> nat \<Rightarrow> bool \<Rightarrow>
    (u32 \<Rightarrow> bytes \<Rightarrow> bytes \<Rightarrow> abstr \<Rightarrow> rc \<times> bytes \<times> abstr) \<Rightarrow> mac_method" where
  "mac_entry n mac_len key_len etm hash =
     \<lparr>mm_name = str n, mm_mac_len = mac_len, mm_key_len = key_len, mm_init = mac_method_common_init,
      mm_dtor = mac_method_common_dtor, mm_etm = etm, mm_hash = hash\<rparr>"

definition sha2_entries :: "build \<Rightarrow> mac_method list" where
  "sha2_entries b =
     only_if (b_sha256 b)
       [mac_entry ''hmac-sha2-256'' 32 32 False (mac_method_hmac b ''SSH2_SHA256_HMAC''),
        mac_entry ''hmac-sha2-256-etm@openssh.com'' 32 32 True (mac_method_hmac b ''SSH2_SHA256_HMAC'')] @
     only_if (b_sha512 b)
       [mac_entry ''hmac-sha2-512'' 64 64 False (mac_method_hmac b ''SSH2_SHA512_HMAC''),
        mac_entry ''hmac-sha2-512-etm@openssh.com'' 64 64 True (mac_method_hmac b ''SSH2_SHA512_HMAC'')]"

definition sha1_entries :: "build \<Rightarrow> mac_method list" where
  "sha1_entries b =
     [mac_entry ''hmac-sha1'' 20 20 False (mac_method_hmac b ''SSH2_SHA1_HMAC''),
      mac_entry ''hmac-sha1-etm@openssh.com'' 20 20 True (mac_method_hmac b ''SSH2_SHA1_HMAC''),
      mac_entry ''hmac-sha1-96'' 12 20 False (mac_method_hmac_96 b ''SSH2_SHA1_HMAC'')]"

definition md5_entries :: "build \<Rightarrow> mac_method list" where
  "md5_entries b =
     [mac_entry ''hmac-md5'' 16 16 False (mac_method_hmac b ''SSH2_MD5_HMAC''),
      mac_entry ''hmac-md5-96'' 12 16 False (mac_method_hmac_96 b ''SSH2_MD5_HMAC'')]"

definition ripemd_entries :: "build \<Rightarrow> mac_method list" where
  "ripemd_entries b =
     [mac_entry ''hmac-ripemd160'' 20 20 False (mac_method_hmac b ''SSH2_RIPEMD160_HMAC''),
      mac_entry ''hmac-ripemd160@openssh.com'' 20 20 False (mac_method_hmac b ''SSH2_RIPEMD160_HMAC'')]"

definition ssh2_mac_methods :: "build \<Rightarrow> mac_method list" where
  "ssh2_mac_methods b =
     sha2_entries b @ only_if (b_sha1 b) (sha1_entries b) @ only_if (b_md5 b) (md5_entries b) @
     only_if (b_ripemd b) (ripemd_entries b)"

text \<open>The stub for ciphers that authenticate themselves; it leaves the output buffer alone.\<close>

definition mac_method_hmac_aesgcm :: mac_method where
  "mac_method_hmac_aesgcm =
     (mac_entry ''INTEGRATED-AES-GCM'' 16 16 False (\<lambda>seq packet addtl key. (0, [], key)))
       \<lparr>mm_init := (\<lambda>key a. a), mm_dtor := (\<lambda>a. a)\<rparr>"

definition ssh2_mac_override :: "build \<Rightarrow> crypt_method \<Rightarrow> mac_method option" where
  "ssh2_mac_override b m =
     (if b_aes_gcm b \<and>
         (cm_name m = str ''aes256-gcm@openssh.com'' \<or> cm_name m = str ''aes128-gcm@openssh.com'')
      then Some mac_method_hmac_aesgcm else None)"

subsection \<open>Compression\<close>

text \<open>
  \<open>strm\<close> is the stream's state.  \<open>deflate\<close> gets the input and the room left, and says its status and what it
  wrote; it succeeds only when room is left over.
\<close>

abbreviation (input) LIBSSH2_ERROR_ZLIB :: int where "LIBSSH2_ERROR_ZLIB \<equiv> - 29"
abbreviation (input) LIBSSH2_ERROR_COMPRESS :: int where "LIBSSH2_ERROR_COMPRESS \<equiv> - 40"

definition comp_method_zlib_comp :: "build \<Rightarrow> nat \<Rightarrow> bytes \<Rightarrow> abstr \<Rightarrow> rc \<times> bytes \<times> abstr" where
  "comp_method_zlib_comp b dest_len src strm =
     (let (status, out, strm) = b_deflate b strm src dest_len
      in if status = 0 \<and> length out < dest_len then (0, out, strm) else (LIBSSH2_ERROR_ZLIB, [], strm))"

text \<open>
  Inflating into a buffer that doubles.  \<open>out\<close> is what has been written, \<open>out_maxlen\<close> the buffer's size;
  \<open>al\<close> says which reallocations succeed (all, when it is exhausted).  A buffer of size 0 only arises for a
  limit of 0, which no caller passes; doubling it would not end.
\<close>

function zlib_decomp_loop :: "build \<Rightarrow> nat \<Rightarrow> nat \<Rightarrow> bool list \<Rightarrow> bytes \<Rightarrow> bytes \<Rightarrow> abstr \<Rightarrow>
    rc \<times> bytes \<times> abstr" where
  "zlib_decomp_loop b payload_limit out_maxlen al src out strm =
     (let (status, src', new, strm) = b_inflate b strm src (out_maxlen - length out);
          out = out @ take (out_maxlen - length out) new
      in if status = 0 \<and> length out < out_maxlen then (0, out, strm)
         else if status = - 5 then (if out = [] then (LIBSSH2_ERROR_ZLIB, [], strm) else (0, out, strm))
         else if status \<noteq> 0 then (LIBSSH2_ERROR_ZLIB, [], strm)
         else if out_maxlen > payload_limit \<or> out_maxlen > (2 ^ 64 - 1) div 2 \<or> out_maxlen = 0 then (LIBSSH2_ERROR_ZLIB, [], strm)
         else if (case al of [] \<Rightarrow> False | a # _ \<Rightarrow> \<not> a) then (LIBSSH2_ERROR_ALLOC, [], strm)
         else zlib_decomp_loop b payload_limit (out_maxlen * 2) (tl al) src' out strm)"
  by pat_completeness auto
termination
  by (relation "measure (\<lambda>(b, payload_limit, out_maxlen, al, src, out, strm). payload_limit + 1 - out_maxlen)")
     (auto split: prod.splits)

declare zlib_decomp_loop.simps [simp del]

definition zlib_decomp_size :: "nat \<Rightarrow> nat \<Rightarrow> nat" where
  "zlib_decomp_size payload_limit src_len =
     (let out_maxlen = (if src_len \<le> (2 ^ 64 - 1) div 4 then src_len * 4 mod 2 ^ 32 else payload_limit);
          out_maxlen = (if out_maxlen < 25 then 25 else out_maxlen)
      in if out_maxlen > payload_limit then payload_limit else out_maxlen)"

definition comp_method_zlib_decomp :: "build \<Rightarrow> bool list \<Rightarrow> nat \<Rightarrow> bytes \<Rightarrow> abstr \<Rightarrow> rc \<times> bytes \<times> abstr" where
  "comp_method_zlib_decomp b al payload_limit src strm =
     (let out_maxlen = zlib_decomp_size payload_limit (length src)
      in if (case al of [] \<Rightarrow> False | a # _ \<Rightarrow> \<not> a) then (LIBSSH2_ERROR_ALLOC, [], strm)
         else zlib_decomp_loop b payload_limit out_maxlen (tl al) src [] strm)"

definition comp_method_zlib_init :: "build \<Rightarrow> bool \<Rightarrow> bool \<Rightarrow> abstr option \<Rightarrow> rc \<times> abstr option" where
  "comp_method_zlib_init b compr ok a =
     (if \<not> ok then (LIBSSH2_ERROR_ALLOC, a)
      else case b_zlib_init b compr of None \<Rightarrow> (LIBSSH2_ERROR_COMPRESS, a) | Some strm \<Rightarrow> (0, Some strm))"

text \<open>
  In the table every allocation of the decompressor succeeds.  The functions of \<open>none\<close> do nothing; they
  are never called, since it does not compress.
\<close>

definition comp_method_zlib :: "build \<Rightarrow> comp_method" where
  "comp_method_zlib b = \<lparr>pm_name = str ''zlib'', pm_compress = True, pm_use_in_auth = True,
     pm_comp = comp_method_zlib_comp b, pm_decomp = comp_method_zlib_decomp b [],
     pm_init = Some (comp_method_zlib_init b)\<rparr>"

definition comp_method_zlib_openssh :: "build \<Rightarrow> comp_method" where
  "comp_method_zlib_openssh b = \<lparr>pm_name = str ''zlib@openssh.com'', pm_compress = True, pm_use_in_auth = False,
     pm_comp = comp_method_zlib_comp b, pm_decomp = comp_method_zlib_decomp b [],
     pm_init = Some (comp_method_zlib_init b)\<rparr>"

definition comp_method_none :: comp_method where
  "comp_method_none = \<lparr>pm_name = str ''none'', pm_compress = False, pm_use_in_auth = False,
     pm_comp = (\<lambda>dest_len src strm. (0, [], strm)), pm_decomp = (\<lambda>limit src strm. (0, [], strm)),
     pm_init = None\<rparr>"

definition ssh2_comp_methods :: "build \<Rightarrow> session \<Rightarrow> comp_method list" where
  "ssh2_comp_methods b s =
     (if flag_compress s
      then only_if (b_have_zlib b) [comp_method_zlib b, comp_method_zlib_openssh b] @ [comp_method_none]
      else [comp_method_none])"

end
