(* ===== verification/TransportEnds.thy ===== *)
theory TransportEnds
  imports Transport Methods
begin

text \<open>
  The loop of \<open>ssh2_transport_read\<close> ends, with every cipher of the library and whatever the socket delivers:
  every round that is followed by another one takes bytes off the socket or off the buffer.
\<close>

unbundle bit_operations_syntax

subsection \<open>What the loop relies on\<close>

text \<open>
  A cipher that has its own way to read the length needs the full packet, and only such a cipher; none of them
  has a MAC of its own besides.
\<close>

definition full_cipher :: "crypt_method \<Rightarrow> bool" where
  "full_cipher m \<longleftrightarrow> cm_flags m AND SSH2_CRYPT_FLAG_REQUIRES_FULL_PACKET \<noteq> 0"

definition cipher_ok :: "crypt_method \<Rightarrow> bool" where
  "cipher_ok m \<longleftrightarrow> 0 < cm_blocksize m \<and> (cm_get_len m \<noteq> None \<longleftrightarrow> full_cipher m) \<and>
     (full_cipher m \<longrightarrow> cm_flags m AND SSH2_CRYPT_FLAG_INTEGRATED_MAC = 0)"

lemma crypt_methods_ok: "m \<in> set (ssh2_crypt_methods b) \<Longrightarrow> cipher_ok m"
  by (auto simp: ssh2_crypt_methods_def only_if_def gcm_entries_def ctr_entries_def cbc_entries_def old_entries_def
      crypt_entry_def crypt_method_chacha20_poly1305_openssh_def cipher_ok_def full_cipher_def Let_def
      SSH2_CRYPT_FLAG_REQUIRES_FULL_PACKET_def SSH2_CRYPT_FLAG_INTEGRATED_MAC_def SSH2_CRYPT_FLAG_PKTLEN_AAD_def
      split: if_splits)

definition ciphers_ok :: "session \<Rightarrow> bool" where
  "ciphers_ok s \<longleftrightarrow> (has_st SSH2_STATE_NEWKEYS s \<longrightarrow> crypt (remote s) \<noteq> None) \<and>
     (\<forall>m. crypt (remote s) = Some m \<longrightarrow> cipher_ok m)"

text \<open>What stays the same while a packet is read.\<close>

definition still :: "session \<Rightarrow> session \<Rightarrow> bool" where
  "still s s' \<longleftrightarrow> sock_in s' = sock_in s \<and> st s' = st s \<and> crypt (remote s') = crypt (remote s)"

lemma still_refl [simp]: "still s s"
  by (simp add: still_def)

lemma still_trans [trans]: "still s s' \<Longrightarrow> still s' s'' \<Longrightarrow> still s s''"
  by (simp add: still_def)

lemma still_upd [simp]:
  "still s (upd_tp f s') = still s s'" "still s (set_fault s') = still s s'" "still s (c_assert P s') = still s s'"
  "still s (s'\<lparr>allocs := al\<rparr>) = still s s'" "still s (upd_remote (\<lambda>e. e\<lparr>crypt_abstract := a\<rparr>) s') = still s s'"
  "still (upd_tp f s) s' = still s s'" "still (c_assert P s) s' = still s s'"
  "still (upd_remote (\<lambda>e. e\<lparr>crypt_abstract := a\<rparr>) s) s' = still s s'"
  by (auto simp: still_def upd_defs set_fault_def c_assert_def)

lemma still_flag: "still s s' \<Longrightarrow> CRYPT_FLAG_R s' f = CRYPT_FLAG_R s f"
  by (simp add: still_def CRYPT_FLAG_R_def)

lemma still_ciphers: "still s s' \<Longrightarrow> ciphers_ok s' = ciphers_ok s"
  by (simp add: still_def ciphers_ok_def has_st_def)

lemma tp_upd [simp]:
  "tp (upd_tp f s) = f (tp s)" "tp (set_fault s) = tp s" "tp (c_assert P s) = tp s" "tp (upd_remote g s) = tp s"
  by (simp_all add: upd_defs set_fault_def c_assert_def)

lemma tp_alloc: "ssh2_alloc s = (ok, s') \<Longrightarrow> tp s' = tp s \<and> still s s'"
  by (auto simp: ssh2_alloc_def still_def split: list.splits)

lemma remainbuf_upd [simp]:
  "remainbuf (set_fault s) = remainbuf s" "remainbuf (c_assert P s) = remainbuf s" "remainbuf (upd_remote g s) = remainbuf s"
  by (simp_all add: remainbuf_def)

lemma crypt_at_size: "crypt_at m q off n fl buf a = (rc, buf', a') \<Longrightarrow> length buf' = length buf"
  by (auto simp: crypt_at_def split: prod.splits)

lemma decrypt_loop_step:
  assumes "n > 0" "cm_blocksize m > 0"
  shows "\<exists>k fl'. 0 < k \<and> k \<le> n \<and> decrypt_loop m off n fl src dest a =
    (case crypt_at m 0 off k fl' src a of (rc, src, a) \<Rightarrow>
       if rc \<noteq> 0 then (LIBSSH2_ERROR_DECRYPT, dest, src, a)
       else decrypt_loop m (off + k) (n - k) fl src (dest @ slice off k src) a)"
proof -
  let ?last = "cm_flags m AND SSH2_CRYPT_FLAG_PKTLEN_AAD \<noteq> 0 \<and> fl AND LAST_BLOCK \<noteq> 0 \<and> n < cm_blocksize m * 2"
  let ?k = "if ?last then n else min (cm_blocksize m) n"
  let ?fl = "if ?last then LAST_BLOCK else if fl AND FIRST_BLOCK \<noteq> 0 then FIRST_BLOCK
    else if n \<le> cm_blocksize m then fl else MIDDLE_BLOCK"
  have "0 < ?k" "?k \<le> n" using assms by auto
  moreover have "decrypt_loop m off n fl src dest a =
    (case crypt_at m 0 off ?k ?fl src a of (rc, src, a) \<Rightarrow>
       if rc \<noteq> 0 then (LIBSSH2_ERROR_DECRYPT, dest, src, a)
       else decrypt_loop m (off + ?k) (n - ?k) fl src (dest @ slice off ?k src) a)"
    using assms by (subst decrypt_loop.simps) (simp only: Let_def if_True simp_thms)
  ultimately show ?thesis by blast
qed

lemma decrypt_loop_length: "decrypt_loop m off n fl src dest a = (rc, dest', src', a') \<Longrightarrow> length src' = length src"
proof (induction n arbitrary: off src dest a rule: less_induct)
  case (less n)
  show ?case
  proof (cases "n > 0 \<and> cm_blocksize m > 0")
    case True
    then obtain k fl' where k: "0 < k" "k \<le> n" and e: "decrypt_loop m off n fl src dest a =
        (case crypt_at m 0 off k fl' src a of (rc, src, a) \<Rightarrow>
           if rc \<noteq> 0 then (LIBSSH2_ERROR_DECRYPT, dest, src, a)
           else decrypt_loop m (off + k) (n - k) fl src (dest @ slice off k src) a)"
      using decrypt_loop_step by blast
    obtain rc1 src1 a1 where c: "crypt_at m 0 off k fl' src a = (rc1, src1, a1)" using prod_cases3 by blast
    have "length src' = length src1"
      using less.prems e c less.IH [of "n - k" "off + k" src1 "dest @ slice off k src1" a1] k True
      by (auto split: if_splits)
    then show ?thesis using crypt_at_size [OF c] by simp
  next
    case False
    then show ?thesis using less.prems by (subst (asm) decrypt_loop.simps) auto
  qed
qed

lemma transport_decrypt_keeps:
  "transport_decrypt src off n fl s = (rc, dest, src', s') \<Longrightarrow> length src' = length src \<and> still s s' \<and>
   (\<exists>b. tp s' = (tp s)\<lparr>tp_payload := b\<rparr>)"
  by (auto simp: transport_decrypt_def Let_def dest: decrypt_loop_length split: option.splits prod.splits if_splits)
     (metis transportpacket.surjective transportpacket.update_convs(8))+

subsection \<open>Consuming\<close>

lemma read_copy_steps:
  assumes "read_copy k s = (None, s')"
  shows "still s s' \<and> tp_total_num (tp s') = tp_total_num (tp s) \<and> tp_data_num (tp s') = tp_data_num (tp s) + nat k \<and>
    remainbuf s' = remainbuf s - nat k"
  using assms
  by (auto simp: read_copy_def read_advance_def payload_put_def remainbuf_def split: if_splits option.splits)

definition decrypted :: "read_vars \<Rightarrow> session \<Rightarrow> int \<Rightarrow> nat" where
  "decrypted v s numdecrypt =
     (if numdecrypt > 0
      then nat numdecrypt + (if CRYPT_FLAG_R s SSH2_CRYPT_FLAG_REQUIRES_FULL_PACKET then rv_auth_len v else 0) else 0)"

lemma crypt_flag_upd [simp]:
  "CRYPT_FLAG_R (upd_tp f s) g = CRYPT_FLAG_R s g" "CRYPT_FLAG_R (c_assert P s) g = CRYPT_FLAG_R s g"
  "CRYPT_FLAG_R (upd_remote (\<lambda>e. e\<lparr>crypt_abstract := a\<rparr>) s) g = CRYPT_FLAG_R s g"
  "CRYPT_FLAG_R (set_fault s) g = CRYPT_FLAG_R s g"
  by (simp_all add: CRYPT_FLAG_R_def upd_defs c_assert_def set_fault_def)

lemma payload_put_steps [simp]:
  "still s (payload_put bs t) = still s t" "tp_total_num (tp (payload_put bs t)) = tp_total_num (tp t)"
  "tp_data_num (tp (payload_put bs t)) = tp_data_num (tp t)" "tp_readidx (tp (payload_put bs t)) = tp_readidx (tp t)"
  "tp_buf (tp (payload_put bs t)) = tp_buf (tp t)" "remainbuf (payload_put bs t) = remainbuf t"
  by (auto simp: payload_put_def remainbuf_def split: option.split)

lemma read_decrypt_steps:
  assumes "read_decrypt v numbytes n s = (None, ns, s')" "n > 0"
  shows "ns = [decrypted v s (int n)] \<and> still s s' \<and> tp_total_num (tp s') = tp_total_num (tp s) \<and>
    tp_data_num (tp s') = tp_data_num (tp s) \<and> remainbuf s' \<le> remainbuf s"
proof (cases "CRYPT_FLAG_R s SSH2_CRYPT_FLAG_REQUIRES_FULL_PACKET")
  case True
  then obtain m where m: "crypt (remote s) = Some m" by (auto simp: CRYPT_FLAG_R_def split: option.splits)
  show ?thesis
    using assms True m
    by (auto simp: read_decrypt_def bad_read_def decrypted_def Let_def remainbuf_def dest!: crypt_at_size split: if_splits prod.splits)
next
  case False
  obtain rc dest src t where d: "transport_decrypt (tp_buf (tp s)) (tp_readidx (tp s)) n (rv_firstlast v) s = (rc, dest, src, t)"
    using prod_cases4 by blast
  note k = transport_decrypt_keeps [OF d]
  show ?thesis
    using assms False k
    by (auto simp: read_decrypt_def d bad_read_def decrypted_def Let_def remainbuf_def split: if_splits)
qed

lemma read_advance_steps [simp]:
  "still s (read_advance n t) = still s t" "still (read_advance n s) t = still s t" "tp_total_num (tp (read_advance n t)) = tp_total_num (tp t)"
  "tp_data_num (tp (read_advance n t)) = tp_data_num (tp t) + n" "remainbuf (read_advance n t) = remainbuf t - n"
  by (auto simp: read_advance_def remainbuf_def)

lemma read_consume_steps:
  assumes "read_consume v numbytes numdecrypt s = (None, s')"
  shows "still s s' \<and> tp_total_num (tp s') = tp_total_num (tp s) \<and>
    tp_data_num (tp s') = tp_data_num (tp s) + decrypted v s numdecrypt + nat (numbytes - int (decrypted v s numdecrypt)) \<and>
    remainbuf s' \<le> remainbuf s - (decrypted v s numdecrypt + nat (numbytes - int (decrypted v s numdecrypt)))"
proof (cases "numdecrypt > 0")
  case True
  obtain r ns t where d: "read_decrypt v numbytes (nat numdecrypt) s = (r, ns, t)" using prod_cases3 by blast
  have r: "r = None" using assms True d by (auto simp: read_consume_def split: option.splits list.splits)
  have n: "0 < nat numdecrypt" using True by simp
  note k = read_decrypt_steps [OF d[unfolded r] n]
  let ?n = "decrypted v s numdecrypt"
  have "read_copy (numbytes - int ?n) (read_advance ?n t) = (None, s')"
    using assms True d r k by (simp add: read_consume_def)
  note c = read_copy_steps [OF this]
  show ?thesis using c k by (auto intro: still_trans)
next
  case False
  then have "read_copy numbytes s = (None, s')" using assms by (simp add: read_consume_def)
  then show ?thesis using read_copy_steps False by (auto simp: decrypted_def)
qed


subsection \<open>One round\<close>

text \<open>Where a packet stands at the head of the loop.\<close>

definition packet_open :: "read_vars \<Rightarrow> session \<Rightarrow> bool" where
  "packet_open v s \<longleftrightarrow>
     (if rv_full v s then tp_data_num (tp s) = 0 \<and> 4 < tp_total_num (tp s)
      else tp_data_num (tp s) \<le> tp_total_num (tp s) \<and> 0 < tp_total_num (tp s))"

text \<open>A round takes at least a byte when it has a block, or a byte and nothing to decrypt.\<close>

definition something :: "nat \<Rightarrow> read_vars \<Rightarrow> int \<Rightarrow> bool" where
  "something blocksize v numbytes \<longleftrightarrow> int blocksize \<le> numbytes \<or> rv_etm v \<and> 0 < numbytes"

lemma rv_full_upd [simp]: "rv_full v (upd_tp f s) = rv_full v s" "rv_full (v\<lparr>rv_firstlast := fl\<rparr>) s = rv_full v s"
  by (simp_all add: rv_full_def)

lemma amounts_full:
  assumes "read_amounts blocksize v numbytes s = (None, amounts, v', s')" "rv_full v s" "packet_open v s"
    "CRYPT_FLAG_R s SSH2_CRYPT_FLAG_INTEGRATED_MAC = False"
  shows "hd amounts = int (tp_total_num (tp s')) \<and> 0 < hd amounts \<and> tp_data_num (tp s') = 0 \<and> still s s' \<and>
    remainbuf s' = remainbuf s \<and> v' = v\<lparr>rv_firstlast := rv_firstlast v'\<rparr> \<and>
    amounts ! 1 = (if rv_encrypted v \<and> \<not> rv_etm v
      then max 0 (int (tp_total_num (tp s')) - int (rv_mac_len v) - int (rv_auth_len v)) else 0)"
  using assms
  by (auto simp: read_amounts_def read_decrypt_amount_def read_skip_def packet_open_def Let_def remainbuf_def split: if_splits)

lemma decrypt_amount_bounds:
  assumes "read_decrypt_amount blocksize v n s = (k, d, fl)" "0 \<le> n" "0 < blocksize"
    "int (tp_data_num (tp s)) + n \<le> int (tp_total_num (tp s))"
  shows "k \<le> n" "d \<le> n"
    "int blocksize \<le> n \<or> tp_data_num (tp s) < tp_total_num (tp s) \<and> 0 < n \<and> int (tp_data_num (tp s)) + n = int (tp_total_num (tp s)) \<Longrightarrow>
      0 < k \<or> 0 < d"
proof -
  have sk: "0 \<le> read_skip v s" by (simp add: read_skip_def)
  have m: "n mod int blocksize \<le> n" "0 \<le> n mod int blocksize" "n mod int blocksize < int blocksize"
    using assms(2,3) by (simp_all add: zmod_le_nonneg_dividend)
  show "k \<le> n" "d \<le> n"
    using assms sk m by (auto simp: read_decrypt_amount_def Let_def split: if_splits)
  show "0 < k \<or> 0 < d"
    if "int blocksize \<le> n \<or> tp_data_num (tp s) < tp_total_num (tp s) \<and> 0 < n \<and> int (tp_data_num (tp s)) + n = int (tp_total_num (tp s))"
    using that assms sk m by (auto simp: read_decrypt_amount_def Let_def split: if_splits)
qed

lemma full_not_integrated:
  "ciphers_ok s \<Longrightarrow> CRYPT_FLAG_R s SSH2_CRYPT_FLAG_REQUIRES_FULL_PACKET \<Longrightarrow> \<not> CRYPT_FLAG_R s SSH2_CRYPT_FLAG_INTEGRATED_MAC"
  by (auto simp: ciphers_ok_def cipher_ok_def full_cipher_def CRYPT_FLAG_R_def split: option.splits)

lemma rv_full_still: "still s s' \<Longrightarrow> rv_encrypted v' = rv_encrypted v \<Longrightarrow> rv_full v' s' = rv_full v s"
  by (simp add: rv_full_def still_flag)

lemma round_full:
  assumes "read_amounts blocksize v nb s = (None, amounts, v', s1)" "read_consume v' (hd amounts) (amounts ! 1) s1 = (None, s2)"
    and "packet_open v s" "rv_full v s" "ciphers_ok s"
  shows "still s s2 \<and> remainbuf s2 \<le> remainbuf s \<and> tp_total_num (tp s2) = tp_data_num (tp s2)"
proof -
  have full: "CRYPT_FLAG_R s SSH2_CRYPT_FLAG_REQUIRES_FULL_PACKET" using assms(4) by (simp add: rv_full_def)
  note a = amounts_full [OF assms(1,4,3)] and c = read_consume_steps [OF assms(2)]
  have ni: "\<not> CRYPT_FLAG_R s SSH2_CRYPT_FLAG_INTEGRATED_MAC" using full_not_integrated [OF assms(5) full] .
  have s1: "still s s1" "CRYPT_FLAG_R s1 SSH2_CRYPT_FLAG_REQUIRES_FULL_PACKET" "rv_auth_len v' = rv_auth_len v"
    using a ni full still_flag [of s s1] by (auto simp: read_vars.defs) (metis read_vars.select_convs(3) read_vars.surjective read_vars.update_convs(2))+
  have "tp_data_num (tp s2) = tp_total_num (tp s2)"
    using a ni c s1 by (auto simp: decrypted_def)
  then show ?thesis using c a ni s1 by (auto intro: still_trans)
qed

lemma round_part:
  assumes "read_amounts blocksize v nb s = (None, amounts, v', s1)" "read_consume v' (hd amounts) (amounts ! 1) s1 = (None, s2)"
    and "packet_open v s" "\<not> rv_full v s" "0 \<le> nb" "nb \<le> int (remainbuf s)" "0 < blocksize"
  shows "still s s2 \<and> remainbuf s2 \<le> remainbuf s \<and> rv_encrypted v' = rv_encrypted v \<and>
    (tp_total_num (tp s2) \<noteq> tp_data_num (tp s2) \<longrightarrow>
      packet_open v' s2 \<and> (something blocksize v nb \<longrightarrow> remainbuf s2 < remainbuf s))"
proof -
  let ?n = "min nb (int (tp_total_num (tp s)) - int (tp_data_num (tp s)))"
  have o: "tp_data_num (tp s) \<le> tp_total_num (tp s)" "0 < tp_total_num (tp s)"
    using assms(3,4) by (simp_all add: packet_open_def)
  obtain k d where am: "amounts = [k, d]" using assms(1)
    by (auto simp: read_amounts_def Let_def split: if_splits prod.splits)
  have t: "tp s1 = tp s" "still s s1" "rv_encrypted v' = rv_encrypted v" "remainbuf s1 = remainbuf s"
    using assms(1,4) by (auto simp: read_amounts_def Let_def remainbuf_def split: if_splits prod.splits)
  have n: "0 \<le> ?n" "int (tp_data_num (tp s)) + ?n \<le> int (tp_total_num (tp s))" using assms(5) o by auto
  have kd: "k \<le> ?n" "d \<le> ?n"
    and pos: "something blocksize v nb \<Longrightarrow> tp_data_num (tp s) < tp_total_num (tp s) \<Longrightarrow> 0 < k \<or> 0 < d"
    and enc: "0 < d \<Longrightarrow> rv_encrypted v \<and> \<not> rv_etm v"
  proof -
    have "k \<le> ?n \<and> d \<le> ?n \<and> (something blocksize v nb \<longrightarrow> tp_data_num (tp s) < tp_total_num (tp s) \<longrightarrow> 0 < k \<or> 0 < d) \<and>
        (0 < d \<longrightarrow> rv_encrypted v \<and> \<not> rv_etm v)"
    proof (cases "rv_encrypted v \<and> \<not> rv_etm v")
      case True
      obtain fl where "read_decrypt_amount blocksize v ?n s = (k, d, fl)"
        using assms(1,4) am True by (auto simp: read_amounts_def Let_def split: if_splits prod.splits)
      note b = decrypt_amount_bounds [OF this n(1) assms(7) n(2)]
      have "something blocksize v nb \<Longrightarrow> tp_data_num (tp s) < tp_total_num (tp s) \<Longrightarrow>
        int blocksize \<le> ?n \<or> tp_data_num (tp s) < tp_total_num (tp s) \<and> 0 < ?n \<and>
          int (tp_data_num (tp s)) + ?n = int (tp_total_num (tp s))"
        using True by (auto simp: something_def)
      then show ?thesis using b True by blast
    next
      case False
      then have "k = ?n" "d = 0" using assms(1,4) am by (auto simp: read_amounts_def Let_def split: if_splits)
      then show ?thesis using n assms(7) False by (auto simp: something_def)
    qed
    then show "k \<le> ?n" "d \<le> ?n" "something blocksize v nb \<Longrightarrow> tp_data_num (tp s) < tp_total_num (tp s) \<Longrightarrow> 0 < k \<or> 0 < d"
      "0 < d \<Longrightarrow> rv_encrypted v \<and> \<not> rv_etm v" by blast+
  qed
  have dec: "decrypted v' s1 d = nat d"
    using enc assms(4) t still_flag [OF t(2)] by (auto simp: decrypted_def rv_full_def)
  note c = read_consume_steps [OF assms(2), unfolded am list.sel nth_Cons_Suc nth_Cons_0 One_nat_def dec]
  define m where "m = nat d + nat (k - int (nat d))"
  have "int m \<le> ?n" using kd n unfolding m_def by auto
  moreover have eq: "tp_data_num (tp s2) = tp_data_num (tp s) + m" "tp_total_num (tp s2) = tp_total_num (tp s)"
    "remainbuf s2 \<le> remainbuf s - m"
    using c t by (simp_all add: m_def)
  ultimately have m: "tp_data_num (tp s2) \<le> tp_total_num (tp s2)" using n by linarith
  have f: "\<not> rv_full v' s2" using assms(4) rv_full_still [of s s2 v' v] c t by (auto intro: still_trans)
  show ?thesis
  proof (intro conjI impI)
    show "still s s2" using c t by (auto intro: still_trans)
    show "remainbuf s2 \<le> remainbuf s" using eq by linarith
    show "rv_encrypted v' = rv_encrypted v" using t by simp
  next
    assume "tp_total_num (tp s2) \<noteq> tp_data_num (tp s2)"
    then show "packet_open v' s2" using f m eq o by (simp add: packet_open_def)
  next
    assume ne: "tp_total_num (tp s2) \<noteq> tp_data_num (tp s2)" and some: "something blocksize v nb"
    have "tp_data_num (tp s) < tp_total_num (tp s)" using ne m eq by linarith
    then have "0 < m" using pos [OF some] by (auto simp: m_def)
    moreover have "0 < remainbuf s" using some assms(6,7) by (auto simp: something_def)
    ultimately show "remainbuf s2 < remainbuf s" using eq by linarith
  qed
qed

lemma setup_steps:
  assumes "read_setup v s = (bs, v', s')" "ciphers_ok s"
  shows "0 < bs \<and> tp s' = tp s \<and> still s s' \<and> rv_encrypted v' = (rv_encrypted v \<and> has_st SSH2_STATE_NEWKEYS s)"
  using assms by (auto simp: read_setup_def ciphers_ok_def cipher_ok_def Let_def split: if_splits option.splits)

lemma refill_steps:
  assumes "read_refill bs s = (None, s')"
  shows "st s' = st s \<and> crypt (remote s') = crypt (remote s) \<and> tp_total_num (tp s') = tp_total_num (tp s) \<and>
    tp_data_num (tp s') = tp_data_num (tp s) \<and>
    (read_measure s' < read_measure s \<or> still s s' \<and> tp s' = tp s \<and> bs \<le> remainbuf s)"
proof (cases "remainbuf s < bs \<or> CRYPT_FLAG_R s SSH2_CRYPT_FLAG_REQUIRES_FULL_PACKET \<and> tp_total_num (tp s) > remainbuf s")
  case True
  define s0 where "s0 = upd_tp (\<lambda>p. p\<lparr>tp_buf := drop (tp_readidx p) (tp_buf p), tp_readidx := 0\<rparr>)
    (c_assert (tp_readidx (tp s) \<le> length (tp_buf (tp s))) s)"
  have s0: "still s s0" "remainbuf s0 = remainbuf s" "tp_total_num (tp s0) = tp_total_num (tp s)"
    "tp_data_num (tp s0) = tp_data_num (tp s)" "length (tp_buf (tp s0)) = remainbuf s" "tp_readidx (tp s0) = 0"
    by (simp_all add: s0_def remainbuf_def)
  obtain n bs' t where r: "ssh2_recv (PACKETBUFSIZE - remainbuf s0) s0 = (n, bs', t)" using prod_cases3 by blast
  have pos: "0 < n" and s': "s' = upd_tp (\<lambda>p. p\<lparr>tp_buf := tp_buf p @ bs'\<rparr>) t"
    using assms True r by (auto simp: read_refill_def s0_def Let_def split: if_splits)
  moreover have t: "tp t = tp s0" "st t = st s0" "remote t = remote s0"
    "0 < n \<Longrightarrow> 0 < length bs' \<and> length bs' + script_size (sock_in t) \<le> script_size (sock_in s0)"
    using r by (auto simp: ssh2_recv_def split: list.splits recv_event.splits if_splits)
  moreover have eqs: "sock_in s0 = sock_in s" "st s0 = st s" "crypt (remote s0) = crypt (remote s)"
    using s0(1) by (simp_all add: still_def)
  moreover have "read_measure s' < read_measure s"
  proof -
    have "remainbuf s' = remainbuf s + length bs'" "script_size (sock_in s') = script_size (sock_in t)"
      using s' t(1) s0 by (simp_all add: remainbuf_def upd_tp_def)
    moreover have "0 < length bs'" "length bs' + script_size (sock_in t) \<le> script_size (sock_in s)"
      using pos t(4) eqs(1) by simp_all
    ultimately show ?thesis unfolding read_measure_def by linarith
  qed
  ultimately show ?thesis using s0 by (simp add: upd_tp_def)
next
  case False
  then have "s' = c_assert (tp_readidx (tp s) \<le> length (tp_buf (tp s))) s"
    using assms by (auto simp: read_refill_def Let_def)
  then show ?thesis using False by (auto simp: still_def c_assert_def set_fault_def)
qed

lemma total_one: "read_total v block t = (None, ns, u) \<Longrightarrow> \<exists>n. ns = [n]"
  by (simp_all only: read_total_def bad_read_def Let_def prod.inject option.distinct simp_thms split: if_split_asm) blast+

lemma alloc_block_steps:
  assumes "read_alloc bs v block n nb s = (None, ns, s')"
  shows "still s s' \<and> remainbuf s' = remainbuf s \<and> tp_total_num (tp s') = n \<and> 0 < n \<and>
    (if rv_full v s then ns = [nb] \<and> tp_data_num (tp s') = 0
     else tp_data_num (tp s') \<le> n \<and> ns = [if rv_etm v then nb else nb - int bs])"
proof -
  obtain ok t where a: "ssh2_alloc s = (ok, t)" by fastforce
  note t = tp_alloc [OF a]
  have f: "rv_full v t = rv_full v s" using rv_full_still [of s t v v] t by simp
  show ?thesis
    using assms t f
    by (auto simp: read_alloc_def a bad_read_def Let_def remainbuf_def split: if_splits)
qed

lemma remainbuf_lengths:
  "remainbuf (upd_tp (\<lambda>p. p\<lparr>tp_padding_length := a\<rparr>) s) = remainbuf s"
  "remainbuf (upd_tp (\<lambda>p. p\<lparr>tp_packet_length := c\<rparr>) s) = remainbuf s"
  "remainbuf (upd_tp (\<lambda>p. p\<lparr>tp_padding_length := a, tp_packet_length := c\<rparr>) s) = remainbuf s"
  by (simp_all add: remainbuf_def)

lemma total_steps:
  "still s (snd (snd (read_total v block s)))" "remainbuf (snd (snd (read_total v block s))) = remainbuf s"
  by (simp_all only: read_total_def bad_read_def Let_def if_distrib [of snd] snd_conv if_distrib [of "still s"]
      if_distrib [of remainbuf] remainbuf_lengths still_upd still_refl if_cancel)

lemma total_full:
  assumes "read_total v block s = (None, [n], s')" "rv_full v s"
  shows "4 < n"
proof -
  have l: "tp_packet_length (tp (upd_tp (\<lambda>p. p\<lparr>tp_packet_length := x\<rparr>) s)) = x" for x by simp
  have "\<not> ssh2_ntohu32 block < 1" "n = 4 + unat (ssh2_ntohu32 block) + rv_mac_len v + rv_auth_len v"
    using assms by (simp_all only: read_total_def bad_read_def Let_def simp_thms if_False l prod.inject
        option.simps list.inject split: if_split_asm)
  then show ?thesis by (simp add: word_less_nat_alt)
qed

lemma header_steps:
  assumes "read_header bs v (int (remainbuf s)) s = (None, ns, s')" "0 < bs" "ciphers_ok s"
    and "rv_encrypted v \<Longrightarrow> has_st SSH2_STATE_NEWKEYS s"
  shows "still s s' \<and> remainbuf s' \<le> remainbuf s \<and> packet_open v s' \<and> 0 \<le> hd ns \<and> hd ns \<le> int (remainbuf s') \<and>
    (remainbuf s' < remainbuf s \<or> something bs v (hd ns))"
proof -
  have nb: "(if rv_etm v then 4 else bs) \<le> remainbuf s"
    using assms(1) by (auto simp: read_header_def bad_read_def split: if_splits)
  obtain r block t where b: "read_first_block bs v s = (r, block, t)" using prod_cases3 by blast
  have r: "r = None" using assms(1) b nb by (auto simp: read_header_def split: option.splits if_splits)
  obtain r2 ts u where t: "read_total v block t = (r2, ts, u)" using prod_cases3 by blast
  obtain tn where tot: "r2 = None" "ts = [tn]" "read_alloc bs v block tn (int (remainbuf s)) u = (None, ns, s')"
    using assms(1) b r t nb total_one [where v = v and block = block and t = t and ns = ts and u = u]
    by (auto simp: read_header_def split: option.splits list.splits if_splits)
  have u: "still t u" "remainbuf u = remainbuf t" "rv_full v t \<Longrightarrow> 4 < tn"
    using total_steps(1) [of t v block] total_steps(2) [of v block t] total_full [of v block t tn u] t tot(1,2) by simp_all
  have full: "rv_full v s \<longleftrightarrow> rv_encrypted v \<and> (\<exists>m g. crypt (remote s) = Some m \<and> cm_get_len m = Some g)"
    using assms(3,4) by (auto simp: rv_full_def CRYPT_FLAG_R_def ciphers_ok_def cipher_ok_def full_cipher_def split: option.splits)
  have first: "still s t" "remainbuf t = (if rv_etm v \<or> rv_full v s then remainbuf s else remainbuf s - bs)"
    using b r unfolding full
    by (auto simp: read_first_block_def bad_read_def Let_def remainbuf_def rv_etm_def dest!: transport_decrypt_keeps
        split: if_splits option.splits prod.splits)
  note a = alloc_block_steps [OF tot(3)]
  have f: "rv_full v u = rv_full v s" "rv_full v s' = rv_full v s"
    using rv_full_still [of s u v v] rv_full_still [of s s' v v] a u(1) first(1) by (auto intro: still_trans)
  have st: "still s s'" using a u(1) first(1) by (auto intro: still_trans)
  show ?thesis
    using a u first nb f st assms(2) rv_full_still [of s t v v] by (auto simp: packet_open_def something_def split: if_splits)
qed

text \<open>At the head of the loop no packet is open, or one of which something is missing.\<close>

definition head_ok :: "read_vars \<Rightarrow> session \<Rightarrow> bool" where
  "head_ok v s \<longleftrightarrow> tp_total_num (tp s) = 0 \<or>
     packet_open (v\<lparr>rv_encrypted := rv_encrypted v \<and> has_st SSH2_STATE_NEWKEYS s\<rparr>) s"

lemma packet_open_cong:
  "still s s' \<Longrightarrow> rv_encrypted v' = rv_encrypted v \<Longrightarrow> tp_total_num (tp s') = tp_total_num (tp s) \<Longrightarrow>
   tp_data_num (tp s') = tp_data_num (tp s) \<Longrightarrow> packet_open v' s' = packet_open v s"
  using rv_full_still [of s s' v' v] by (simp add: packet_open_def)

lemma read_iter_progress:
  assumes "read_iter padd v s = (Inr v', s')" "ciphers_ok s" "head_ok v s"
  shows "ciphers_ok s' \<and> head_ok v' s' \<and> read_measure s' < read_measure s"
proof -
  obtain bs w a where w: "read_setup v s = (bs, w, a)" using prod_cases3 by blast
  note su = setup_steps [OF w assms(2)]
  obtain b where b: "read_refill bs a = (None, b)"
    using assms(1) w by (auto simp: read_iter_def split: if_splits prod.splits option.splits)
  note re = refill_steps [OF b]
  have cb: "ciphers_ok b" "has_st SSH2_STATE_NEWKEYS b = has_st SSH2_STATE_NEWKEYS s"
    "CRYPT_FLAG_R b = CRYPT_FLAG_R s"
    using assms(2) su re by (auto simp: ciphers_ok_def has_st_def still_def CRYPT_FLAG_R_def fun_eq_iff)
  have open_b: "packet_open w b" if "tp_total_num (tp b) \<noteq> 0"
    using assms(3) that su re cb(3) by (auto simp: head_ok_def packet_open_def rv_full_def split: if_splits)
  have mb: "read_measure b < read_measure s \<or> sock_in b = sock_in s \<and> remainbuf b = remainbuf s \<and> bs \<le> remainbuf b"
    using re su by (auto simp: still_def read_measure_def remainbuf_def)
  obtain ns c where c: "(if tp_total_num (tp b) = 0 then read_header bs w (int (remainbuf b)) b else (None, [int (remainbuf b)], b)) = (None, ns, c)"
    using assms(1) w b by (auto simp: read_iter_def split: if_splits prod.splits option.splits)
  have c_ok: "still b c \<and> remainbuf c \<le> remainbuf b \<and> packet_open w c \<and> 0 \<le> hd ns \<and> hd ns \<le> int (remainbuf c) \<and>
      (bs \<le> remainbuf b \<longrightarrow> remainbuf c < remainbuf b \<or> something bs w (hd ns))"
  proof (cases "tp_total_num (tp b) = 0")
    case True
    then have "read_header bs w (int (remainbuf b)) b = (None, ns, c)" using c by simp
    from header_steps [OF this] show ?thesis using su cb by auto
  next
    case False
    then show ?thesis using c open_b by (auto simp: something_def)
  qed
  obtain am u d where d: "read_amounts bs w (hd ns) c = (None, am, u, d)"
    using assms(1) w b c by (auto simp: read_iter_def split: if_splits prod.splits option.splits)
  obtain e where e: "read_consume u (hd am) (am ! 1) d = (None, e)" and out: "v' = u" "s' = e"
    and ne: "tp_total_num (tp e) \<noteq> tp_data_num (tp e)"
    using assms(1) w b c d by (auto simp: read_iter_def split: if_splits prod.splits option.splits)
  have cc: "ciphers_ok c" using c_ok cb(1) still_ciphers by blast
  have nf: "\<not> rv_full w c" using round_full [OF d e _ _ cc] c_ok ne by blast
  have part: "still c e \<and> remainbuf e \<le> remainbuf c \<and> rv_encrypted u = rv_encrypted w \<and> packet_open u e \<and>
      (something bs w (hd ns) \<longrightarrow> remainbuf e < remainbuf c)"
    using round_part [OF d e _ nf] c_ok su ne by auto
  have be: "still b e" using c_ok part by (auto intro: still_trans)
  have "ciphers_ok s'" using be cb(1) still_ciphers out by blast
  moreover have "has_st SSH2_STATE_NEWKEYS e = has_st SSH2_STATE_NEWKEYS s" using be cb(2) by (simp add: still_def has_st_def)
  then have "u\<lparr>rv_encrypted := rv_encrypted u \<and> has_st SSH2_STATE_NEWKEYS e\<rparr> = u" using part su by auto
  then have "head_ok v' s'" using part out by (simp add: head_ok_def)
  moreover have "read_measure e < read_measure s"
    using mb
  proof
    assume "read_measure b < read_measure s"
    moreover have "read_measure e \<le> read_measure b" using part c_ok be by (simp add: read_measure_def still_def)
    ultimately show ?thesis by simp
  next
    assume m: "sock_in b = sock_in s \<and> remainbuf b = remainbuf s \<and> bs \<le> remainbuf b"
    then have "remainbuf e < remainbuf s" using part c_ok by linarith
    then show ?thesis using m be by (simp add: read_measure_def still_def)
  qed
  ultimately show ?thesis using out by simp
qed

lemma read_loop_fuel:
  assumes "ciphers_ok s" "head_ok v s" "read_measure s < n"
  shows "read_loop padd n v s = read_loop padd (Suc (read_measure s)) v s"
  using assms
proof (induction "read_measure s" arbitrary: n v s rule: less_induct)
  case less
  obtain k where n: "n = Suc k" using less.prems(3) by (cases n) auto
  show ?case
  proof (cases "read_iter padd v s")
    case (Pair q t)
    show ?thesis
    proof (cases q)
      case (Inl rc)
      then show ?thesis using Pair n by simp
    next
      case (Inr v')
      note p = read_iter_progress [OF Pair [unfolded Inr] less.prems(1,2)]
      have "read_loop padd k v' t = read_loop padd (Suc (read_measure t)) v' t"
        using p less.prems(3) n by (intro less.hyps) auto
      moreover have "read_loop padd (read_measure s) v' t = read_loop padd (Suc (read_measure t)) v' t"
        using p by (intro less.hyps) auto
      ultimately show ?thesis using Pair Inr n by simp
    qed
  qed
qed

subsection \<open>The loop without a bound\<close>

text \<open>What the loop of the C code returns, if it returns.\<close>

inductive loop_returns :: "packet_handler \<Rightarrow> read_vars \<Rightarrow> session \<Rightarrow> rc \<times> session \<Rightarrow> bool" where
  loop_exit: "read_iter padd v s = (Inl rc, s') \<Longrightarrow> loop_returns padd v s (rc, s')"
| loop_next: "read_iter padd v s = (Inr v', t) \<Longrightarrow> loop_returns padd v' t r \<Longrightarrow> loop_returns padd v s r"

lemma read_loop_returns:
  assumes "ciphers_ok s" "head_ok v s"
  shows "loop_returns padd v s (read_loop padd (Suc (read_measure s)) v s)"
  using assms
proof (induction "read_measure s" arbitrary: v s rule: less_induct)
  case less
  show ?case
  proof (cases "read_iter padd v s")
    case (Pair q t)
    show ?thesis
    proof (cases q)
      case (Inl rc)
      then show ?thesis using Pair by (simp add: loop_exit)
    next
      case (Inr v')
      note p = read_iter_progress [OF Pair [unfolded Inr] less.prems]
      have "loop_returns padd v' t (read_loop padd (Suc (read_measure t)) v' t)" using p by (intro less.hyps) auto
      moreover have "read_loop padd (read_measure s) v' t = read_loop padd (Suc (read_measure t)) v' t"
        using p by (intro read_loop_fuel) auto
      ultimately show ?thesis using Pair Inr by (auto intro: loop_next)
    qed
  qed
qed

text \<open>
  C13. The loop of \<open>ssh2_transport_read\<close>, which has no bound of its own, returns: with every cipher of the
  library, whatever the socket delivers and whatever the packet handler does.  The model's bound is never used up.
\<close>

theorem transport_read_loop_ends:
  assumes "has_st SSH2_STATE_NEWKEYS s \<Longrightarrow> crypt (remote s) \<noteq> None"
    and "\<And>m. crypt (remote s) = Some m \<Longrightarrow> m \<in> set (ssh2_crypt_methods b)"
    and "tp_total_num (tp s) = 0 \<or> packet_open (read_vars_0\<lparr>rv_encrypted := has_st SSH2_STATE_NEWKEYS s\<rparr>) s"
  shows "loop_returns padd read_vars_0 s (read_loop padd (Suc (read_measure s)) read_vars_0 s)"
proof (rule read_loop_returns)
  show "ciphers_ok s" using assms(1,2) crypt_methods_ok by (auto simp: ciphers_ok_def)
  show "head_ok read_vars_0 s" using assms(3) by (simp add: head_ok_def read_vars_0_def)
qed

definition chacha_session :: session where
  "chacha_session = bare_session\<lparr>st := SSH2_STATE_NEWKEYS,
     remote := endpoint_0\<lparr>crypt := Some crypt_method_chacha20_poly1305_openssh\<rparr>,
     sock_in := [Recv_bytes [1, 2, 3], Recv_bytes [4, 5, 6, 7, 8]]\<rparr>"

theorem transport_read_loop_ends_witness:
  "\<exists>r. loop_returns (\<lambda>b n m q s. (0, s)) read_vars_0 chacha_session r"
proof -
  have "m \<in> set (ssh2_crypt_methods b)" if "crypt (remote chacha_session) = Some m" for m b
    using that by (simp add: chacha_session_def ssh2_crypt_methods_def)
  moreover have "crypt (remote chacha_session) \<noteq> None" "tp_total_num (tp chacha_session) = 0"
    by (simp_all add: chacha_session_def bare_session_def session_init_defs)
  ultimately show ?thesis using transport_read_loop_ends [of chacha_session] by blast
qed

end
