(* ===== verification/KexLow.thy ===== *)
theory KexLow
  imports Methods
begin

text \<open>
  The clean-up functions of the key exchange methods (\<open>kex.c\<close>), which end an exchange of keys and which
  \<open>ssh2_kex_exchange\<close> calls before it starts another one.  Freeing a pointer makes it \<open>None\<close>.
\<close>

definition kex_diffie_hellman_state_cleanup :: "kmdhgGPshakex_state \<Rightarrow> kmdhgGPshakex_state" where
  "kex_diffie_hellman_state_cleanup xs =
     xs\<lparr>xs_x := [], xs_e_packet := None, xs_k_value := None, xs_state := NB_idle\<rparr>"

definition kex_diffie_hellman_cleanup :: "key_exchange_state_low \<Rightarrow> key_exchange_state_low" where
  "kex_diffie_hellman_cleanup lo =
     (let lo = (if lo_state lo \<noteq> NB_idle then lo\<lparr>lo_p := 0, lo_g := 0, lo_data := None, lo_state := NB_idle\<rparr> else lo)
      in if xs_state (lo_exchange lo) \<noteq> NB_idle
         then lo\<lparr>lo_exchange := kex_diffie_hellman_state_cleanup (lo_exchange lo)\<rparr> else lo)"

definition kex_ecdh_exchange_state_cleanup :: "kmdhgGPshakex_state \<Rightarrow> kmdhgGPshakex_state" where
  "kex_ecdh_exchange_state_cleanup xs = xs\<lparr>xs_k_value := None, xs_state := NB_idle\<rparr>"

text \<open>What the four functions for elliptic curves end with.\<close>

definition ec_cleanup :: "key_exchange_state_low \<Rightarrow> key_exchange_state_low" where
  "ec_cleanup lo =
     (let lo = lo\<lparr>lo_data := None, lo_state := NB_idle\<rparr>
      in if xs_state (lo_exchange lo) \<noteq> NB_idle
         then lo\<lparr>lo_exchange := kex_ecdh_exchange_state_cleanup (lo_exchange lo)\<rparr> else lo)"

definition kex_method_ecdh_cleanup :: "key_exchange_state_low \<Rightarrow> key_exchange_state_low" where
  "kex_method_ecdh_cleanup lo = ec_cleanup (lo\<lparr>lo_public_key_oct := None, lo_private_key := None\<rparr>)"

definition kex_method_mlkem_nistp_cleanup :: "key_exchange_state_low \<Rightarrow> key_exchange_state_low" where
  "kex_method_mlkem_nistp_cleanup lo =
     ec_cleanup (lo\<lparr>lo_public_key_oct := None, lo_private_key := None, lo_mlkem_public_key := None,
       lo_mlkem_private_key := None\<rparr>)"

definition kex_method_curve25519_cleanup :: "key_exchange_state_low \<Rightarrow> key_exchange_state_low" where
  "kex_method_curve25519_cleanup lo =
     ec_cleanup (lo\<lparr>lo_curve25519_public_key := None, lo_curve25519_private_key := None\<rparr>)"

definition kex_method_mlkem768x25519_cleanup :: "key_exchange_state_low \<Rightarrow> key_exchange_state_low" where
  "kex_method_mlkem768x25519_cleanup lo =
     ec_cleanup (lo\<lparr>lo_curve25519_public_key := None, lo_curve25519_private_key := None,
       lo_mlkem_public_key := None, lo_mlkem_private_key := None\<rparr>)"

text \<open>Which family a method of the table belongs to.\<close>

definition kex_is_mlkem_x25519 :: "bytes \<Rightarrow> bool" where
  "kex_is_mlkem_x25519 n \<longleftrightarrow> n = str ''mlkem768x25519-sha256''"

definition kex_is_mlkem_nistp :: "bytes \<Rightarrow> bool" where
  "kex_is_mlkem_nistp n \<longleftrightarrow> n = str ''mlkem768nistp256-sha256'' \<or> n = str ''mlkem1024nistp384-sha384''"

definition kex_is_curve25519 :: "bytes \<Rightarrow> bool" where
  "kex_is_curve25519 n \<longleftrightarrow> n = str ''curve25519-sha256'' \<or> n = str ''curve25519-sha256@libssh.org''"

definition kex_is_ecdh :: "bytes \<Rightarrow> bool" where
  "kex_is_ecdh n \<longleftrightarrow> n = str ''ecdh-sha2-nistp256'' \<or> n = str ''ecdh-sha2-nistp384'' \<or> n = str ''ecdh-sha2-nistp521''"

text \<open>The \<open>cleanup\<close> entry; all other methods exchange keys by Diffie-Hellman.\<close>

definition kex_cleanup :: "kex_method \<Rightarrow> key_exchange_state_low \<Rightarrow> key_exchange_state_low" where
  "kex_cleanup m lo =
     (if \<not> km_cleanup m then lo
      else if kex_is_mlkem_x25519 (km_name m) then kex_method_mlkem768x25519_cleanup lo
      else if kex_is_mlkem_nistp (km_name m) then kex_method_mlkem_nistp_cleanup lo
      else if kex_is_curve25519 (km_name m) then kex_method_curve25519_cleanup lo
      else if kex_is_ecdh (km_name m) then kex_method_ecdh_cleanup lo
      else kex_diffie_hellman_cleanup lo)"

end
