(* ===== verification/KexNeg.thy ===== *)
theory KexNeg
  imports KexLow Transport
begin

text \<open>
  Negotiation of the algorithms and the course of a key exchange (\<open>kex.c\<close>): the KEXINIT message, the
  choice of every method from the two sides' lists, \<open>ssh2_kex_exchange\<close>, and the preferences set through
  \<open>libssh2_session_method_pref\<close>.  A preference string is a byte list without NUL.
\<close>

unbundle bit_operations_syntax

abbreviation (input) comma :: u8 where "comma \<equiv> 44"

abbreviation (input) LIBSSH2_ERROR_KEX_FAILURE :: int where "LIBSSH2_ERROR_KEX_FAILURE \<equiv> - 5"
abbreviation (input) LIBSSH2_ERROR_KEY_EXCHANGE_FAILURE :: int where
  "LIBSSH2_ERROR_KEY_EXCHANGE_FAILURE \<equiv> - 8"

subsection \<open>The KEXINIT message\<close>

fun kex_method_strlen_loop :: "nat \<Rightarrow> bytes list \<Rightarrow> nat" where
  "kex_method_strlen_loop len [] = len"
| "kex_method_strlen_loop len (n # ns) = kex_method_strlen_loop (len + length n + 1) ns"

definition kex_method_strlen :: "bytes list \<Rightarrow> nat" where
  "kex_method_strlen method = (if method = [] then 0 else kex_method_strlen_loop 0 method - 1)"

text \<open>
  A block with the position of the next store; \<open>None\<close> once a store went outside the block.
\<close>

type_synonym wbuf = "(bytes \<times> nat) option"

definition wput :: "bytes \<Rightarrow> wbuf \<Rightarrow> wbuf" where
  "wput bs w =
     (case w of
        None \<Rightarrow> None
      | Some (mem, n) \<Rightarrow>
          if n + length bs \<le> length mem then Some (mem_put n bs mem, n + length bs) else None)"

definition wseek :: "nat \<Rightarrow> wbuf \<Rightarrow> wbuf" where
  "wseek n w = map_option (\<lambda>(mem, _). (mem, n)) w"

definition wpos :: "wbuf \<Rightarrow> nat" where
  "wpos w = (case w of None \<Rightarrow> 0 | Some (_, n) \<Rightarrow> n)"

fun kex_method_list_loop :: "bytes list \<Rightarrow> wbuf \<Rightarrow> wbuf" where
  "kex_method_list_loop [] w = w"
| "kex_method_list_loop (n # ns) w = kex_method_list_loop ns (wput [comma] (wput n w))"

text \<open>
  Every name is followed by a comma, the last one too: that byte is behind the list, and the caller,
  which only advances by the returned length, writes over it.
\<close>

definition kex_method_list :: "u32 \<Rightarrow> bytes list \<Rightarrow> wbuf \<Rightarrow> wbuf" where
  "kex_method_list list_strlen method w =
     (let w' = kex_method_list_loop method (wput (ssh2_htonu32 list_strlen) w)
      in wseek (wpos w + (if method = [] then 4 else unat list_strlen + 4)) w')"

definition KEX_METHOD_PREFS_LEN :: "bytes option \<Rightarrow> bytes list \<Rightarrow> u32" where
  "KEX_METHOD_PREFS_LEN prefvar defaultvar =
     of_nat (case prefvar of Some p \<Rightarrow> length p | None \<Rightarrow> kex_method_strlen defaultvar)"

definition KEX_METHOD_PREFS_STR :: "u32 \<Rightarrow> bytes option \<Rightarrow> bytes list \<Rightarrow> wbuf \<Rightarrow> wbuf" where
  "KEX_METHOD_PREFS_STR prefvarlen prefvar defaultvar w =
     (case prefvar of
        Some p \<Rightarrow> wput (take (unat prefvarlen) p) (wput (ssh2_htonu32 prefvarlen) w)
      | None \<Rightarrow> kex_method_list prefvarlen defaultvar w)"

text \<open>The ten lists, with the variable and the default of each.\<close>

definition kexinit_lists :: "build \<Rightarrow> session \<Rightarrow> (bytes option \<times> bytes list) list" where
  "kexinit_lists b s =
     [(kex_prefs s, map km_name (kex_methods b)),
      (hostkey_prefs s, map hm_name (ssh2_hostkey_methods b)),
      (crypt_prefs (local s), map cm_name (ssh2_crypt_methods b)),
      (crypt_prefs (remote s), map cm_name (ssh2_crypt_methods b)),
      (mac_prefs (local s), map mm_name (ssh2_mac_methods b)),
      (mac_prefs (remote s), map mm_name (ssh2_mac_methods b)),
      (comp_prefs (local s), map pm_name (ssh2_comp_methods b s)),
      (comp_prefs (remote s), map pm_name (ssh2_comp_methods b s)),
      (lang_prefs (local s), []),
      (lang_prefs (remote s), [])]"

definition kexinit_len :: "(bytes option \<times> bytes list) list \<Rightarrow> nat" where
  "kexinit_len ls = 62 + sum_list (map (\<lambda>(p, d). unat (KEX_METHOD_PREFS_LEN p d)) ls)"

definition kexinit_data_of :: "bytes \<Rightarrow> (bytes option \<times> bytes list) list \<Rightarrow> wbuf" where
  "kexinit_data_of cookie ls =
     (let w = wput [20] (Some (replicate (kexinit_len ls) 0, 0));
          w = wput cookie w;
          w = fold (\<lambda>(p, d). KEX_METHOD_PREFS_STR (KEX_METHOD_PREFS_LEN p d) p d) ls w;
          w = wput [0] w
      in wput (ssh2_htonu32 0) w)"

text \<open>What follows the construction: sending, and keeping the message for the exchange hash.\<close>

definition kex_init_send :: "(session \<Rightarrow> rc \<times> session) \<Rightarrow> bytes \<Rightarrow> session \<Rightarrow> rc \<times> session" where
  "kex_init_send kx data s =
     (case ssh2_transport_send kx (''kexinit_data'', 0) data [] s of (rc, s) \<Rightarrow>
        if rc = LIBSSH2_ERROR_EAGAIN then (rc, s\<lparr>kexinit_data := Some data\<rparr>)
        else if rc \<noteq> 0 then ssh2_err rc (s\<lparr>kexinit_state := NB_idle\<rparr>)
        else (0, upd_local (\<lambda>e. e\<lparr>kexinit := Some data\<rparr>) (s\<lparr>kexinit_state := NB_idle\<rparr>)))"

definition kex_init :: "build \<Rightarrow> (session \<Rightarrow> rc \<times> session) \<Rightarrow> session \<Rightarrow> rc \<times> session" where
  "kex_init b kx s =
     (if kexinit_state s = NB_idle then
        (case ssh2_alloc s of (ok, s) \<Rightarrow>
           if \<not> ok then ssh2_err LIBSSH2_ERROR_ALLOC s
           else
             (case ssh2_random 16 s of
                (None, s) \<Rightarrow> ssh2_err LIBSSH2_ERROR_RANDGEN s
              | (Some cookie, s) \<Rightarrow>
                  (case kexinit_data_of cookie (kexinit_lists b s) of
                     None \<Rightarrow> (0, set_fault s)
                   | Some (data, _) \<Rightarrow> kex_init_send kx data (s\<lparr>kexinit_state := NB_created\<rparr>))))
      else
        case kexinit_data s of
          None \<Rightarrow> (0, set_fault s)
        | Some data \<Rightarrow> kex_init_send kx data (s\<lparr>kexinit_data := None\<rparr>))"

subsection \<open>Names in lists\<close>

text \<open>
  \<open>ssh2_kex_agree_instr\<close>: the offset of the needle in the haystack, as a whole name.  The pointer \<open>s\<close> is
  the offset \<open>pos\<close>.
\<close>

definition name_here :: "bytes \<Rightarrow> bytes \<Rightarrow> nat \<Rightarrow> bool" where
  "name_here haystack needle pos \<longleftrightarrow>
     c_strncmp_eq (drop pos haystack) needle (length needle) \<and>
     (pos + length needle = length haystack \<or> chr_at haystack (pos + length needle) = comma)"

function agree_search :: "bytes \<Rightarrow> bytes \<Rightarrow> nat \<Rightarrow> nat option" where
  "agree_search haystack needle pos =
     (let s = drop pos haystack; j = length (takeWhile (\<lambda>c. c \<noteq> comma) s)
      in if j \<ge> length s then None
         else
           let left = length haystack - (pos + j)
           in if left \<ge> 1 \<and> left \<le> length haystack \<and> left > length needle
              then if name_here haystack needle (pos + j + 1) then Some (pos + j + 1)
                   else agree_search haystack needle (pos + j + 1)
              else None)"
  by pat_completeness auto
termination by (relation "measure (\<lambda>(h, n, pos). length h - pos)") auto

declare agree_search.simps [simp del]

definition ssh2_kex_agree_instr :: "bytes \<Rightarrow> bytes \<Rightarrow> nat option" where
  "ssh2_kex_agree_instr haystack needle =
     (if length haystack < length needle \<or> needle = [] then None
      else if name_here haystack needle 0 then Some 0
      else agree_search haystack needle 0)"

fun kex_get_method_by_name :: "('m \<Rightarrow> bytes) \<Rightarrow> bytes \<Rightarrow> 'm list \<Rightarrow> 'm option" where
  "kex_get_method_by_name nm name [] = None"
| "kex_get_method_by_name nm name (m # ms) =
     (if length (nm m) = length name \<and> c_strncmp_eq (nm m) name (length name) then Some m
      else kex_get_method_by_name nm name ms)"

lemma length_tl_dropWhile: "s \<noteq> [] \<Longrightarrow> length (dropWhile P s) - Suc 0 < length s"
  using length_dropWhile_le [of P s] by (cases s) (auto simp: less_Suc_eq_le split: if_splits)

subsection \<open>The two loops of every \<open>kex_agree\<close> function\<close>

text \<open>
  Along a preference string: a name the server lists is looked up; \<open>pick\<close> says what becomes of it:
  \<open>None\<close> for an unknown method (the function gives up), \<open>Some None\<close> to go on, \<open>Some (Some r)\<close> for success.
\<close>

function agree_prefs :: "bytes \<Rightarrow> (bytes \<Rightarrow> nat \<Rightarrow> 'a option option) \<Rightarrow> bytes \<Rightarrow> 'a option" where
  "agree_prefs server pick s =
     (if s = [] then None
      else
        let name = takeWhile (\<lambda>c. c \<noteq> comma) s; p = dropWhile (\<lambda>c. c \<noteq> comma) s
        in case (case ssh2_kex_agree_instr server name of None \<Rightarrow> Some None | Some q \<Rightarrow> pick name q) of
             None \<Rightarrow> None
           | Some (Some r) \<Rightarrow> Some r
           | Some None \<Rightarrow> (if p = [] then None else agree_prefs server pick (tl p)))"
  by pat_completeness auto
termination
  by (relation "measure (\<lambda>(server, pick, s). length s)") (simp_all add: length_tl_dropWhile)

declare agree_prefs.simps [simp del]

text \<open>Along the method table, when no preferences are set.\<close>

fun agree_table :: "bytes \<Rightarrow> ('m \<Rightarrow> bytes) \<Rightarrow> ('m \<Rightarrow> nat \<Rightarrow> 'a option) \<Rightarrow> 'm list \<Rightarrow> 'a option" where
  "agree_table server nm pick [] = None"
| "agree_table server nm pick (m # ms) =
     (case (case ssh2_kex_agree_instr server (nm m) of None \<Rightarrow> None | Some q \<Rightarrow> pick m q) of
        Some r \<Rightarrow> Some r
      | None \<Rightarrow> agree_table server nm pick ms)"


subsection \<open>Agreeing on each method\<close>

definition hostkey_suits :: "u32 \<Rightarrow> hostkey_method \<Rightarrow> bool" where
  "hostkey_suits kex_flags m \<longleftrightarrow>
     (kex_flags AND KEX_METHOD_FLAG_REQ_ENC_HOSTKEY = 0 \<or> hm_encrypt m) \<and>
     (kex_flags AND KEX_METHOD_FLAG_REQ_SIGN_HOSTKEY = 0 \<or> hm_sig_verify m)"

definition kex_agree_hostkey :: "build \<Rightarrow> u32 \<Rightarrow> bytes \<Rightarrow> session \<Rightarrow> rc \<times> session" where
  "kex_agree_hostkey b kex_flags server s =
     (let ms = ssh2_hostkey_methods b;
          suit = (\<lambda>m. if hostkey_suits kex_flags m then Some m else None);
          r = (case hostkey_prefs s of
                 Some prefs \<Rightarrow>
                   agree_prefs server
                     (\<lambda>name q. map_option suit (kex_get_method_by_name hm_name name ms)) prefs
               | None \<Rightarrow> agree_table server hm_name (\<lambda>m q. suit m) ms)
      in case r of Some m \<Rightarrow> (0, s\<lparr>hostkey := Some m\<rparr>) | None \<Rightarrow> (- 1, s))"

text \<open>An optimistic packet of the server is not burnt when its first method is the agreed one.\<close>

definition take_kex :: "build \<Rightarrow> bytes \<Rightarrow> session \<Rightarrow> kex_method \<Rightarrow> nat \<Rightarrow> session option" where
  "take_kex b server_hostkeys s m q =
     (case kex_agree_hostkey b (km_flags m) server_hostkeys s of (rc, s) \<Rightarrow>
        if rc = 0
        then Some (s\<lparr>kex := Some m,
               burn_optimistic_kexinit := (if burn_optimistic_kexinit s \<noteq> 0 \<and> q = 0 then 0
                                           else burn_optimistic_kexinit s)\<rparr>)
        else None)"

definition kex_agree_kex_hostkey :: "build \<Rightarrow> bytes \<Rightarrow> bytes \<Rightarrow> session \<Rightarrow> rc \<times> session" where
  "kex_agree_kex_hostkey b server server_hostkeys s =
     (let ms = kex_methods b;
          s = (if ssh2_kex_agree_instr server (str ''kex-strict-s-v00@openssh.com'') \<noteq> None
               then s\<lparr>kex_strict := True\<rparr> else s);
          r = (case kex_prefs s of
                 Some prefs \<Rightarrow>
                   agree_prefs server
                     (\<lambda>name q. map_option (\<lambda>m. take_kex b server_hostkeys s m q)
                                  (kex_get_method_by_name km_name name ms)) prefs
               | None \<Rightarrow> agree_table server km_name (take_kex b server_hostkeys s) ms)
      in case r of Some s \<Rightarrow> (0, s) | None \<Rightarrow> (- 1, s))"

definition kex_agree_crypt :: "build \<Rightarrow> bytes \<Rightarrow> endpoint_data \<Rightarrow> rc \<times> endpoint_data" where
  "kex_agree_crypt b server e =
     (let ms = ssh2_crypt_methods b;
          r = (case crypt_prefs e of
                 Some prefs \<Rightarrow>
                   agree_prefs server
                     (\<lambda>name q. map_option Some (kex_get_method_by_name cm_name name ms)) prefs
               | None \<Rightarrow> agree_table server cm_name (\<lambda>m q. Some m) ms)
      in case r of Some m \<Rightarrow> (0, e\<lparr>crypt := Some m\<rparr>) | None \<Rightarrow> (- 1, e))"

definition kex_agree_mac :: "build \<Rightarrow> bytes \<Rightarrow> endpoint_data \<Rightarrow> rc \<times> endpoint_data" where
  "kex_agree_mac b server e =
     (case (case crypt e of Some m \<Rightarrow> ssh2_mac_override b m | None \<Rightarrow> None) of
        Some override \<Rightarrow> (0, e\<lparr>mac := Some override\<rparr>)
      | None \<Rightarrow>
          (let ms = ssh2_mac_methods b;
               r = (case mac_prefs e of
                      Some prefs \<Rightarrow>
                        agree_prefs server
                          (\<lambda>name q. map_option Some (kex_get_method_by_name mm_name name ms)) prefs
                    | None \<Rightarrow> agree_table server mm_name (\<lambda>m q. Some m) ms)
           in case r of Some m \<Rightarrow> (0, e\<lparr>mac := Some m\<rparr>) | None \<Rightarrow> (- 1, e)))"

definition kex_agree_comp :: "build \<Rightarrow> session \<Rightarrow> bytes \<Rightarrow> endpoint_data \<Rightarrow> rc \<times> endpoint_data" where
  "kex_agree_comp b s server e =
     (let ms = ssh2_comp_methods b s;
          r = (case comp_prefs e of
                 Some prefs \<Rightarrow>
                   agree_prefs server
                     (\<lambda>name q. map_option Some (kex_get_method_by_name pm_name name ms)) prefs
               | None \<Rightarrow> agree_table server pm_name (\<lambda>m q. Some m) ms)
      in case r of Some m \<Rightarrow> (0, e\<lparr>comp := Some m\<rparr>) | None \<Rightarrow> (- 1, e))"

text \<open>
  \<open>kex_agree_methods\<close>: the ten lists of the server's message, its flag, then the choices in this order;
  the first that fails ends it, and what was chosen before stays.
\<close>

definition agree_local :: "(endpoint_data \<Rightarrow> rc \<times> endpoint_data) \<Rightarrow> session \<Rightarrow> rc \<times> session" where
  "agree_local f s = (case f (local s) of (rc, e) \<Rightarrow> (rc, s\<lparr>local := e\<rparr>))"

definition agree_remote :: "(endpoint_data \<Rightarrow> rc \<times> endpoint_data) \<Rightarrow> session \<Rightarrow> rc \<times> session" where
  "agree_remote f s = (case f (remote s) of (rc, e) \<Rightarrow> (rc, s\<lparr>remote := e\<rparr>))"

fun agree_steps :: "(session \<Rightarrow> rc \<times> session) list \<Rightarrow> session \<Rightarrow> rc \<times> session" where
  "agree_steps [] s = (0, s)"
| "agree_steps (f # fs) s =
     (case f s of (rc, s) \<Rightarrow> if rc \<noteq> 0 then (- 1, s) else agree_steps fs s)"

definition read_lists :: "bytes \<Rightarrow> (bytes list \<times> u8) option" where
  "read_lists data =
     (if length data < 17 then None
      else
        case get_many ssh2_get_chars 10 (advance 17 (string_buf_of data)) of
          (None, buf) \<Rightarrow> None
        | (Some ls, buf) \<Rightarrow>
            if ssh2_check_length buf 1 then Some (ls, data ! sb_ptr buf) else None)"

definition kex_agree_methods :: "build \<Rightarrow> bytes \<Rightarrow> session \<Rightarrow> rc \<times> session" where
  "kex_agree_methods b data s =
     (case read_lists data of
        None \<Rightarrow> (- 1, s)
      | Some (ls, first_follows) \<Rightarrow>
          agree_steps
            [kex_agree_kex_hostkey b (ls ! 0) (ls ! 1),
             agree_local (kex_agree_crypt b (ls ! 2)), agree_remote (kex_agree_crypt b (ls ! 3)),
             agree_local (kex_agree_mac b (ls ! 4)), agree_remote (kex_agree_mac b (ls ! 5)),
             \<lambda>s. agree_local (kex_agree_comp b s (ls ! 6)) s,
             \<lambda>s. agree_remote (kex_agree_comp b s (ls ! 7)) s]
            (s\<lparr>burn_optimistic_kexinit := ucast first_follows\<rparr>))"

subsection \<open>\<open>ssh2_kex_exchange\<close>\<close>

text \<open>
  \<open>startup_key_state\<close> is the state every caller passes.  \<open>req\<close> waits for the server's KEXINIT
  (\<open>ssh2_packet_require\<close>), \<open>xk\<close> is the agreed method's \<open>exchange_keys\<close>, \<open>kx\<close> what the transport layer
  would redirect to (it does not, while the exchange is active).
\<close>

definition set_ks :: "nb_state \<Rightarrow> session \<Rightarrow> session" where
  "set_ks x s = s\<lparr>startup_key_state := (startup_key_state s)\<lparr>ks_state := x\<rparr>\<rparr>"

definition ks :: "session \<Rightarrow> nb_state" where
  "ks s = ks_state (startup_key_state s)"

definition kex_bits_off :: "session \<Rightarrow> session" where
  "kex_bits_off s =
     clr_st SSH2_STATE_EXCHANGING_KEYS (clr_st SSH2_STATE_KEX_ACTIVE (clr_st SSH2_STATE_INITIAL_KEX s))"

text \<open>A re-exchange cleans up after the last one; \<open>dtor\<close> frees the host key.\<close>

definition kex_forget :: "session \<Rightarrow> session" where
  "kex_forget s =
     (let s = (case kex s of None \<Rightarrow> s
               | Some m \<Rightarrow> s\<lparr>startup_key_state := (startup_key_state s)\<lparr>ks_low := kex_cleanup m (ks_low (startup_key_state s))\<rparr>\<rparr>);
          s = s\<lparr>kex := None\<rparr>;
          s = (case hostkey s of None \<Rightarrow> s | Some h \<Rightarrow> if hm_dtor h then s\<lparr>server_hostkey_abstract := None\<rparr> else s)
      in s\<lparr>hostkey := None\<rparr>)"

definition kex_begin :: "bool \<Rightarrow> session \<Rightarrow> session" where
  "kex_begin reexchange s =
     (let s = set_st SSH2_STATE_KEX_ACTIVE s
      in if ks s = NB_idle then
           let s = set_st SSH2_STATE_EXCHANGING_KEYS s;
               s = (if reexchange then kex_forget s else s)
           in set_ks NB_created s
         else s)"

definition kex_oldlocal :: "session \<Rightarrow> session" where
  "kex_oldlocal s =
     (if ks s = NB_created
      then set_ks NB_sent (upd_local (\<lambda>e. e\<lparr>kexinit := None\<rparr>)
             (s\<lparr>startup_key_state := (startup_key_state s)\<lparr>ks_oldlocal := kexinit (local s)\<rparr>\<rparr>))
      else s)"

text \<open>A failure puts the old KEXINIT message back and ends the exchange.\<close>

definition kex_fail :: "session \<Rightarrow> rc \<times> session" where
  "kex_fail s =
     (LIBSSH2_ERROR_KEX_FAILURE,
      kex_bits_off (set_ks NB_idle (upd_local (\<lambda>e. e\<lparr>kexinit := ks_oldlocal (startup_key_state s)\<rparr>) s)))"

definition kex_eagain :: "session \<Rightarrow> rc \<times> session" where
  "kex_eagain s = (LIBSSH2_ERROR_EAGAIN, clr_st SSH2_STATE_KEX_ACTIVE s)"

text \<open>Sending our KEXINIT and waiting for theirs; \<open>Inl\<close> returns, \<open>Inr\<close> goes on with \<open>rc\<close>.\<close>

definition kex_kexinit :: "build \<Rightarrow> (session \<Rightarrow> rc \<times> session) \<Rightarrow>
    (session \<Rightarrow> rc \<times> bytes \<times> session) \<Rightarrow> session \<Rightarrow> (rc \<times> session) + (rc \<times> session)" where
  "kex_kexinit b kx req s =
     (let s = kex_oldlocal s;
          (retcode, s) = (if ks s = NB_sent
             then case kex_init b kx s of (rc, s) \<Rightarrow> (rc, if rc = 0 then set_ks NB_sent1 s else s)
             else (0, s))
      in if retcode = LIBSSH2_ERROR_EAGAIN then Inl (kex_eagain s)
         else if retcode \<noteq> 0 then Inl (kex_fail s)
         else if ks s = NB_sent1 then
           (case req s of (retcode, data, s) \<Rightarrow>
              if retcode = LIBSSH2_ERROR_EAGAIN then Inl (kex_eagain s)
              else if retcode \<noteq> 0 then Inl (kex_fail s)
              else
                let s = upd_remote (\<lambda>e. e\<lparr>kexinit := Some data\<rparr>) s;
                    (rc, s) = kex_agree_methods b data s
                in Inr (if rc \<noteq> 0 then LIBSSH2_ERROR_KEX_FAILURE else 0, set_ks NB_sent2 s))
         else Inr (0, s))"

definition kex_exchange_end :: "rc \<Rightarrow> session \<Rightarrow> rc \<times> session" where
  "kex_exchange_end rc s =
     (rc, set_ks NB_idle (kex_bits_off
        (upd_remote (\<lambda>e. e\<lparr>kexinit := None\<rparr>) (upd_local (\<lambda>e. e\<lparr>kexinit := None\<rparr>) s))))"

definition ssh2_kex_exchange :: "build \<Rightarrow> (session \<Rightarrow> rc \<times> session) \<Rightarrow>
    (session \<Rightarrow> rc \<times> bytes \<times> session) \<Rightarrow> (kex_method \<Rightarrow> session \<Rightarrow> rc \<times> session) \<Rightarrow> bool \<Rightarrow>
    session \<Rightarrow> rc \<times> session" where
  "ssh2_kex_exchange b kx req xk reexchange s =
     (let s = kex_begin reexchange s
      in case (if kex s = None \<or> hostkey s = None then kex_kexinit b kx req s
               else Inr (0, set_ks NB_sent2 s)) of
           Inl r \<Rightarrow> r
         | Inr (rc, s) \<Rightarrow>
             (case kex s of
                Some m \<Rightarrow>
                  if rc = 0 \<and> km_exchange_keys m \<and> ks s = NB_sent2 then
                    (case xk m s of (retcode, s) \<Rightarrow>
                       if retcode = LIBSSH2_ERROR_EAGAIN then kex_eagain s
                       else if retcode \<noteq> 0
                       then (case ssh2_err LIBSSH2_ERROR_KEY_EXCHANGE_FAILURE s of (rc, s) \<Rightarrow> kex_exchange_end rc s)
                       else kex_exchange_end 0 s)
                  else kex_exchange_end rc s
              | None \<Rightarrow> kex_exchange_end rc s))"

subsection \<open>Preferences\<close>

text \<open>
  The method types of \<open>libssh2.h\<close>.  \<open>pref_methods\<close> is the list of supported names: \<open>None\<close> for an invalid
  type, \<open>Some None\<close> for the NULL list (any name goes).
\<close>

datatype method_type = METHOD_KEX | METHOD_HOSTKEY | METHOD_CRYPT_CS | METHOD_CRYPT_SC
  | METHOD_MAC_CS | METHOD_MAC_SC | METHOD_COMP_CS | METHOD_COMP_SC | METHOD_LANG_CS | METHOD_LANG_SC
  | METHOD_SIGN_ALGO | METHOD_invalid

fun pref_methods :: "build \<Rightarrow> session \<Rightarrow> method_type \<Rightarrow> bytes list option option" where
  "pref_methods b s METHOD_KEX = Some (Some (map km_name (kex_methods b)))"
| "pref_methods b s METHOD_HOSTKEY = Some (Some (map hm_name (ssh2_hostkey_methods b)))"
| "pref_methods b s METHOD_CRYPT_CS = Some (Some (map cm_name (ssh2_crypt_methods b)))"
| "pref_methods b s METHOD_CRYPT_SC = Some (Some (map cm_name (ssh2_crypt_methods b)))"
| "pref_methods b s METHOD_MAC_CS = Some (Some (map mm_name (ssh2_mac_methods b)))"
| "pref_methods b s METHOD_MAC_SC = Some (Some (map mm_name (ssh2_mac_methods b)))"
| "pref_methods b s METHOD_COMP_CS = Some (Some (map pm_name (ssh2_comp_methods b s)))"
| "pref_methods b s METHOD_COMP_SC = Some (Some (map pm_name (ssh2_comp_methods b s)))"
| "pref_methods b s METHOD_LANG_CS = Some None"
| "pref_methods b s METHOD_LANG_SC = Some None"
| "pref_methods b s METHOD_SIGN_ALGO = Some None"
| "pref_methods b s METHOD_invalid = None"

fun set_pref :: "method_type \<Rightarrow> bytes \<Rightarrow> session \<Rightarrow> session" where
  "set_pref METHOD_KEX p s = s\<lparr>kex_prefs := Some p\<rparr>"
| "set_pref METHOD_HOSTKEY p s = s\<lparr>hostkey_prefs := Some p\<rparr>"
| "set_pref METHOD_CRYPT_CS p s = upd_local (\<lambda>e. e\<lparr>crypt_prefs := Some p\<rparr>) s"
| "set_pref METHOD_CRYPT_SC p s = upd_remote (\<lambda>e. e\<lparr>crypt_prefs := Some p\<rparr>) s"
| "set_pref METHOD_MAC_CS p s = upd_local (\<lambda>e. e\<lparr>mac_prefs := Some p\<rparr>) s"
| "set_pref METHOD_MAC_SC p s = upd_remote (\<lambda>e. e\<lparr>mac_prefs := Some p\<rparr>) s"
| "set_pref METHOD_COMP_CS p s = upd_local (\<lambda>e. e\<lparr>comp_prefs := Some p\<rparr>) s"
| "set_pref METHOD_COMP_SC p s = upd_remote (\<lambda>e. e\<lparr>comp_prefs := Some p\<rparr>) s"
| "set_pref METHOD_LANG_CS p s = upd_local (\<lambda>e. e\<lparr>lang_prefs := Some p\<rparr>) s"
| "set_pref METHOD_LANG_SC p s = upd_remote (\<lambda>e. e\<lparr>lang_prefs := Some p\<rparr>) s"
| "set_pref METHOD_SIGN_ALGO p s = s\<lparr>sign_algo_prefs := Some p\<rparr>"
| "set_pref METHOD_invalid p s = s"

text \<open>
  The loop that strips unsupported names in place: \<open>pre\<close> is what lies before \<open>s\<close>.  The last name goes with
  the comma before it.
\<close>

function strip_names :: "bytes list \<Rightarrow> bytes \<Rightarrow> bytes \<Rightarrow> bytes" where
  "strip_names mlist pre s =
     (if s = [] then pre
      else
        let name = takeWhile (\<lambda>c. c \<noteq> comma) s; p = dropWhile (\<lambda>c. c \<noteq> comma) s
        in if kex_get_method_by_name (\<lambda>n. n) name mlist = None
           then if p \<noteq> [] then strip_names mlist pre (tl p)
                else if pre \<noteq> [] then butlast pre else []
           else if p = [] then pre @ s else strip_names mlist (pre @ name @ [comma]) (tl p))"
  by pat_completeness auto
termination
  by (relation "measure (\<lambda>(mlist, pre, s). length s)") (simp_all add: length_tl_dropWhile)

declare strip_names.simps [simp del]

definition kex_extensions :: bytes where
  "kex_extensions = str ''ext-info-c,kex-strict-c-v00@openssh.com,''"

definition libssh2_session_method_pref :: "build \<Rightarrow> method_type \<Rightarrow> bytes option \<Rightarrow> session \<Rightarrow>
    rc \<times> session" where
  "libssh2_session_method_pref b t prefs s =
     (case prefs of
        None \<Rightarrow> (LIBSSH2_ERROR_BAD_USE, s)
      | Some prefs \<Rightarrow>
          (case pref_methods b s t of
             None \<Rightarrow> ssh2_err LIBSSH2_ERROR_INVAL s
           | Some mlist \<Rightarrow>
               (case ssh2_alloc s of (ok, s) \<Rightarrow>
                  if \<not> ok then ssh2_err LIBSSH2_ERROR_ALLOC s
                  else
                    let newprefs = (case mlist of None \<Rightarrow> prefs | Some ns \<Rightarrow> strip_names ns [] prefs)
                    in if newprefs = [] then ssh2_err LIBSSH2_ERROR_METHOD_NOT_SUPPORTED s
                       else if t = METHOD_KEX then
                         (case ssh2_alloc s of (ok, s) \<Rightarrow>
                            if \<not> ok then ssh2_err LIBSSH2_ERROR_ALLOC s
                            else (0, set_pref t (kex_extensions @ newprefs) s))
                       else (0, set_pref t newprefs s))))"

text \<open>\<open>libssh2_session_supported_algs\<close>; the language lists are not among its types.\<close>

definition libssh2_session_supported_algs :: "build \<Rightarrow> method_type \<Rightarrow> session \<Rightarrow>
    rc \<times> bytes list option \<times> session" where
  "libssh2_session_supported_algs b t s =
     (let fail = (\<lambda>e s. case ssh2_err e s of (rc, s) \<Rightarrow> (rc, None, s))
      in if t \<in> {METHOD_LANG_CS, METHOD_LANG_SC, METHOD_invalid}
         then fail LIBSSH2_ERROR_METHOD_NOT_SUPPORTED s
         else
           case pref_methods b s t of
             Some (Some names) \<Rightarrow>
               if names = [] then fail LIBSSH2_ERROR_INVAL s
               else (case ssh2_alloc s of (ok, s) \<Rightarrow>
                       if \<not> ok then fail LIBSSH2_ERROR_ALLOC s
                       else (int (length names), Some names, s))
           | _ \<Rightarrow> fail LIBSSH2_ERROR_INVAL s)"

end
