(* ===== verification/KexNegProps.thy ===== *)
theory KexNegProps
  imports KexNeg
begin

text \<open>
  What the negotiation guarantees: a name is found exactly when it is one of the names of the list; the
  agreed method is the first of the client's that the server lists; preferences keep the supported
  names and nothing else; the KEXINIT message fills its block and reads back.
\<close>

subsection \<open>Lists of names\<close>

text \<open>The names of a comma-separated list.\<close>

function names_of :: "bytes \<Rightarrow> bytes list" where
  "names_of s =
     (let name = takeWhile (\<lambda>c. c \<noteq> comma) s; p = dropWhile (\<lambda>c. c \<noteq> comma) s
      in if p = [] then [name] else name # names_of (tl p))"
  by pat_completeness auto
termination
proof (relation "measure length", goal_cases)
  case (2 s name p)
  then have "s \<noteq> []" by auto
  then show ?case using 2(2) length_tl_dropWhile [of s "\<lambda>c. c \<noteq> comma"] by simp
qed simp

declare names_of.simps [simp del]

definition plain_name :: "bytes \<Rightarrow> bool" where
  "plain_name n \<longleftrightarrow> n \<noteq> [] \<and> comma \<notin> set n \<and> 0 \<notin> set n"

definition after_comma :: "bytes \<Rightarrow> bytes" where
  "after_comma s = tl (dropWhile (\<lambda>c. c \<noteq> comma) s)"

lemma names_of_eq:
  "names_of s = takeWhile (\<lambda>c. c \<noteq> comma) s # (if comma \<in> set s then names_of (after_comma s) else [])"
proof -
  have "dropWhile (\<lambda>c. c \<noteq> comma) s = [] \<longleftrightarrow> comma \<notin> set s"
    by (auto simp: dropWhile_eq_Nil_conv)
  then show ?thesis by (subst names_of.simps) (cases "comma \<in> set s"; simp only: Let_def after_comma_def if_True if_False not_True_eq_False not_False_eq_True)
qed

lemma names_of_hd: "hd (names_of s) = takeWhile (\<lambda>c. c \<noteq> comma) s"
  by (subst names_of_eq) simp

lemma names_of_tl: "tl (names_of s) = (if comma \<in> set s then names_of (after_comma s) else [])"
  by (subst names_of_eq) simp

lemma names_of_ne [simp]: "names_of s \<noteq> []"
  by (subst names_of_eq) simp

lemma names_mem: "n \<in> set (names_of s) \<longleftrightarrow> hd (names_of s) = n \<or> n \<in> set (tl (names_of s))"
  by (cases "names_of s") auto

lemma after_comma_length: "comma \<in> set s \<Longrightarrow> length (after_comma s) < length s"
  using length_tl_dropWhile [of s "\<lambda>c. c \<noteq> comma"] by (cases "s = []") (simp_all add: after_comma_def)

lemma names_induct [case_names step]:
  assumes "\<And>s. (comma \<in> set s \<Longrightarrow> P (after_comma s)) \<Longrightarrow> P s"
  shows "P s"
proof (induction s rule: length_induct)
  case (1 s)
  show ?case by (rule assms) (use 1 after_comma_length in blast)
qed

lemma names_of_no_comma: "n \<in> set (names_of s) \<Longrightarrow> comma \<notin> set n"
proof (induction s rule: names_induct)
  case (step s)
  then show ?case by (subst (asm) (2) names_of_eq) (auto dest: set_takeWhileD split: if_splits)
qed

lemma names_of_length: "n \<in> set (names_of s) \<Longrightarrow> length n \<le> length s"
proof (induction s rule: names_induct)
  case (step s)
  then show ?case
    using after_comma_length [of s] length_takeWhile_le [of "\<lambda>c. c \<noteq> comma" s]
    by (subst (asm) (2) names_of_eq) (auto split: if_splits)
qed

text \<open>A name stands at the front of a list when what precedes the first comma is that name.\<close>

lemma front_name:
  assumes "comma \<notin> set n" "length n \<le> length s"
  shows "take (length n) s = n \<and> (length n = length s \<or> chr_at s (length n) = comma) \<longleftrightarrow>
    takeWhile (\<lambda>c. c \<noteq> comma) s = n"
  using assms
proof (induction n arbitrary: s)
  case Nil
  then show ?case by (cases s) auto
next
  case (Cons c n)
  then obtain d t where s: "s = d # t" by (cases s) auto
  show ?case using Cons.IH [of t] Cons.prems s by auto
qed

lemma name_here_iff:
  assumes "plain_name n" "pos + length n \<le> length h"
  shows "name_here h n pos \<longleftrightarrow> hd (names_of (drop pos h)) = n"
proof -
  have "c_strncmp_eq (drop pos h) n (length n) \<longleftrightarrow> take (length n) (drop pos h) = take (length n) n"
    using assms by (intro c_strncmp_eq_take) (auto simp: plain_name_def)
  moreover have "chr_at h (pos + length n) = chr_at (drop pos h) (length n)"
    using assms(2) by (auto simp: chr_at_def)
  moreover have "pos + length n = length h \<longleftrightarrow> length n = length (drop pos h)"
    using assms(2) by auto
  ultimately show ?thesis
    using front_name [of n "drop pos h"] assms by (auto simp: name_here_def names_of_hd plain_name_def)
qed

lemma agree_search_names:
  assumes "plain_name n" "pos \<le> length h"
  shows "agree_search h n pos \<noteq> None \<longleftrightarrow> n \<in> set (tl (names_of (drop pos h)))"
  using assms
proof (induction h n pos rule: agree_search.induct)
  case (1 h n pos)
  let ?s = "drop pos h"
  let ?j = "length (takeWhile (\<lambda>c. c \<noteq> comma) ?s)"
  have dw: "dropWhile (\<lambda>c. c \<noteq> comma) ?s = drop ?j ?s" by (rule dropWhile_eq_drop)
  have m: "comma \<in> set ?s \<longleftrightarrow> ?j < length ?s"
    by (metis (mono_tags, lifting) drop_eq_Nil dropWhile_eq_Nil_conv dw linorder_not_less)
  show ?case
  proof (cases "?j \<ge> length ?s")
    case True
    then show ?thesis
      using m by (subst agree_search.simps) (simp add: names_of_tl)
  next
    case False
    let ?q = "pos + ?j + 1"
    have j: "pos + ?j < length h" using False by simp
    have t: "tl (names_of ?s) = names_of (drop ?q h)"
      using False m by (simp add: names_of_tl after_comma_def dw tl_drop drop_Suc add.commute)
    show ?thesis
    proof (cases "length h - (pos + ?j) > length n")
      case True
      have h: "name_here h n ?q \<longleftrightarrow> hd (names_of (drop ?q h)) = n"
        using True 1(2) by (intro name_here_iff) simp_all
      have "agree_search h n pos \<noteq> None \<longleftrightarrow> name_here h n ?q \<or> agree_search h n ?q \<noteq> None"
        using False True j by (subst agree_search.simps) (auto simp: Let_def)
      moreover have "agree_search h n ?q \<noteq> None \<longleftrightarrow> n \<in> set (tl (names_of (drop ?q h)))"
        if "\<not> name_here h n ?q"
        using 1(1) [OF refl refl False refl] True j 1(2) that by (simp add: add.assoc)
      ultimately show ?thesis
        unfolding t names_mem [of n "drop ?q h"] h [symmetric] by argo
    next
      case False2: False
      have "n \<notin> set (names_of (drop ?q h))"
        using False2 names_of_length [of n "drop ?q h"] j by fastforce
      then show ?thesis using False False2 j t
        by (subst agree_search.simps) (auto simp: Let_def)
    qed
  qed
qed

lemma agree_search_pos: "agree_search h n pos = Some q \<Longrightarrow> pos < q"
proof (induction h n pos rule: agree_search.induct)
  case (1 h n pos)
  show ?case
    using 1(2) 1(1) [OF refl refl _ refl]
    by (subst (asm) agree_search.simps) (fastforce simp: Let_def split: if_splits)
qed

lemma agree_instr_names:
  assumes "plain_name n"
  shows "ssh2_kex_agree_instr h n \<noteq> None \<longleftrightarrow> n \<in> set (names_of h)"
    and "ssh2_kex_agree_instr h n = Some 0 \<longleftrightarrow> hd (names_of h) = n"
proof -
  have "(ssh2_kex_agree_instr h n \<noteq> None \<longleftrightarrow> n \<in> set (names_of h)) \<and>
    (ssh2_kex_agree_instr h n = Some 0 \<longleftrightarrow> hd (names_of h) = n)"
  proof (cases "length h < length n")
    case True
    then have "n \<notin> set (names_of h)" using names_of_length by fastforce
    moreover from this have "hd (names_of h) \<noteq> n" using names_mem by blast
    ultimately show ?thesis using True by (simp add: ssh2_kex_agree_instr_def)
  next
    case False
    have h: "name_here h n 0 \<longleftrightarrow> hd (names_of h) = n"
      using name_here_iff [OF assms, of 0 h] False by simp
    have "n \<noteq> []" using assms by (simp add: plain_name_def)
    moreover have "agree_search h n 0 \<noteq> None \<longleftrightarrow> n \<in> set (tl (names_of h))"
      using agree_search_names [OF assms, of 0 h] by simp
    ultimately show ?thesis
      using False h names_mem [of n h] agree_search_pos [of h n 0] by (auto simp: ssh2_kex_agree_instr_def)
  qed
  then show "ssh2_kex_agree_instr h n \<noteq> None \<longleftrightarrow> n \<in> set (names_of h)"
    and "ssh2_kex_agree_instr h n = Some 0 \<longleftrightarrow> hd (names_of h) = n" by blast+
qed

text \<open>
  C36. \<open>ssh2_kex_agree_instr\<close> finds a name in a comma-separated list exactly when it is one of its names
  (never as part of a longer one), and says offset 0 exactly when it is the first.
\<close>

theorem agree_instr_whole_names:
  assumes "plain_name n"
  shows "(ssh2_kex_agree_instr h n \<noteq> None \<longleftrightarrow> n \<in> set (names_of h)) \<and>
    (ssh2_kex_agree_instr h n = Some 0 \<longleftrightarrow> hd (names_of h) = n)"
  using agree_instr_names [OF assms] by simp

theorem agree_instr_whole_names_witness:
  "ssh2_kex_agree_instr (str ''aes,aes-ctr'') (str ''ctr'') = None \<and>
   ssh2_kex_agree_instr (str ''aes,aes-ctr'') (str ''aes'') = Some 0"
  using agree_instr_whole_names [of "str ''ctr''" "str ''aes,aes-ctr''"]
    agree_instr_whole_names [of "str ''aes''" "str ''aes,aes-ctr''"]
  by (simp add: plain_name_def str_def names_of_eq [of "_ # _"] after_comma_def)


subsection \<open>The method tables\<close>

lemma of_char_u8_inj: "of_char c = (of_char d :: u8) \<longleftrightarrow> c = d"
proof
  assume "of_char c = (of_char d :: u8)"
  then have "unat (of_nat (of_char c) :: u8) = unat (of_nat (of_char d) :: u8)"
    by (simp only: of_nat_of_char)
  then show "c = d" by (simp add: unat_of_nat take_bit_eq_mod)
qed simp

lemma plain_name_str [simp]:
  "plain_name (str s) \<longleftrightarrow> s \<noteq> [] \<and> list_all (\<lambda>c. c \<noteq> CHR 0x00 \<and> c \<noteq> CHR '','') s"
proof -
  have "of_char c = (0 :: u8) \<longleftrightarrow> c = CHR 0x00" "of_char c = (44 :: u8) \<longleftrightarrow> c = CHR '',''" for c
    using of_char_u8_inj [of c "CHR 0x00"] of_char_u8_inj [of c "CHR '',''"] by simp_all
  then have "0 \<in> set (str s) \<longleftrightarrow> CHR 0x00 \<in> set s" "comma \<in> set (str s) \<longleftrightarrow> CHR '','' \<in> set s"
    unfolding str_def set_map image_iff by metis+
  then show ?thesis
    by (auto simp: plain_name_def list_all_iff str_def)
qed

lemmas table_defs = only_if_def kex_methods_def kex_entry_def kex_marker_def ssh2_hostkey_methods_def
  hostkey_entry_def hostkey_cert_entry_def ssh2_crypt_methods_def gcm_entries_def ctr_entries_def
  cbc_entries_def old_entries_def crypt_entry_def crypt_method_chacha20_poly1305_openssh_def
  ssh2_mac_methods_def sha2_entries_def sha1_entries_def md5_entries_def ripemd_entries_def mac_entry_def
  ssh2_comp_methods_def comp_method_zlib_def comp_method_zlib_openssh_def comp_method_none_def

lemma kex_names_plain: "m \<in> set (kex_methods b) \<Longrightarrow> plain_name (km_name m)"
  by (auto simp: table_defs split: if_splits)

lemma hostkey_names_plain: "m \<in> set (ssh2_hostkey_methods b) \<Longrightarrow> plain_name (hm_name m)"
  by (auto simp: table_defs split: if_splits)

lemma crypt_names_plain: "m \<in> set (ssh2_crypt_methods b) \<Longrightarrow> plain_name (cm_name m)"
  by (auto simp: table_defs Let_def split: if_splits)

lemma mac_names_plain: "m \<in> set (ssh2_mac_methods b) \<Longrightarrow> plain_name (mm_name m)"
  by (auto simp: table_defs split: if_splits)

lemma comp_names_plain: "m \<in> set (ssh2_comp_methods b s) \<Longrightarrow> plain_name (pm_name m)"
  by (auto simp: table_defs split: if_splits)

lemmas names_plain = kex_names_plain hostkey_names_plain crypt_names_plain mac_names_plain comp_names_plain

text \<open>Looking a name up.\<close>

lemma strncmp_same_length:
  "length a = length n \<Longrightarrow> 0 \<notin> set a \<Longrightarrow> c_strncmp_eq a n (length n) \<longleftrightarrow> a = n"
  by (induction a n rule: list_induct2') auto

lemma get_method_find:
  "(\<And>m. m \<in> set ms \<Longrightarrow> plain_name (nm m)) \<Longrightarrow>
    kex_get_method_by_name nm n ms = find (\<lambda>m. nm m = n) ms"
  by (induction ms) (auto simp: strncmp_same_length plain_name_def)

subsection \<open>The choice\<close>

text \<open>The first result along a list.\<close>

fun first_some :: "('a \<Rightarrow> 'b option) \<Rightarrow> 'a list \<Rightarrow> 'b option" where
  "first_some f [] = None"
| "first_some f (x # xs) = (case f x of Some r \<Rightarrow> Some r | None \<Rightarrow> first_some f xs)"

lemma first_some_find: "first_some (\<lambda>x. if P x then Some x else None) xs = find P xs"
  by (induction xs) auto

lemma first_some_SomeD: "first_some f xs = Some r \<Longrightarrow> \<exists>x \<in> set xs. f x = Some r"
  by (induction xs) (auto split: option.splits)

lemma agree_table_first:
  "agree_table server nm pick ms =
     first_some (\<lambda>m. case ssh2_kex_agree_instr server (nm m) of None \<Rightarrow> None | Some q \<Rightarrow> pick m q) ms"
  by (induction ms) (auto split: option.splits)

text \<open>Preferences are visited name by name; an empty name is skipped.\<close>

fun agree_names :: "bytes \<Rightarrow> (bytes \<Rightarrow> nat \<Rightarrow> 'a option option) \<Rightarrow> bytes list \<Rightarrow> 'a option" where
  "agree_names server pick [] = None"
| "agree_names server pick (n # ns) =
     (case (case ssh2_kex_agree_instr server n of None \<Rightarrow> Some None | Some q \<Rightarrow> pick n q) of
        None \<Rightarrow> None
      | Some (Some r) \<Rightarrow> Some r
      | Some None \<Rightarrow> agree_names server pick ns)"

lemma agree_instr_empty [simp]: "ssh2_kex_agree_instr h [] = None"
  by (simp add: ssh2_kex_agree_instr_def)

lemma agree_prefs_names: "agree_prefs server pick p = agree_names server pick (names_of p)"
proof (induction p rule: names_induct)
  case (step s)
  show ?case
  proof (cases "s = []")
    case True
    then show ?thesis by (subst agree_prefs.simps, subst names_of_eq) simp
  next
    case False
    show ?thesis
    proof (cases "comma \<in> set s")
      case True
      then have "\<not> (\<forall>c \<in> set s. c \<noteq> comma)" by blast
      then show ?thesis using True step False
        by (subst agree_prefs.simps, subst names_of_eq)
           (auto simp: Let_def after_comma_def split: option.splits)
    next
      case no: False
      then have "\<forall>c \<in> set s. c \<noteq> comma" by blast
      then show ?thesis using False no
        by (subst agree_prefs.simps, subst names_of_eq)
           (simp add: Let_def split: option.splits)
    qed
  qed
qed

text \<open>
  What the client wants, in its order: its preferences, or the whole table.  Preferences are usable when
  every name in them is known (the code gives up at an unknown one).
\<close>

definition candidates :: "('m \<Rightarrow> bytes) \<Rightarrow> 'm list \<Rightarrow> bytes option \<Rightarrow> 'm list" where
  "candidates nm ms prefs =
     (case prefs of
        None \<Rightarrow> ms
      | Some p \<Rightarrow> List.map_filter (\<lambda>n. find (\<lambda>m. nm m = n) ms) (names_of p))"

definition usable_prefs :: "('m \<Rightarrow> bytes) \<Rightarrow> 'm list \<Rightarrow> bytes option \<Rightarrow> bool" where
  "usable_prefs nm ms prefs \<longleftrightarrow>
     (case prefs of None \<Rightarrow> True | Some p \<Rightarrow> \<forall>n \<in> set (names_of p). n = [] \<or> n \<in> nm ` set ms)"

definition agree_on :: "bytes \<Rightarrow> ('m \<Rightarrow> bytes) \<Rightarrow> ('m \<Rightarrow> nat \<Rightarrow> 'a option) \<Rightarrow> 'm list \<Rightarrow> bytes option \<Rightarrow>
    'a option" where
  "agree_on server nm pick ms prefs =
     (case prefs of
        Some p \<Rightarrow> agree_prefs server
            (\<lambda>name q. map_option (\<lambda>m. pick m q) (kex_get_method_by_name nm name ms)) p
      | None \<Rightarrow> agree_table server nm pick ms)"

definition listed_pick :: "bytes \<Rightarrow> ('m \<Rightarrow> bytes) \<Rightarrow> ('m \<Rightarrow> nat \<Rightarrow> 'a option) \<Rightarrow> 'm \<Rightarrow> 'a option" where
  "listed_pick server nm pick m =
     (case ssh2_kex_agree_instr server (nm m) of None \<Rightarrow> None | Some q \<Rightarrow> pick m q)"

lemma agree_names_first:
  assumes "\<forall>n \<in> set ns. n = [] \<or> n \<in> nm ` set ms" "\<forall>m \<in> set ms. plain_name (nm m)"
  shows "agree_names server (\<lambda>n q. map_option (\<lambda>m. pick m q) (kex_get_method_by_name nm n ms)) ns =
    first_some (listed_pick server nm pick) (List.map_filter (\<lambda>n. find (\<lambda>m. nm m = n) ms) ns)"
  using assms(1)
proof (induction ns)
  case Nil
  then show ?case by (simp add: map_filter_simps)
next
  case (Cons n ns)
  show ?case
  proof (cases "n = []")
    case True
    have "find (\<lambda>m. nm m = []) ms = None"
      using assms(2) by (auto simp: find_None_iff plain_name_def)
    then show ?thesis using True Cons by (simp add: map_filter_simps)
  next
    case False
    then have "find (\<lambda>m. nm m = n) ms \<noteq> None"
      using Cons.prems by (auto simp: find_None_iff)
    then obtain m where m: "find (\<lambda>m. nm m = n) ms = Some m" by blast
    then have "nm m = n" by (auto simp: find_Some_iff)
    then show ?thesis using m Cons get_method_find [of ms nm n] assms(2)
      by (simp add: map_filter_simps listed_pick_def split: option.splits)
  qed
qed

lemma agree_on_first:
  assumes "usable_prefs nm ms prefs" "\<forall>m \<in> set ms. plain_name (nm m)"
  shows "agree_on server nm pick ms prefs = first_some (listed_pick server nm pick) (candidates nm ms prefs)"
proof (cases prefs)
  case None
  then show ?thesis
    by (simp add: agree_on_def candidates_def agree_table_first listed_pick_def [abs_def])
next
  case (Some p)
  then show ?thesis using assms agree_names_first [of "names_of p" nm ms server pick]
    by (simp add: agree_on_def candidates_def agree_prefs_names usable_prefs_def)
qed

definition listed :: "bytes \<Rightarrow> bytes \<Rightarrow> bool" where
  "listed server n \<longleftrightarrow> n \<in> set (names_of server)"

lemma listed_agree: "plain_name n \<Longrightarrow> ssh2_kex_agree_instr server n \<noteq> None \<longleftrightarrow> listed server n"
  using agree_instr_names by (simp add: listed_def)


lemma find_in: "find P xs = Some x \<Longrightarrow> x \<in> set xs \<and> P x"
  by (auto simp: find_Some_iff)

lemma candidates_in: "m \<in> set (candidates nm ms prefs) \<Longrightarrow> m \<in> set ms"
proof (cases prefs)
  case (Some p)
  assume "m \<in> set (candidates nm ms prefs)"
  then obtain n where "find (\<lambda>m. nm m = n) ms = Some m"
    using Some by (auto simp: candidates_def List.map_filter_def)
  then show ?thesis using find_in by metis
qed (simp add: candidates_def)

lemma first_some_cong: "(\<And>x. x \<in> set xs \<Longrightarrow> f x = g x) \<Longrightarrow> first_some f xs = first_some g xs"
proof (induction xs)
  case (Cons a xs)
  then have "f a = g a" "first_some f xs = first_some g xs" by simp_all
  then show ?case by (simp split: option.split)
qed simp

text \<open>The choice as a search: the first candidate that the server lists and that \<open>P\<close> accepts.\<close>

lemma agree_on_find:
  assumes "usable_prefs nm ms prefs" "\<forall>m \<in> set ms. plain_name (nm m)"
  shows "agree_on server nm (\<lambda>m q. if P m then Some m else None) ms prefs =
    find (\<lambda>m. listed server (nm m) \<and> P m) (candidates nm ms prefs)"
proof -
  have "listed_pick server nm (\<lambda>m q. if P m then Some m else None) m =
      (if listed server (nm m) \<and> P m then Some m else None)" if "m \<in> set ms" for m
    using listed_agree [of "nm m" server] assms(2) that
    by (auto simp: listed_pick_def split: option.splits)
  then show ?thesis
    unfolding agree_on_first [OF assms] first_some_find [symmetric]
    by (intro first_some_cong) (blast dest: candidates_in)
qed

lemma agree_on_listed:
  assumes "usable_prefs nm ms prefs" "\<And>m. m \<in> set ms \<Longrightarrow> plain_name (nm m)"
  shows "agree_on server nm (\<lambda>m q. Some m) ms prefs = find (\<lambda>m. listed server (nm m)) (candidates nm ms prefs)"
  using agree_on_find [of nm ms prefs server "\<lambda>_. True"] assms by simp

abbreviation "hostkey_cands b s \<equiv> candidates hm_name (ssh2_hostkey_methods b) (hostkey_prefs s)"

definition best_hostkey :: "build \<Rightarrow> u32 \<Rightarrow> bytes \<Rightarrow> session \<Rightarrow> hostkey_method option" where
  "best_hostkey b flags server s =
     find (\<lambda>m. listed server (hm_name m) \<and> hostkey_suits flags m) (hostkey_cands b s)"

lemma agree_hostkey_best:
  assumes "usable_prefs hm_name (ssh2_hostkey_methods b) (hostkey_prefs s)"
  shows "kex_agree_hostkey b flags server s =
    (case best_hostkey b flags server s of Some m \<Rightarrow> (0, s\<lparr>hostkey := Some m\<rparr>) | None \<Rightarrow> (- 1, s))"
proof -
  have "kex_agree_hostkey b flags server s =
     (case agree_on server hm_name (\<lambda>m q. if hostkey_suits flags m then Some m else None)
             (ssh2_hostkey_methods b) (hostkey_prefs s) of
        Some m \<Rightarrow> (0, s\<lparr>hostkey := Some m\<rparr>) | None \<Rightarrow> (- 1, s))"
    by (simp add: kex_agree_hostkey_def agree_on_def Let_def split: option.split)
  then show ?thesis
    unfolding best_hostkey_def using agree_on_find [OF assms] names_plain(2) by simp
qed

lemma kex_choice_find:
  assumes "usable_prefs km_name (kex_methods b) (kex_prefs s)"
    and "usable_prefs hm_name (ssh2_hostkey_methods b) (hostkey_prefs s)"
    and "kex_agree_kex_hostkey b server server_hostkeys s = (rc, s')"
  shows "case find (\<lambda>m. listed server (km_name m) \<and> best_hostkey b (km_flags m) server_hostkeys s \<noteq> None)
             (candidates km_name (kex_methods b) (kex_prefs s)) of
      None \<Rightarrow> rc = - 1
    | Some m \<Rightarrow> rc = 0 \<and> kex s' = Some m \<and> hostkey s' = best_hostkey b (km_flags m) server_hostkeys s"
proof -
  define s1 where "s1 = (if ssh2_kex_agree_instr server (str ''kex-strict-s-v00@openssh.com'') \<noteq> None
               then s\<lparr>kex_strict := True\<rparr> else s)"
  have s1: "kex_prefs s1 = kex_prefs s" "best_hostkey b f server_hostkeys s1 = best_hostkey b f server_hostkeys s"
    "hostkey_prefs s1 = hostkey_prefs s" for f
    by (simp_all add: s1_def best_hostkey_def)
  define P where "P m \<longleftrightarrow> best_hostkey b (km_flags m) server_hostkeys s \<noteq> None" for m :: kex_method
  define t where "t m q = the (take_kex b server_hostkeys s1 m q)" for m q
  have tk: "take_kex b server_hostkeys s1 m q =
      (if P m then Some (t m q) else None)"
    "P m \<Longrightarrow> kex (t m q) = Some m \<and> hostkey (t m q) = best_hostkey b (km_flags m) server_hostkeys s" for m q
    using agree_hostkey_best [of b s1 "km_flags m" server_hostkeys] assms(2) s1
    by (auto simp: t_def P_def take_kex_def split: option.splits)
  let ?c = "candidates km_name (kex_methods b) (kex_prefs s)"
  have r: "(rc, s') = (case agree_on server km_name (take_kex b server_hostkeys s1) (kex_methods b) (kex_prefs s) of
      Some s \<Rightarrow> (0, s) | None \<Rightarrow> (- 1, s1))"
    using assms(3) unfolding kex_agree_kex_hostkey_def agree_on_def Let_def s1_def [symmetric] s1(1) by simp
  have f: "agree_on server km_name (take_kex b server_hostkeys s1) (kex_methods b) (kex_prefs s) =
      first_some (listed_pick server km_name (take_kex b server_hostkeys s1)) ?c"
    using agree_on_first [OF assms(1)] names_plain(1) by blast
  have l: "listed_pick server km_name (take_kex b server_hostkeys s1) m = None \<longleftrightarrow>
      \<not> (listed server (km_name m) \<and> P m)"
    "listed_pick server km_name (take_kex b server_hostkeys s1) m = Some x \<Longrightarrow>
      kex x = Some m \<and> hostkey x = best_hostkey b (km_flags m) server_hostkeys s" if "m \<in> set ?c" for m x
    using listed_agree [OF names_plain(1) [OF candidates_in [OF that]], of server] tk(1) [of m] tk(2) [of m]
    by (auto simp: listed_pick_def split: option.splits if_splits)
  define rel where "rel fd fs \<longleftrightarrow> (case fd of None \<Rightarrow> fs = None
      | Some m \<Rightarrow> (\<exists>x. fs = Some x \<and> kex x = Some m \<and> hostkey x = best_hostkey b (km_flags m) server_hostkeys s))"
    for fd and fs :: "session option"
  have "rel (find (\<lambda>m. listed server (km_name m) \<and> P m) ms)
      (first_some (listed_pick server km_name (take_kex b server_hostkeys s1)) ms)" if "set ms \<subseteq> set ?c" for ms
    using that
  proof (induction ms)
    case Nil
    then show ?case by (simp add: rel_def)
  next
    case (Cons m ms)
    then have m: "m \<in> set ?c" by simp
    show ?case
    proof (cases "listed_pick server km_name (take_kex b server_hostkeys s1) m")
      case None
      then have "\<not> (listed server (km_name m) \<and> P m)" using l(1) [OF m] by simp
      then show ?thesis using None Cons by auto
    next
      case (Some x)
      then have "listed server (km_name m) \<and> P m" using l(1) [OF m] by simp
      then show ?thesis using Some l(2) [OF m Some] by (simp add: rel_def)
    qed
  qed
  from this [of ?c] have "rel (find (\<lambda>m. listed server (km_name m) \<and> P m) ?c)
      (agree_on server km_name (take_kex b server_hostkeys s1) (kex_methods b) (kex_prefs s))"
    unfolding f by simp
  then show ?thesis
    using r unfolding rel_def P_def by (auto split: option.splits)
qed

text \<open>
  C15. The key exchange method is the client's first that the server lists and that has a suitable host key,
  and the host key method is the client's first suitable one that the server lists; when there is no such
  pair, the negotiation fails.
\<close>

theorem kex_choice:
  assumes "usable_prefs km_name (kex_methods b) (kex_prefs s)"
    and "usable_prefs hm_name (ssh2_hostkey_methods b) (hostkey_prefs s)"
    and "kex_agree_kex_hostkey b server server_hostkeys s = (rc, s')"
  shows "case find (\<lambda>m. listed server (km_name m) \<and> best_hostkey b (km_flags m) server_hostkeys s \<noteq> None)
             (candidates km_name (kex_methods b) (kex_prefs s)) of
      None \<Rightarrow> rc = - 1
    | Some m \<Rightarrow> rc = 0 \<and> kex s' = Some m \<and> hostkey s' = best_hostkey b (km_flags m) server_hostkeys s"
  by (rule kex_choice_find [OF assms])

lemmas choice_eval = candidates_def best_hostkey_def listed_def names_of_eq [of "_ # _"] names_of_eq [of "[]"]
  after_comma_def str_def

text \<open>
  C16. Cipher, MAC and compression in each direction are the client's first ones that the server lists; the
  MAC list is not consulted when the cipher authenticates by itself.
\<close>

theorem cipher_mac_comp_choice:
  assumes "usable_prefs cm_name (ssh2_crypt_methods b) (crypt_prefs e)"
    and "usable_prefs mm_name (ssh2_mac_methods b) (mac_prefs e)"
    and "usable_prefs pm_name (ssh2_comp_methods b s) (comp_prefs e)"
  shows "kex_agree_crypt b server e =
      (case find (\<lambda>m. listed server (cm_name m)) (candidates cm_name (ssh2_crypt_methods b) (crypt_prefs e)) of
         Some m \<Rightarrow> (0, e\<lparr>crypt := Some m\<rparr>) | None \<Rightarrow> (- 1, e)) \<and>
    (crypt e = Some c \<longrightarrow> kex_agree_mac b server e =
      (case (case ssh2_mac_override b c of Some m \<Rightarrow> Some m
             | None \<Rightarrow> find (\<lambda>m. listed server (mm_name m)) (candidates mm_name (ssh2_mac_methods b) (mac_prefs e))) of
         Some m \<Rightarrow> (0, e\<lparr>mac := Some m\<rparr>) | None \<Rightarrow> (- 1, e))) \<and>
    kex_agree_comp b s server e =
      (case find (\<lambda>m. listed server (pm_name m)) (candidates pm_name (ssh2_comp_methods b s) (comp_prefs e)) of
         Some m \<Rightarrow> (0, e\<lparr>comp := Some m\<rparr>) | None \<Rightarrow> (- 1, e))"
proof -
  have "kex_agree_crypt b server e =
      (case agree_on server cm_name (\<lambda>m q. Some m) (ssh2_crypt_methods b) (crypt_prefs e) of
         Some m \<Rightarrow> (0, e\<lparr>crypt := Some m\<rparr>) | None \<Rightarrow> (- 1, e))"
    by (simp add: kex_agree_crypt_def agree_on_def Let_def split: option.split)
  moreover have "crypt e = Some c \<Longrightarrow> kex_agree_mac b server e =
      (case (case ssh2_mac_override b c of Some m \<Rightarrow> Some m
             | None \<Rightarrow> agree_on server mm_name (\<lambda>m q. Some m) (ssh2_mac_methods b) (mac_prefs e)) of
         Some m \<Rightarrow> (0, e\<lparr>mac := Some m\<rparr>) | None \<Rightarrow> (- 1, e))"
    by (simp add: kex_agree_mac_def agree_on_def Let_def split: option.split)
  moreover have "kex_agree_comp b s server e =
      (case agree_on server pm_name (\<lambda>m q. Some m) (ssh2_comp_methods b s) (comp_prefs e) of
         Some m \<Rightarrow> (0, e\<lparr>comp := Some m\<rparr>) | None \<Rightarrow> (- 1, e))"
    by (simp add: kex_agree_comp_def agree_on_def Let_def split: option.split)
  moreover have "agree_on server cm_name (\<lambda>m q. Some m) (ssh2_crypt_methods b) (crypt_prefs e) =
      find (\<lambda>m. listed server (cm_name m)) (candidates cm_name (ssh2_crypt_methods b) (crypt_prefs e))"
    by (rule agree_on_listed [OF assms(1)]) (rule names_plain(3))
  moreover have "agree_on server mm_name (\<lambda>m q. Some m) (ssh2_mac_methods b) (mac_prefs e) =
      find (\<lambda>m. listed server (mm_name m)) (candidates mm_name (ssh2_mac_methods b) (mac_prefs e))"
    by (rule agree_on_listed [OF assms(2)]) (rule names_plain(4))
  moreover have "agree_on server pm_name (\<lambda>m q. Some m) (ssh2_comp_methods b s) (comp_prefs e) =
      find (\<lambda>m. listed server (pm_name m)) (candidates pm_name (ssh2_comp_methods b s) (comp_prefs e))"
    by (rule agree_on_listed [OF assms(3)]) (rule names_plain(5))
  ultimately show ?thesis by metis
qed


subsection \<open>A small build for examples\<close>

definition small_build :: build where
  "small_build = \<lparr>b_mlkem = False, b_ed25519 = True, b_ecdsa = False, b_kex_sha1 = False, b_rsa = False,
     b_rsa_sha1 = False, b_rsa_sha2 = False, b_dsa = False, b_aes_gcm = True, b_aes_ctr = False,
     b_aes_cbc = False, b_blowfish = False, b_rc4 = False, b_cast = False, b_3des = False,
     b_sha256 = True, b_sha512 = False, b_sha1 = False, b_md5 = False, b_ripemd = False,
     b_have_zlib = False, b_hmac = (\<lambda>alg key m. Some m), b_cipher = (\<lambda>alg buf n fl a. (0, buf, a)),
     b_deflate = (\<lambda>a src n. (0, [], a)), b_inflate = (\<lambda>a src n. (0, [], [], a)),
     b_cipher_init = (\<lambda>algo iv secret enc. Some secret), b_zlib_init = (\<lambda>compr. None)\<rparr>"

lemma find_str:
  "find (\<lambda>m. listed server (nm m)) (m # ms) =
    (if listed server (nm m) then Some m else find (\<lambda>m. listed server (nm m)) ms)"
  by simp

theorem kex_choice_witness:
  "kex (snd (kex_agree_kex_hostkey small_build (str ''x,curve25519-sha256'') (str ''ssh-ed25519'') bare_session)) =
     Some (kex_entry ''curve25519-sha256'')"
proof -
  obtain rc s' where e: "kex_agree_kex_hostkey small_build (str ''x,curve25519-sha256'') (str ''ssh-ed25519'')
      bare_session = (rc, s')" by fastforce
  have p: "kex_prefs bare_session = None" "hostkey_prefs bare_session = None"
    by (simp_all add: bare_session_def session_init_defs)
  have u: "usable_prefs km_name (kex_methods small_build) (kex_prefs bare_session)"
    "usable_prefs hm_name (ssh2_hostkey_methods small_build) (hostkey_prefs bare_session)"
    by (simp_all add: p usable_prefs_def)
  have "find (\<lambda>m. listed (str ''x,curve25519-sha256'') (km_name m) \<and>
        best_hostkey small_build (km_flags m) (str ''ssh-ed25519'') bare_session \<noteq> None)
      (candidates km_name (kex_methods small_build) (kex_prefs bare_session)) = Some (kex_entry ''curve25519-sha256'')"
    by (simp add: p choice_eval small_build_def table_defs hostkey_suits_def
        KEX_METHOD_FLAG_REQ_SIGN_HOSTKEY_def KEX_METHOD_FLAG_REQ_ENC_HOSTKEY_def)
  then show ?thesis using kex_choice [OF u e] e by simp
qed

theorem cipher_mac_comp_choice_witness:
  "kex_agree_crypt small_build (str ''aes128-gcm@openssh.com,aes256-gcm@openssh.com'') endpoint_0 =
     (0, endpoint_0\<lparr>crypt := Some (crypt_entry small_build ''aes256-gcm@openssh.com'' 16 12 32 16 3
        ''ssh2_cipher_aes256gcm'')\<rparr>)"
proof -
  have p: "crypt_prefs endpoint_0 = None" "mac_prefs endpoint_0 = None" "comp_prefs endpoint_0 = None"
    by (simp_all add: endpoint_0_def)
  have u: "usable_prefs cm_name (ssh2_crypt_methods small_build) (crypt_prefs endpoint_0)"
    "usable_prefs mm_name (ssh2_mac_methods small_build) (mac_prefs endpoint_0)"
    "usable_prefs pm_name (ssh2_comp_methods small_build bare_session) (comp_prefs endpoint_0)"
    by (simp_all add: p usable_prefs_def)
  have "find (\<lambda>m. listed (str ''aes128-gcm@openssh.com,aes256-gcm@openssh.com'') (cm_name m))
      (candidates cm_name (ssh2_crypt_methods small_build) (crypt_prefs endpoint_0)) =
      Some (crypt_entry small_build ''aes256-gcm@openssh.com'' 16 12 32 16 3 ''ssh2_cipher_aes256gcm'')"
    by (simp add: p choice_eval small_build_def table_defs Let_def SSH2_CRYPT_FLAG_INTEGRATED_MAC_def
        SSH2_CRYPT_FLAG_PKTLEN_AAD_def)
  then show ?thesis using cipher_mac_comp_choice [OF u] by simp
qed

subsection \<open>Both sides' consent\<close>

text \<open>Every method that is chosen is a supported one, listed by the server, and among the preferences.\<close>

definition consented :: "('m \<Rightarrow> bytes) \<Rightarrow> 'm list \<Rightarrow> bytes option \<Rightarrow> bytes \<Rightarrow> 'm \<Rightarrow> bool" where
  "consented nm ms prefs server m \<longleftrightarrow>
     m \<in> set ms \<and> listed server (nm m) \<and> (\<forall>p. prefs = Some p \<longrightarrow> nm m \<in> set (names_of p))"

lemma get_method_in:
  "kex_get_method_by_name nm n ms = Some m \<Longrightarrow> (\<And>m. m \<in> set ms \<Longrightarrow> plain_name (nm m)) \<Longrightarrow> m \<in> set ms \<and> nm m = n"
  using get_method_find [of ms nm n] find_in [of "\<lambda>m. nm m = n" ms m] by simp

lemma agree_names_consented:
  assumes "agree_names server (\<lambda>n q. map_option (\<lambda>m. pick m q) (kex_get_method_by_name nm n ms)) ns = Some r"
    and "\<And>m. m \<in> set ms \<Longrightarrow> plain_name (nm m)"
  shows "\<exists>m q. m \<in> set ms \<and> listed server (nm m) \<and> nm m \<in> set ns \<and> pick m q = Some r"
  using assms(1)
proof (induction ns)
  case (Cons n ns)
  show ?case
  proof (cases "\<exists>q m. ssh2_kex_agree_instr server n = Some q \<and> kex_get_method_by_name nm n ms = Some m \<and>
      pick m q = Some r")
    case True
    then obtain q m where m: "ssh2_kex_agree_instr server n = Some q"
      "kex_get_method_by_name nm n ms = Some m" "pick m q = Some r" by blast
    from get_method_in [OF m(2) assms(2)] have "m \<in> set ms" "nm m = n" by auto
    then show ?thesis using m listed_agree [of n server] assms(2) by fastforce
  next
    case False
    then have "agree_names server (\<lambda>n q. map_option (\<lambda>m. pick m q) (kex_get_method_by_name nm n ms)) ns = Some r"
      using Cons.prems by (auto split: option.splits)
    then show ?thesis using Cons.IH by auto
  qed
qed simp

lemma agree_table_consented:
  assumes "agree_table server nm pick ms = Some r" "\<And>m. m \<in> set ms \<Longrightarrow> plain_name (nm m)"
  shows "\<exists>m q. m \<in> set ms \<and> listed server (nm m) \<and> pick m q = Some r"
  using assms
proof (induction ms)
  case (Cons m ms)
  then show ?case using listed_agree [of "nm m" server]
    by (auto split: option.splits)
qed simp

lemma agree_on_consented:
  assumes "agree_on server nm pick ms prefs = Some r" "\<And>m. m \<in> set ms \<Longrightarrow> plain_name (nm m)"
  shows "\<exists>m q. consented nm ms prefs server m \<and> pick m q = Some r"
  using agree_names_consented [of server pick nm ms _ r] agree_table_consented [of server nm pick ms r] assms
  by (cases prefs) (fastforce simp: agree_on_def agree_prefs_names consented_def)+


lemma hostkey_consented:
  assumes "kex_agree_hostkey b flags server s = (0, s')"
  shows "\<exists>h. s' = s\<lparr>hostkey := Some h\<rparr> \<and> hostkey_suits flags h \<and>
    consented hm_name (ssh2_hostkey_methods b) (hostkey_prefs s) server h"
proof -
  let ?pick = "\<lambda>m (q :: nat). if hostkey_suits flags m then Some m else None"
  have "(0 :: rc, s') = (case agree_on server hm_name ?pick (ssh2_hostkey_methods b) (hostkey_prefs s) of
      Some m \<Rightarrow> (0, s\<lparr>hostkey := Some m\<rparr>) | None \<Rightarrow> (- 1, s))"
    using assms by (simp add: kex_agree_hostkey_def agree_on_def Let_def split: option.splits)
  then obtain m where m: "agree_on server hm_name ?pick (ssh2_hostkey_methods b) (hostkey_prefs s) = Some m"
    "s' = s\<lparr>hostkey := Some m\<rparr>" by (auto split: option.splits)
  from agree_on_consented [OF m(1) names_plain(2) [where b = b]] m(2) show ?thesis by (auto split: if_splits)
qed

lemma kex_hostkey_consented:
  assumes "kex_agree_kex_hostkey b server server_hostkeys s = (0, s')"
  shows "\<exists>m h strict burn. s' = s\<lparr>kex_strict := strict, hostkey := Some h, kex := Some m,
        burn_optimistic_kexinit := burn\<rparr> \<and>
    consented km_name (kex_methods b) (kex_prefs s) server m \<and> hostkey_suits (km_flags m) h \<and>
    consented hm_name (ssh2_hostkey_methods b) (hostkey_prefs s) server_hostkeys h"
proof -
  define strict where "strict = (if ssh2_kex_agree_instr server (str ''kex-strict-s-v00@openssh.com'') \<noteq> None
               then True else kex_strict s)"
  let ?s = "s\<lparr>kex_strict := strict\<rparr>"
  have e: "(if ssh2_kex_agree_instr server (str ''kex-strict-s-v00@openssh.com'') \<noteq> None
               then s\<lparr>kex_strict := True\<rparr> else s) = ?s" by (simp add: strict_def)
  have p: "kex_prefs ?s = kex_prefs s" by simp
  have "(0 :: rc, s') = (case agree_on server km_name (take_kex b server_hostkeys ?s) (kex_methods b) (kex_prefs s) of
      Some s \<Rightarrow> (0, s) | None \<Rightarrow> (- 1, ?s))"
    using assms unfolding kex_agree_kex_hostkey_def Let_def agree_on_def e p by simp
  then have "agree_on server km_name (take_kex b server_hostkeys ?s) (kex_methods b) (kex_prefs s) = Some s'"
    by (auto split: option.splits)
  from agree_on_consented [OF this names_plain(1) [where b = b]] obtain m q where
    m: "consented km_name (kex_methods b) (kex_prefs s) server m" "take_kex b server_hostkeys ?s m q = Some s'" by blast
  from m(2) obtain s1 where s1: "kex_agree_hostkey b (km_flags m) server_hostkeys ?s = (0, s1)"
    and s': "s' = s1\<lparr>kex := Some m, burn_optimistic_kexinit :=
      (if burn_optimistic_kexinit s1 \<noteq> 0 \<and> q = 0 then 0 else burn_optimistic_kexinit s1)\<rparr>"
    by (auto simp: take_kex_def split: prod.splits if_splits)
  from hostkey_consented [OF s1] obtain h where "s1 = ?s\<lparr>hostkey := Some h\<rparr>" "hostkey_suits (km_flags m) h"
    "consented hm_name (ssh2_hostkey_methods b) (hostkey_prefs s) server_hostkeys h" by auto
  moreover from this have "s' = s\<lparr>kex_strict := strict, hostkey := Some h, kex := Some m,
      burn_optimistic_kexinit := burn_optimistic_kexinit s'\<rparr>" using s' by simp
  ultimately show ?thesis using m(1) by blast
qed

lemma crypt_consented:
  assumes "kex_agree_crypt b server e = (0, e')"
  shows "\<exists>c. e' = e\<lparr>crypt := Some c\<rparr> \<and> consented cm_name (ssh2_crypt_methods b) (crypt_prefs e) server c"
proof -
  have "(0 :: rc, e') = (case agree_on server cm_name (\<lambda>m q. Some m) (ssh2_crypt_methods b) (crypt_prefs e) of
      Some m \<Rightarrow> (0, e\<lparr>crypt := Some m\<rparr>) | None \<Rightarrow> (- 1, e))"
    using assms by (simp add: kex_agree_crypt_def agree_on_def Let_def split: option.splits)
  then obtain c where c: "agree_on server cm_name (\<lambda>m q. Some m) (ssh2_crypt_methods b) (crypt_prefs e) = Some c"
    "e' = e\<lparr>crypt := Some c\<rparr>" by (auto split: option.splits)
  from agree_on_consented [OF c(1) names_plain(3) [where b = b]] c(2) show ?thesis by auto
qed

lemma comp_consented:
  assumes "kex_agree_comp b s server e = (0, e')"
  shows "\<exists>c. e' = e\<lparr>comp := Some c\<rparr> \<and> consented pm_name (ssh2_comp_methods b s) (comp_prefs e) server c"
proof -
  have "(0 :: rc, e') = (case agree_on server pm_name (\<lambda>m q. Some m) (ssh2_comp_methods b s) (comp_prefs e) of
      Some m \<Rightarrow> (0, e\<lparr>comp := Some m\<rparr>) | None \<Rightarrow> (- 1, e))"
    using assms by (simp add: kex_agree_comp_def agree_on_def Let_def split: option.splits)
  then obtain c where c: "agree_on server pm_name (\<lambda>m q. Some m) (ssh2_comp_methods b s) (comp_prefs e) = Some c"
    "e' = e\<lparr>comp := Some c\<rparr>" by (auto split: option.splits)
  from agree_on_consented [OF c(1) names_plain(5) [where b = b]] c(2) show ?thesis by auto
qed

lemma mac_consented:
  assumes "kex_agree_mac b server e = (0, e')" "crypt e = Some c"
  shows "\<exists>m. e' = e\<lparr>mac := Some m\<rparr> \<and> (ssh2_mac_override b c = Some m \<or>
    consented mm_name (ssh2_mac_methods b) (mac_prefs e) server m)"
proof (cases "ssh2_mac_override b c")
  case (Some m)
  then show ?thesis using assms by (intro exI [of _ m]) (simp add: kex_agree_mac_def)
next
  case None
  then have "(0 :: rc, e') = (case agree_on server mm_name (\<lambda>m q. Some m) (ssh2_mac_methods b) (mac_prefs e) of
      Some m \<Rightarrow> (0, e\<lparr>mac := Some m\<rparr>) | None \<Rightarrow> (- 1, e))"
    using assms by (simp add: kex_agree_mac_def agree_on_def Let_def split: option.splits)
  then obtain m where m: "agree_on server mm_name (\<lambda>m q. Some m) (ssh2_mac_methods b) (mac_prefs e) = Some m"
    "e' = e\<lparr>mac := Some m\<rparr>" by (auto split: option.splits)
  from agree_on_consented [OF m(1) names_plain(4) [where b = b]] m(2) show ?thesis by auto
qed

definition direction_agreed :: "build \<Rightarrow> session \<Rightarrow> endpoint_data \<Rightarrow> endpoint_data \<Rightarrow> bytes \<Rightarrow> bytes \<Rightarrow> bytes \<Rightarrow> bool" where
  "direction_agreed b s e e' lc lm lp \<longleftrightarrow>
     (\<exists>c m p. e' = e\<lparr>crypt := Some c, mac := Some m, comp := Some p\<rparr> \<and>
        consented cm_name (ssh2_crypt_methods b) (crypt_prefs e) lc c \<and>
        (ssh2_mac_override b c = Some m \<or> consented mm_name (ssh2_mac_methods b) (mac_prefs e) lm m) \<and>
        consented pm_name (ssh2_comp_methods b s) (comp_prefs e) lp p)"

lemma agree_steps_Cons:
  "agree_steps (f # fs) s = (0, s') \<longleftrightarrow> (\<exists>s1. f s = (0, s1) \<and> agree_steps fs s1 = (0, s'))"
  by (auto split: prod.splits)

lemma agree_local_0: "agree_local f s = (0, s') \<longleftrightarrow> (\<exists>e. f (local s) = (0, e) \<and> s' = s\<lparr>local := e\<rparr>)"
  by (auto simp: agree_local_def split: prod.splits)

lemma agree_remote_0: "agree_remote f s = (0, s') \<longleftrightarrow> (\<exists>e. f (remote s) = (0, e) \<and> s' = s\<lparr>remote := e\<rparr>)"
  by (auto simp: agree_remote_def split: prod.splits)

lemma comp_methods_same: "flag_compress s' = flag_compress s \<Longrightarrow> ssh2_comp_methods b s' = ssh2_comp_methods b s"
  by (simp add: ssh2_comp_methods_def)



subsection \<open>The KEXINIT message\<close>

lemma read_lists_enc:
  assumes "length h = 17" "length ls = 10" "\<forall>l \<in> set ls. length l < 2 ^ 32"
    and "length (h @ concat (map enc_string ls) @ f # t) < 2 ^ 63"
  shows "read_lists (h @ concat (map enc_string ls) @ f # t) = Some (ls, f)"
proof -
  let ?d = "h @ concat (map enc_string ls) @ f # t"
  let ?b = "advance 17 (string_buf_of ?d)"
  let ?n = "length (concat (map enc_string ls))"
  have ok: "sb_ok ?b" using assms by (intro sb_ok_advance) auto
  have r: "rest ?b = concat (map enc_string ls) @ f # t" using assms(1) by simp
  have "get_many ssh2_get_string (length ls) ?b = (Some ls, advance ?n ?b)"
    by (rule string_codec.get_many_enc [OF ok _ r]) (use assms(3) in \<open>simp add: list_all_iff\<close>)
  then have g: "get_many ssh2_get_chars 10 ?b = (Some ls, advance ?n ?b)"
    using assms(2) get_chars_eq_get_string by (metis ext)
  have "?n \<le> length (rest ?b)" unfolding r by simp
  then have "sb_ok (advance ?n ?b)" by (rule sb_ok_advance [OF ok])
  moreover have "rest (advance ?n ?b) = f # t"
    unfolding rest_advance [of ?n] r by simp
  ultimately have "ssh2_check_length (advance ?n ?b) 1"
    using check_length_rest [of "advance ?n ?b" 1] by simp
  moreover have "?d ! sb_ptr (advance ?n ?b) = f"
    using assms(1) by (simp add: string_buf_of_def nth_append)
  ultimately show ?thesis using g assms(1) by (simp add: read_lists_def)
qed

fun join_names :: "bytes list \<Rightarrow> bytes" where
  "join_names [] = []"
| "join_names [n] = n"
| "join_names (n # ns) = n @ comma # join_names ns"

lemma kex_method_strlen_loop: "kex_method_strlen_loop l ns = l + (\<Sum>n\<leftarrow>ns. length n + 1)"
  by (induction l ns rule: kex_method_strlen_loop.induct) simp_all

lemma join_names_commas: "ns \<noteq> [] \<Longrightarrow> concat (map (\<lambda>n. n @ [comma]) ns) = join_names ns @ [comma]"
  by (induction ns rule: join_names.induct) simp_all

lemma length_join_names: "length (join_names ns) = kex_method_strlen ns"
proof (cases "ns = []")
  case False
  have "length (concat (map (\<lambda>n. n @ [comma]) ns)) = (\<Sum>n\<leftarrow>ns. length n + 1)"
    by (induction ns) simp_all
  then show ?thesis using False
    by (simp add: join_names_commas kex_method_strlen_def kex_method_strlen_loop)
qed (simp add: kex_method_strlen_def)

lemma names_of_join: "ns \<noteq> [] \<Longrightarrow> \<forall>n \<in> set ns. comma \<notin> set n \<Longrightarrow> names_of (join_names ns) = ns"
proof (induction ns rule: join_names.induct)
  case (2 n)
  then have "takeWhile (\<lambda>c. c \<noteq> comma) n = n" by (auto simp: takeWhile_eq_all_conv)
  then show ?case using 2 by (subst names_of_eq) simp
next
  case (3 n m ns)
  have n: "\<forall>c \<in> set n. c \<noteq> comma" using 3(3) by auto
  then have "takeWhile (\<lambda>c. c \<noteq> comma) (join_names (n # m # ns)) = n"
    "after_comma (join_names (n # m # ns)) = join_names (m # ns)"
    by (simp_all add: after_comma_def takeWhile_append2 dropWhile_append2)
  then show ?case using 3 by (subst names_of_eq) simp
qed simp

text \<open>What a list of the message says: the preferences, or the table.\<close>

definition pref_string :: "bytes option \<times> bytes list \<Rightarrow> bytes" where
  "pref_string x = (case x of (Some p, d) \<Rightarrow> p | (None, d) \<Rightarrow> join_names d)"

lemma prefs_len: "length (pref_string (p, d)) < 2 ^ 32 \<Longrightarrow>
    KEX_METHOD_PREFS_LEN p d = of_nat (length (pref_string (p, d)))"
  by (auto simp: KEX_METHOD_PREFS_LEN_def pref_string_def length_join_names split: option.split)

text \<open>A writer that has stored \<open>pre\<close> and has room for \<open>n\<close> more bytes.\<close>

definition wrote :: "wbuf \<Rightarrow> bytes \<Rightarrow> nat \<Rightarrow> bool" where
  "wrote w pre n \<longleftrightarrow> (\<exists>r. w = Some (pre @ r, length pre) \<and> length r = n)"

lemma wrote_wput: "wrote w pre n \<Longrightarrow> length bs \<le> n \<Longrightarrow> wrote (wput bs w) (pre @ bs) (n - length bs)"
  by (auto simp: wrote_def wput_def mem_put_def)

lemma wrote_wseek: "wrote w (pre @ x) n \<Longrightarrow> wrote (wseek (length pre) w) pre (n + length x)"
  by (auto simp: wrote_def wseek_def)

lemma wrote_wpos: "wrote w pre n \<Longrightarrow> wpos w = length pre"
  by (auto simp: wrote_def wpos_def)

lemma wrote_list_loop:
  "wrote w pre n \<Longrightarrow> length (concat (map (\<lambda>n. n @ [comma]) ns)) \<le> n \<Longrightarrow>
   wrote (kex_method_list_loop ns w) (pre @ concat (map (\<lambda>n. n @ [comma]) ns))
     (n - length (concat (map (\<lambda>n. n @ [comma]) ns)))"
proof (induction ns arbitrary: w pre n)
  case (Cons m ns)
  have "wrote (wput [comma] (wput m w)) ((pre @ m) @ [comma]) (n - length m - 1)"
    using wrote_wput [OF wrote_wput [OF Cons.prems(1), of m], of "[comma]"] Cons.prems(2) by simp
  from Cons.IH [OF this] Cons.prems(2) show ?case by simp
qed simp

lemma wrote_prefs_str:
  assumes "wrote w pre n" "length (pref_string (p, d)) < 2 ^ 32" "5 + length (pref_string (p, d)) \<le> n"
  shows "wrote (KEX_METHOD_PREFS_STR (KEX_METHOD_PREFS_LEN p d) p d w)
    (pre @ enc_string (pref_string (p, d))) (n - (4 + length (pref_string (p, d))))"
proof -
  let ?l = "KEX_METHOD_PREFS_LEN p d" and ?s = "pref_string (p, d)"
  have l: "?l = of_nat (length ?s)" "unat ?l = length ?s"
    using prefs_len [OF assms(2)] assms(2) by (simp_all add: unat_of_nat_u32)
  have h: "wrote (wput (ssh2_htonu32 ?l) w) (pre @ ssh2_htonu32 ?l) (n - 4)"
    using wrote_wput [OF assms(1), of "ssh2_htonu32 ?l"] assms(3) by simp
  show ?thesis
  proof (cases p)
    case (Some q)
    then have q: "?s = q" by (simp add: pref_string_def)
    have "wrote (wput q (wput (ssh2_htonu32 ?l) w)) ((pre @ ssh2_htonu32 ?l) @ q) (n - 4 - length q)"
      using assms(3) q by (intro wrote_wput [OF h]) simp
    then show ?thesis using Some q l by (simp add: KEX_METHOD_PREFS_STR_def enc_string_def)
  next
    case None
    then have s: "?s = join_names d" by (simp add: pref_string_def)
    show ?thesis
    proof (cases "d = []")
      case True
      have p: "wpos w + 4 = length (pre @ ssh2_htonu32 ?l)" using wrote_wpos [OF assms(1)] by simp
      have "wrote (wseek (length (pre @ ssh2_htonu32 ?l)) (wput (ssh2_htonu32 ?l) w)) (pre @ ssh2_htonu32 ?l) (n - 4)"
        using wrote_wseek [of "wput (ssh2_htonu32 ?l) w" "pre @ ssh2_htonu32 ?l" "[]"] h by simp
      then show ?thesis using None True p s l
        by (simp add: KEX_METHOD_PREFS_STR_def kex_method_list_def enc_string_def)
    next
      case False
      let ?c = "concat (map (\<lambda>n. n @ [comma]) d)"
      have c: "?c = ?s @ [comma]" using False s by (simp add: join_names_commas)
      have "wrote (kex_method_list_loop d (wput (ssh2_htonu32 ?l) w)) ((pre @ ssh2_htonu32 ?l) @ ?c) (n - 4 - length ?c)"
        by (rule wrote_list_loop [OF h]) (use assms(3) c in simp)
      then have "wrote (wseek (length (pre @ ssh2_htonu32 ?l @ ?s)) (kex_method_list_loop d (wput (ssh2_htonu32 ?l) w)))
          (pre @ ssh2_htonu32 ?l @ ?s) (n - 4 - length ?c + 1)"
        using wrote_wseek [of _ "pre @ ssh2_htonu32 ?l @ ?s" "[comma]"] c by simp
      moreover have "n - 4 - length ?c + 1 = n - (4 + length ?s)" using assms(3) c by simp
      moreover have "wpos w + (unat ?l + 4) = length (pre @ ssh2_htonu32 ?l @ ?s)"
        using wrote_wpos [OF assms(1)] l by simp
      ultimately show ?thesis using None False l
        by (simp add: KEX_METHOD_PREFS_STR_def kex_method_list_def enc_string_def add.commute)
    qed
  qed
qed

lemma wrote_lists:
  assumes "wrote w pre n" "\<forall>x \<in> set ls. length (pref_string x) < 2 ^ 32"
    and "1 + length (concat (map (\<lambda>x. enc_string (pref_string x)) ls)) \<le> n"
  shows "wrote (fold (\<lambda>(p, d). KEX_METHOD_PREFS_STR (KEX_METHOD_PREFS_LEN p d) p d) ls w)
    (pre @ concat (map (\<lambda>x. enc_string (pref_string x)) ls))
    (n - length (concat (map (\<lambda>x. enc_string (pref_string x)) ls)))"
  using assms
proof (induction ls arbitrary: w pre n)
  case (Cons x ls)
  obtain p d where x: "x = (p, d)" by fastforce
  have "wrote (KEX_METHOD_PREFS_STR (KEX_METHOD_PREFS_LEN p d) p d w)
      (pre @ enc_string (pref_string x)) (n - (4 + length (pref_string x)))"
    unfolding x by (rule wrote_prefs_str) (use Cons.prems x in auto)
  from Cons.IH [OF this] Cons.prems show ?case by (simp add: x)
qed simp

lemma kexinit_len_eq:
  "\<forall>x \<in> set ls. length (pref_string x) < 2 ^ 32 \<Longrightarrow>
   kexinit_len ls = 62 + (\<Sum>x\<leftarrow>ls. length (pref_string x))"
proof -
  assume a: "\<forall>x \<in> set ls. length (pref_string x) < 2 ^ 32"
  have "(\<Sum>x\<leftarrow>ls. (case x of (p, d) \<Rightarrow> unat (KEX_METHOD_PREFS_LEN p d))) = (\<Sum>x\<leftarrow>ls. length (pref_string x))"
    using a by (intro arg_cong [where f = sum_list] map_cong) (auto simp: prefs_len unat_of_nat_u32)
  then show ?thesis by (simp add: kexinit_len_def)
qed

lemma length_concat_enc:
  "length (concat (map (\<lambda>x. enc_string (f x)) ls)) = 4 * length ls + (\<Sum>x\<leftarrow>ls. length (f x))"
  by (induction ls) simp_all

lemma kexinit_data_wrote:
  assumes "\<forall>x \<in> set ls. length (pref_string x) < 2 ^ 32" "length ls = 10" "length cookie = 16"
  shows "kexinit_data_of cookie ls =
    Some ([20] @ cookie @ concat (map (\<lambda>x. enc_string (pref_string x)) ls) @ [0, 0, 0, 0, 0], kexinit_len ls)"
proof -
  let ?c = "concat (map (\<lambda>x. enc_string (pref_string x)) ls)"
  have n: "kexinit_len ls = 22 + length ?c"
    using kexinit_len_eq [OF assms(1)] assms(2) by (simp add: length_concat_enc)
  have "wrote (Some (replicate (kexinit_len ls) 0, 0)) [] (22 + length ?c)"
    by (simp add: wrote_def n)
  from wrote_wput [OF this, of "[20]"]
  have "wrote (wput [20] (Some (replicate (kexinit_len ls) 0, 0))) [20] (21 + length ?c)" by simp
  from wrote_wput [OF this, of cookie]
  have "wrote (wput cookie (wput [20] (Some (replicate (kexinit_len ls) 0, 0)))) ([20] @ cookie) (5 + length ?c)"
    using assms(3) by simp
  from wrote_lists [OF this assms(1)]
  have "wrote (fold (\<lambda>(p, d). KEX_METHOD_PREFS_STR (KEX_METHOD_PREFS_LEN p d) p d) ls
      (wput cookie (wput [20] (Some (replicate (kexinit_len ls) 0, 0))))) (([20] @ cookie) @ ?c) 5" by simp
  from wrote_wput [OF wrote_wput [OF this, of "[0]"], of "ssh2_htonu32 0"]
  have "wrote (kexinit_data_of cookie ls) (([20] @ cookie) @ ?c @ [0, 0, 0, 0, 0]) 0"
    by (simp add: kexinit_data_of_def Let_def ssh2_htonu32_def)
  then show ?thesis using n assms(3) by (auto simp: wrote_def)
qed

text \<open>A server that offers the key exchange list \<open>k0\<close> and the first method of every other table.\<close>

definition first_offer :: "bytes \<Rightarrow> bytes list" where
  "first_offer k0 = [k0, str ''ssh-ed25519-cert-v01@openssh.com'',
     str ''chacha20-poly1305@openssh.com'', str ''chacha20-poly1305@openssh.com'',
     str ''hmac-sha2-256'', str ''hmac-sha2-256'', str ''none'', str ''none'', [], []]"

definition first_offer_message :: "bytes \<Rightarrow> bytes" where
  "first_offer_message k0 = replicate 17 0 @ concat (map enc_string (first_offer k0)) @ 0 # []"

lemma agree_self: "plain_name n \<Longrightarrow> ssh2_kex_agree_instr n n = Some 0"
proof -
  assume a: "plain_name n"
  then have "takeWhile (\<lambda>c. c \<noteq> comma) n = n" by (auto simp: plain_name_def takeWhile_eq_all_conv)
  then show ?thesis using agree_instr_names(2) [OF a] by (simp add: names_of_hd)
qed

lemma read_first_offer: "length k0 < 100 \<Longrightarrow> read_lists (first_offer_message k0) = Some (first_offer k0, 0)"
  unfolding first_offer_message_def
  by (rule read_lists_enc) (simp_all add: first_offer_def)

lemma small_tables:
  "kex_methods small_build = kex_entry ''curve25519-sha256'' # tl (kex_methods small_build)"
  "ssh2_hostkey_methods small_build =
     hostkey_entry ''ssh-ed25519-cert-v01@openssh.com'' # tl (ssh2_hostkey_methods small_build)"
  "ssh2_crypt_methods small_build =
     crypt_method_chacha20_poly1305_openssh # tl (ssh2_crypt_methods small_build)"
  "ssh2_mac_methods small_build =
     mac_entry ''hmac-sha2-256'' 32 32 False (mac_method_hmac small_build ''SSH2_SHA256_HMAC'') #
       tl (ssh2_mac_methods small_build)"
  "flag_compress s = False \<Longrightarrow> ssh2_comp_methods small_build s = [comp_method_none]"
  "ssh2_mac_override small_build crypt_method_chacha20_poly1305_openssh = None"
  by (simp_all add: small_build_def kex_methods_def ssh2_hostkey_methods_def ssh2_crypt_methods_def
      ssh2_mac_methods_def sha2_entries_def only_if_def ssh2_comp_methods_def ssh2_mac_override_def
      crypt_method_chacha20_poly1305_openssh_def str_def)

lemma agree_table_self:
  "plain_name (nm m) \<Longrightarrow> agree_table (nm m) nm pick (m # ms) = (case pick m 0 of Some r \<Rightarrow> Some r
      | None \<Rightarrow> agree_table (nm m) nm pick ms)"
  using agree_self by simp

definition no_prefs :: "session \<Rightarrow> bool" where
  "no_prefs s \<longleftrightarrow> kex_prefs s = None \<and> hostkey_prefs s = None \<and> flag_compress s = False \<and>
     crypt_prefs (local s) = None \<and> mac_prefs (local s) = None \<and> comp_prefs (local s) = None \<and>
     crypt_prefs (remote s) = None \<and> mac_prefs (remote s) = None \<and> comp_prefs (remote s) = None"

lemma no_prefs_bare: "no_prefs bare_session"
  by (simp add: no_prefs_def bare_session_def session_init_defs)

lemma agree_first_offer:
  assumes "no_prefs s" "kex_agree_kex_hostkey small_build k0 (str ''ssh-ed25519-cert-v01@openssh.com'')
      (s\<lparr>burn_optimistic_kexinit := 0\<rparr>) = (0, s1)" "length k0 < 100"
  shows "\<exists>s'. kex_agree_methods small_build (first_offer_message k0) s = (0, s') \<and> kex s' = kex s1"
proof -
  let ?c = crypt_method_chacha20_poly1305_openssh
  have names: "cm_name ?c = str ''chacha20-poly1305@openssh.com''" "pm_name comp_method_none = str ''none''"
    "mm_name (mac_entry n l kl e f) = str n" for n l kl e f
    by (simp_all add: crypt_method_chacha20_poly1305_openssh_def comp_method_none_def mac_entry_def)
  have cr: "kex_agree_crypt small_build (cm_name ?c) e = (0, e\<lparr>crypt := Some ?c\<rparr>)" if "crypt_prefs e = None" for e
    unfolding kex_agree_crypt_def Let_def that option.case
    by (subst small_tables(3), subst agree_table_self) (simp_all add: names)
  have ma: "\<exists>m. kex_agree_mac small_build (str ''hmac-sha2-256'') e = (0, e\<lparr>mac := Some m\<rparr>)"
    if "mac_prefs e = None" "crypt e = Some ?c" for e
    unfolding kex_agree_mac_def Let_def that option.case small_tables(6)
    by (subst small_tables(4)) (intro exI [of _ "mac_entry ''hmac-sha2-256'' 32 32 False
      (mac_method_hmac small_build ''SSH2_SHA256_HMAC'')"], simp add: names agree_self)
  have co: "kex_agree_comp small_build s (pm_name comp_method_none) e = (0, e\<lparr>comp := Some comp_method_none\<rparr>)"
    if "comp_prefs e = None" "flag_compress s = False" for e s
    unfolding kex_agree_comp_def Let_def that option.case small_tables(5) [OF that(2)]
    by (subst agree_table_self) (simp_all add: names)
  let ?s = "s\<lparr>burn_optimistic_kexinit := 0\<rparr>"
  have p: "crypt_prefs (local ?s) = None" "mac_prefs (local ?s) = None" "comp_prefs (local ?s) = None"
    "crypt_prefs (remote ?s) = None" "mac_prefs (remote ?s) = None" "comp_prefs (remote ?s) = None"
    "flag_compress ?s = False"
    using assms(1) by (simp_all add: no_prefs_def)
  from kex_hostkey_consented [OF assms(2)] p have s1: "local s1 = local ?s" "remote s1 = remote ?s"
    "flag_compress s1 = False" by auto
  from ma [of "(local ?s)\<lparr>crypt := Some ?c\<rparr>"] ma [of "(remote ?s)\<lparr>crypt := Some ?c\<rparr>"] p
  obtain m1 m2 where m:
    "kex_agree_mac small_build (str ''hmac-sha2-256'') ((local ?s)\<lparr>crypt := Some ?c\<rparr>) =
      (0, (local ?s)\<lparr>crypt := Some ?c, mac := Some m1\<rparr>)"
    "kex_agree_mac small_build (str ''hmac-sha2-256'') ((remote ?s)\<lparr>crypt := Some ?c\<rparr>) =
      (0, (remote ?s)\<lparr>crypt := Some ?c, mac := Some m2\<rparr>)" by auto
  show ?thesis
    using s1 m cr [of "local ?s", unfolded names] cr [of "remote ?s", unfolded names] p co [unfolded names] assms(2)
    unfolding kex_agree_methods_def read_first_offer [OF assms(3)] option.case prod.case
    by (simp add: first_offer_def agree_local_def agree_remote_def)
qed

lemma agree_kex_ok:
  assumes "no_prefs s" "find (\<lambda>m. listed k0 (km_name m)) (kex_methods small_build) = Some m"
  shows "\<exists>s1. kex_agree_kex_hostkey small_build k0 (str ''ssh-ed25519-cert-v01@openssh.com'')
      (s\<lparr>burn_optimistic_kexinit := 0\<rparr>) = (0, s1) \<and> kex s1 = Some m"
proof -
  let ?s = "s\<lparr>burn_optimistic_kexinit := 0\<rparr>"
  have p: "kex_prefs ?s = None" "hostkey_prefs ?s = None"
    using assms(1) by (simp_all add: no_prefs_def)
  have u: "usable_prefs km_name (kex_methods small_build) (kex_prefs ?s)"
    "usable_prefs hm_name (ssh2_hostkey_methods small_build) (hostkey_prefs ?s)"
    by (simp_all add: p usable_prefs_def)
  have h: "best_hostkey small_build f (str ''ssh-ed25519-cert-v01@openssh.com'') ?s \<noteq> None"
    if "f AND KEX_METHOD_FLAG_REQ_ENC_HOSTKEY = 0" for f
    using that by (simp add: p choice_eval small_build_def table_defs hostkey_suits_def)
  have f: "km_flags m AND KEX_METHOD_FLAG_REQ_ENC_HOSTKEY = 0" if "m \<in> set (kex_methods small_build)" for m
    using that by (auto simp: small_build_def table_defs KEX_METHOD_FLAG_REQ_SIGN_HOSTKEY_def
        KEX_METHOD_FLAG_REQ_ENC_HOSTKEY_def)
  obtain rc s1 where e: "kex_agree_kex_hostkey small_build k0 (str ''ssh-ed25519-cert-v01@openssh.com'') ?s = (rc, s1)"
    by fastforce
  have "candidates km_name (kex_methods small_build) (kex_prefs ?s) = kex_methods small_build"
    by (simp add: p candidates_def)
  moreover have "find (\<lambda>m. listed k0 (km_name m) \<and>
      best_hostkey small_build (km_flags m) (str ''ssh-ed25519-cert-v01@openssh.com'') ?s \<noteq> None)
      (kex_methods small_build) = Some m"
    unfolding assms(2) [symmetric] by (rule find_cong) (use h f in auto)
  ultimately show ?thesis using kex_choice_find [OF u e] e by simp
qed

lemma first_offer_agreed:
  "\<exists>s'. kex_agree_methods small_build (first_offer_message (str ''curve25519-sha256'')) bare_session = (0, s')"
proof -
  have "find (\<lambda>m. listed (str ''curve25519-sha256'') (km_name m)) (kex_methods small_build) =
      Some (kex_entry ''curve25519-sha256'')"
    by (simp add: choice_eval small_build_def table_defs)
  from agree_kex_ok [OF no_prefs_bare this] show ?thesis
    using agree_first_offer [OF no_prefs_bare, of "str ''curve25519-sha256''"] by force
qed


text \<open>
  C18. The KEXINIT message is complete and exactly fills the block that was allocated for it, no store
  of \<open>kex_init\<close> goes outside (the comma behind each list included), and a peer that parses it the way
  \<open>kex_agree_methods\<close> does reads the ten lists back, the flag being 0.
\<close>

theorem kexinit_message:
  assumes "\<forall>x \<in> set (kexinit_lists b s). length (pref_string x) < 2 ^ 32" "length cookie = 16"
  shows "\<exists>data. kexinit_data_of cookie (kexinit_lists b s) = Some (data, length data) \<and>
    length data = kexinit_len (kexinit_lists b s) \<and>
    read_lists data = Some (map pref_string (kexinit_lists b s), 0)"
proof -
  let ?ls = "kexinit_lists b s"
  have ten: "length ?ls = 10" by (simp add: kexinit_lists_def)
  let ?d = "[20] @ cookie @ concat (map (\<lambda>x. enc_string (pref_string x)) ?ls) @ [0, 0, 0, 0, 0]"
  have k: "kexinit_data_of cookie ?ls = Some (?d, kexinit_len ?ls)"
    by (rule kexinit_data_wrote [OF assms(1) ten assms(2)])
  have len: "length ?d = kexinit_len ?ls"
    using kexinit_len_eq [OF assms(1)] ten assms(2) by (simp add: length_concat_enc)
  have "(\<Sum>x\<leftarrow>?ls. length (pref_string x)) \<le> (\<Sum>x\<leftarrow>?ls. 2 ^ 32)"
    using assms(1) by (intro sum_list_mono) (simp add: less_imp_le)
  also have "\<dots> = 10 * 2 ^ 32" using ten by (simp add: sum_list_triv)
  finally have "length ?d < 2 ^ 63" using kexinit_len_eq [OF assms(1)] len by simp
  moreover have m: "map (\<lambda>x. enc_string (pref_string x)) ?ls = map enc_string (map pref_string ?ls)" by simp
  ultimately have "read_lists (([20] @ cookie) @ concat (map enc_string (map pref_string ?ls)) @ 0 # [0, 0, 0, 0]) =
      Some (map pref_string ?ls, 0)"
    using assms ten by (intro read_lists_enc) (simp_all only: m, auto)
  then have "read_lists ?d = Some (map pref_string ?ls, 0)" unfolding m by simp
  then show ?thesis using k len by auto
qed


theorem kexinit_message_witness:
  "\<exists>data. kexinit_data_of (replicate 16 7) (kexinit_lists small_build bare_session) = Some (data, length data)"
proof -
  have "\<forall>x \<in> set (kexinit_lists small_build bare_session). length (pref_string x) < 2 ^ 32"
    by (simp add: kexinit_lists_def bare_session_def session_init_defs pref_string_def length_join_names
        kex_method_strlen_def small_build_def table_defs Let_def)
  from kexinit_message [OF this, of "replicate 16 7"] show ?thesis by auto
qed

subsection \<open>The course of an exchange\<close>

lemma clr_bits: "\<not> has_st SSH2_STATE_KEX_ACTIVE (kex_bits_off s)"
  "\<not> has_st SSH2_STATE_EXCHANGING_KEYS (kex_bits_off s)" "\<not> has_st SSH2_STATE_INITIAL_KEX (kex_bits_off s)"
  by (simp_all add: kex_bits_off_def state_bits)

lemma has_st_fields [simp]:
  "has_st b (set_ks x s) = has_st b s" "has_st b (upd_local f s) = has_st b s"
  "has_st b (upd_remote f s) = has_st b s" "has_st b (s\<lparr>err_code := e\<rparr>) = has_st b s"
  by (simp_all add: has_st_def set_ks_def upd_defs)

lemma ks_fields [simp]:
  "ks (set_ks x s) = x" "ks (kex_bits_off s) = ks s" "ks (clr_st b s) = ks s"
  "ks (upd_local f s) = ks s" "ks (upd_remote f s) = ks s"
  by (simp_all add: ks_def set_ks_def kex_bits_off_def clr_st_def upd_defs)

text \<open>The two ways an exchange that has not succeeded leaves the session.\<close>

definition kex_paused :: "rc \<Rightarrow> session \<Rightarrow> bool" where
  "kex_paused rc s \<longleftrightarrow> rc = LIBSSH2_ERROR_EAGAIN \<and> \<not> has_st SSH2_STATE_KEX_ACTIVE s"

definition kex_closed :: "session \<Rightarrow> bool" where
  "kex_closed s \<longleftrightarrow> \<not> has_st SSH2_STATE_KEX_ACTIVE s \<and> \<not> has_st SSH2_STATE_EXCHANGING_KEYS s \<and>
     \<not> has_st SSH2_STATE_INITIAL_KEX s \<and> ks s = NB_idle"

lemma kex_eagain_paused: "kex_eagain s = (rc, s') \<Longrightarrow> kex_paused rc s'"
  by (auto simp: kex_eagain_def kex_paused_def)

lemma kex_fail_closed: "kex_fail s = (rc, s') \<Longrightarrow> kex_closed s' \<and> rc = LIBSSH2_ERROR_KEX_FAILURE"
  by (auto simp: kex_fail_def kex_closed_def clr_bits)

lemma kex_exchange_end_closed: "kex_exchange_end r s = (rc, s') \<Longrightarrow> kex_closed s' \<and> rc = r"
  by (auto simp: kex_exchange_end_def kex_closed_def clr_bits)

lemma kex_kexinit_Inl:
  "kex_kexinit b kx req s = Inl (rc, s') \<Longrightarrow> kex_paused rc s' \<or> kex_closed s' \<and> rc = LIBSSH2_ERROR_KEX_FAILURE"
  by (auto simp: kex_kexinit_def Let_def split: prod.splits if_splits
      dest!: kex_eagain_paused kex_fail_closed)

lemma kex_kexinit_Inr: "kex_kexinit b kx req s = Inr (rc, s') \<Longrightarrow> rc = 0 \<or> rc = LIBSSH2_ERROR_KEX_FAILURE"
  by (auto simp: kex_kexinit_def Let_def split: prod.splits if_splits)

text \<open>
  C14. Whatever sending, waiting and the method itself do, \<open>ssh2_kex_exchange\<close> either asks to be called again,
  with only the marker of its own activity withdrawn, or it is over: all three state bits are clear and
  the machine is back at its start, on success and on every failure.
\<close>

theorem kex_exchange_ends_or_pauses:
  assumes "ssh2_kex_exchange b kx req xk reexchange s = (rc, s')"
  shows "(rc = LIBSSH2_ERROR_EAGAIN \<and> \<not> has_st SSH2_STATE_KEX_ACTIVE s') \<or>
    (rc \<in> {0, LIBSSH2_ERROR_KEX_FAILURE, LIBSSH2_ERROR_KEY_EXCHANGE_FAILURE} \<and>
     \<not> has_st SSH2_STATE_KEX_ACTIVE s' \<and> \<not> has_st SSH2_STATE_EXCHANGING_KEYS s' \<and>
     \<not> has_st SSH2_STATE_INITIAL_KEX s' \<and> ks s' = NB_idle)"
proof -
  let ?s = "kex_begin reexchange s"
  define r where "r = (if kex ?s = None \<or> hostkey ?s = None then kex_kexinit b kx req ?s
      else Inr (0, set_ks NB_sent2 ?s))"
  have "kex_paused rc s' \<or> kex_closed s' \<and> rc \<in> {0, LIBSSH2_ERROR_KEX_FAILURE, LIBSSH2_ERROR_KEY_EXCHANGE_FAILURE}"
  proof (cases r)
    case (Inl x)
    then have "kex_kexinit b kx req ?s = Inl (rc, s')"
      using assms unfolding ssh2_kex_exchange_def Let_def r_def [symmetric]
      by (auto simp: r_def split: if_splits)
    from kex_kexinit_Inl [OF this] show ?thesis by auto
  next
    case (Inr x)
    obtain rc1 s1 where x: "x = (rc1, s1)" by fastforce
    have "rc1 = 0 \<or> rc1 = LIBSSH2_ERROR_KEX_FAILURE"
      using Inr x kex_kexinit_Inr [of b kx req ?s rc1 s1] by (auto simp: r_def split: if_splits)
    then show ?thesis
      using assms unfolding ssh2_kex_exchange_def Let_def r_def [symmetric] Inr x sum.case prod.case
      by (auto simp: ssh2_err_def split: option.splits if_splits prod.splits
          dest!: kex_eagain_paused kex_exchange_end_closed)
  qed
  then show ?thesis by (auto simp: kex_paused_def kex_closed_def)
qed

theorem kex_exchange_ends_or_pauses_witness:
  "fst (ssh2_kex_exchange small_build (\<lambda>s. (0, s)) (\<lambda>s. (0, [], s)) (\<lambda>m s. (- 1, s)) False
     (bare_session\<lparr>kex := Some (kex_entry ''x''), hostkey := Some (hostkey_entry ''y'')\<rparr>)) =
   LIBSSH2_ERROR_KEY_EXCHANGE_FAILURE"
proof -
  let ?s = "bare_session\<lparr>kex := Some (kex_entry ''x''), hostkey := Some (hostkey_entry ''y'')\<rparr>"
  obtain rc s' where e: "ssh2_kex_exchange small_build (\<lambda>s. (0, s)) (\<lambda>s. (0, [], s)) (\<lambda>m s. (- 1, s)) False ?s = (rc, s')"
    by fastforce
  moreover have "fst (ssh2_kex_exchange small_build (\<lambda>s. (0, s)) (\<lambda>s. (0, [], s)) (\<lambda>m s. (- 1, s)) False ?s) \<noteq> 0"
    "fst (ssh2_kex_exchange small_build (\<lambda>s. (0, s)) (\<lambda>s. (0, [], s)) (\<lambda>m s. (- 1, s)) False ?s) \<noteq> - 37"
    "fst (ssh2_kex_exchange small_build (\<lambda>s. (0, s)) (\<lambda>s. (0, [], s)) (\<lambda>m s. (- 1, s)) False ?s) \<noteq> - 5"
    by (simp_all add: ssh2_kex_exchange_def kex_begin_def Let_def ks_def set_ks_def bare_session_def session_init_defs
        key_exchange_state_0_def set_st_def kex_entry_def ssh2_err_def kex_exchange_end_def)
  ultimately show ?thesis using kex_exchange_ends_or_pauses [OF e] by simp
qed


subsection \<open>Preferences\<close>

lemma names_of_prefix:
  "\<forall>n \<in> set ds. comma \<notin> set n \<Longrightarrow> names_of (concat (map (\<lambda>n. n @ [comma]) ds) @ t) = ds @ names_of t"
proof (induction ds)
  case (Cons d ds)
  have d: "\<forall>c \<in> set d. c \<noteq> comma" using Cons.prems by auto
  then have "takeWhile (\<lambda>c. c \<noteq> comma) (d @ comma # x) = d" "after_comma (d @ comma # x) = x" for x
    by (simp_all add: after_comma_def takeWhile_append2 dropWhile_append2)
  then show ?case using Cons by (subst names_of_eq) simp
qed simp

lemma get_name_iff:
  "\<forall>n \<in> set ns. plain_name n \<Longrightarrow> kex_get_method_by_name (\<lambda>n. n) name ns = None \<longleftrightarrow> name \<notin> set ns"
  by (subst get_method_find) (auto simp: find_None_iff)

lemma strip_names_keeps:
  assumes "\<forall>n \<in> set ns. plain_name n" "\<forall>n \<in> set ds. comma \<notin> set n"
  shows "filter (\<lambda>n. n \<noteq> []) (names_of (strip_names ns (concat (map (\<lambda>n. n @ [comma]) ds)) s)) =
    filter (\<lambda>n. n \<noteq> []) ds @ filter (\<lambda>n. n \<in> set ns) (names_of s)"
  using assms(2)
proof (induction s arbitrary: ds rule: names_induct)
  case (step s)
  let ?pre = "concat (map (\<lambda>n. n @ [comma]) ds)"
  let ?name = "takeWhile (\<lambda>c. c \<noteq> comma) s"
  have ne: "[] \<notin> set ns" using assms(1) by (auto simp: plain_name_def)
  have e: "names_of [] = [[]]" by (subst names_of_eq) simp
  have pre: "names_of ?pre = ds @ [[]]" using names_of_prefix [OF step.prems, of "[]"] e by simp
  have g: "kex_get_method_by_name (\<lambda>n. n) n ns = None \<longleftrightarrow> n \<notin> set ns" for n
    by (rule get_name_iff [OF assms(1)])
  have dw: "dropWhile (\<lambda>c. c \<noteq> comma) s = [] \<longleftrightarrow> comma \<notin> set s" by (auto simp: dropWhile_eq_Nil_conv)
  consider (empty) "s = []" | (last) "s \<noteq> []" "comma \<notin> set s" | (more) "comma \<in> set s" by blast
  then show ?case
  proof cases
    case empty
    then show ?thesis using pre ne e by (simp add: strip_names.simps)
  next
    case last
    have n: "?name = s" "names_of s = [s]"
      using last(2) names_of_eq [of s] by (auto simp: takeWhile_eq_all_conv)
    show ?thesis
    proof (cases "s \<in> set ns")
      case True
      have "strip_names ns ?pre s = ?pre @ s"
        using last dw g n True by (subst strip_names.simps) (simp only: Let_def if_False if_True simp_thms)
      then show ?thesis using names_of_prefix [OF step.prems, of s] n True last(1) by simp
    next
      case False
      have st: "strip_names ns ?pre s = (if ?pre \<noteq> [] then butlast ?pre else [])"
        using last dw g n False by (subst strip_names.simps) (simp only: Let_def if_False if_True simp_thms)
      show ?thesis
      proof (cases "ds = []")
        case True
        then show ?thesis using st e n False by simp
      next
        case nonempty: False
        then have "?pre \<noteq> []" "butlast ?pre = join_names ds" by (auto simp: join_names_commas)
        then have "names_of (strip_names ns ?pre s) = ds"
          using st names_of_join [OF nonempty step.prems] by simp
        then show ?thesis using n False by simp
      qed
    qed
  next
    case more
    then have s: "s \<noteq> []" by auto
    have n: "names_of s = ?name # names_of (after_comma s)" using more names_of_eq [of s] by simp
    have nc: "comma \<notin> set ?name" by (auto dest: set_takeWhileD)
    show ?thesis
    proof (cases "?name \<in> set ns")
      case True
      have "strip_names ns ?pre s = strip_names ns (?pre @ ?name @ [comma]) (after_comma s)"
        unfolding after_comma_def
        using more dw g True s by (subst strip_names.simps) (simp only: Let_def if_False if_True simp_thms)
      also have "\<dots> = strip_names ns (concat (map (\<lambda>n. n @ [comma]) (ds @ [?name]))) (after_comma s)" by simp
      finally show ?thesis
        using step.IH [OF more, of "ds @ [?name]"] step.prems nc n True ne by auto
    next
      case False
      have "strip_names ns ?pre s = strip_names ns ?pre (after_comma s)"
        unfolding after_comma_def
        using more dw g False s by (subst strip_names.simps) (simp only: Let_def if_False if_True simp_thms)
      then show ?thesis using step.IH [OF more step.prems] n False by simp
    qed
  qed
qed

fun get_pref :: "method_type \<Rightarrow> session \<Rightarrow> bytes option" where
  "get_pref METHOD_KEX s = kex_prefs s"
| "get_pref METHOD_HOSTKEY s = hostkey_prefs s"
| "get_pref METHOD_CRYPT_CS s = crypt_prefs (local s)"
| "get_pref METHOD_CRYPT_SC s = crypt_prefs (remote s)"
| "get_pref METHOD_MAC_CS s = mac_prefs (local s)"
| "get_pref METHOD_MAC_SC s = mac_prefs (remote s)"
| "get_pref METHOD_COMP_CS s = comp_prefs (local s)"
| "get_pref METHOD_COMP_SC s = comp_prefs (remote s)"
| "get_pref METHOD_LANG_CS s = lang_prefs (local s)"
| "get_pref METHOD_LANG_SC s = lang_prefs (remote s)"
| "get_pref METHOD_SIGN_ALGO s = sign_algo_prefs s"
| "get_pref METHOD_invalid s = None"

lemma get_set_pref: "t \<noteq> METHOD_invalid \<Longrightarrow> get_pref t (set_pref t p s) = Some p"
  by (cases t) (simp_all add: upd_defs)

lemma pref_methods_plain: "pref_methods b s t = Some (Some ns) \<Longrightarrow> \<forall>n \<in> set ns. plain_name n"
  by (cases t) (auto intro: names_plain)

lemma kex_extensions_names: "kex_extensions = concat (map (\<lambda>n. n @ [comma])
    [str ''ext-info-c'', str ''kex-strict-c-v00@openssh.com''])"
  by (simp add: kex_extensions_def str_def)

text \<open>
  C24. Preferences set through \<open>libssh2_session_method_pref\<close> are exactly the supported ones of the names asked
  for, in their order (for key exchange methods behind the two markers of the client); so they are usable in
  the sense of the choice above, and \<open>kex_agree_methods\<close> never meets an unknown name.
\<close>

theorem method_pref_keeps_supported:
  assumes "libssh2_session_method_pref b t (Some p) s = (0, s')" "pref_methods b s t = Some (Some ns)"
  shows "\<exists>p'. get_pref t s' = Some p' \<and>
    filter (\<lambda>n. n \<noteq> []) (names_of p') =
      (if t = METHOD_KEX then [str ''ext-info-c'', str ''kex-strict-c-v00@openssh.com''] else []) @
      filter (\<lambda>n. n \<in> set ns) (names_of p) \<and>
    (\<forall>n \<in> set (names_of p'). n = [] \<or> n \<in> set ns)"
proof -
  let ?q = "strip_names ns [] p"
  have pl: "\<forall>n \<in> set ns. plain_name n" by (rule pref_methods_plain [OF assms(2)])
  have q: "filter (\<lambda>n. n \<noteq> []) (names_of ?q) = filter (\<lambda>n. n \<in> set ns) (names_of p)"
    using strip_names_keeps [OF pl, of "[]" p] by simp
  have t: "t \<noteq> METHOD_invalid" using assms(2) by auto
  let ?ext = "[str ''ext-info-c'', str ''kex-strict-c-v00@openssh.com'']"
  have x: "\<forall>n \<in> set ?ext. comma \<notin> set n" "\<forall>n \<in> set ?ext. n \<noteq> []"
    using plain_name_str [of "''ext-info-c''"] plain_name_str [of "''kex-strict-c-v00@openssh.com''"]
    by (auto simp: plain_name_def)
  obtain p' where p': "get_pref t s' = Some p'" "p' = (if t = METHOD_KEX then kex_extensions @ ?q else ?q)"
    using assms get_set_pref [OF t]
    by (auto simp: libssh2_session_method_pref_def ssh2_err_def Let_def split: prod.splits if_splits)
  have f: "filter (\<lambda>n. n \<noteq> []) (names_of p') = (if t = METHOD_KEX then ?ext else []) @
      filter (\<lambda>n. n \<in> set ns) (names_of p)"
  proof (cases "t = METHOD_KEX")
    case True
    then have "names_of p' = ?ext @ names_of ?q"
      unfolding p'(2) kex_extensions_names using names_of_prefix [OF x(1), of ?q] by simp
    then show ?thesis using q x(2) True by simp
  next
    case False
    then show ?thesis using q p'(2) by simp
  qed
  have "set ?ext \<subseteq> set ns" if "t = METHOD_KEX"
    using assms(2) that by (auto simp: kex_methods_def kex_marker_def)
  then have e: "set (if t = METHOD_KEX then ?ext else []) \<subseteq> set ns" by (simp only: split: if_split) simp
  have "set (filter (\<lambda>n. n \<noteq> []) (names_of p')) \<subseteq> set ns"
    unfolding f set_append set_filter using e by blast
  then have "\<forall>n \<in> set (names_of p'). n = [] \<or> n \<in> set ns" by auto
  then show ?thesis using p'(1) f by blast
qed

theorem method_pref_keeps_supported_witness:
  "\<exists>s' p'. libssh2_session_method_pref small_build METHOD_MAC_CS (Some (str ''x,hmac-sha2-256,y'')) bare_session =
      (0, s') \<and> get_pref METHOD_MAC_CS s' = Some p' \<and>
      filter (\<lambda>n. n \<noteq> []) (names_of p') = [str ''hmac-sha2-256'']"
proof -
  let ?ns = "map mm_name (ssh2_mac_methods small_build)" and ?p = "str ''x,hmac-sha2-256,y''"
  have ns: "pref_methods small_build bare_session METHOD_MAC_CS = Some (Some ?ns)" by simp
  have f: "filter (\<lambda>n. n \<in> set ?ns) (names_of ?p) = [str ''hmac-sha2-256'']"
    by (simp add: choice_eval small_build_def table_defs)
  have "filter (\<lambda>n. n \<noteq> []) (names_of (strip_names ?ns [] ?p)) = [str ''hmac-sha2-256'']"
    using strip_names_keeps [OF pref_methods_plain [OF ns], of "[]" ?p] f by simp
  then have "strip_names ?ns [] ?p \<noteq> []" using names_of_eq [of "[]"] by auto
  then obtain s' where s': "libssh2_session_method_pref small_build METHOD_MAC_CS (Some ?p) bare_session = (0, s')"
    by (auto simp: libssh2_session_method_pref_def ssh2_alloc_def bare_session_def session_init_defs)
  from method_pref_keeps_supported [OF s' ns] f s' show ?thesis by auto
qed

end
