(* ===== verification/SessionIO.thy ===== *)
theory SessionIO
  imports Transport
begin

text \<open>
  The parts of \<open>session.c\<close> and \<open>keepalive.c\<close> that wait for the socket or speak to the peer on the session's
  own behalf: \<open>ssh2_wait_socket\<close> and the blocking loop around every call of the API, keep-alive messages,
  disconnecting.  \<open>tsend\<close> is \<open>ssh2_transport_send\<close>.

  An array that is local to a function is taken to lie at the same address in every call of it.
\<close>

type_synonym sender = "ptr \<Rightarrow> bytes \<Rightarrow> bytes \<Rightarrow> session \<Rightarrow> rc \<times> session"
type_synonym reader = "session \<Rightarrow> rc \<times> session"

text \<open>\<open>ssh2_err\<close> where its result is not used.\<close>

definition note_err :: "int \<Rightarrow> session \<Rightarrow> session" where
  "note_err e s = s\<lparr>err_code := e\<rparr>"

subsection \<open>\<open>keepalive.c\<close>\<close>

definition libssh2_keepalive_config :: "bool \<Rightarrow> u32 \<Rightarrow> session \<Rightarrow> session" where
  "libssh2_keepalive_config want_reply interval_s s =
     s\<lparr>keepalive_interval := (if interval_s = 1 then 2 else uint interval_s) * 1000000,
       keepalive_want_reply := want_reply\<rparr>"

definition keepalive_data :: "bool \<Rightarrow> bytes" where
  "keepalive_data want_reply =
     [0x50, 0, 0, 0, 0x15] @ str ''keepalive@libssh2.org'' @ [if want_reply then 1 else 0]"

text \<open>The second component is what is stored in \<open>*seconds_to_next\<close>.\<close>

definition libssh2_keepalive_send :: "sender \<Rightarrow> session \<Rightarrow> rc \<times> int \<times> session" where
  "libssh2_keepalive_send tsend s =
     (if keepalive_interval s = 0 then (LIBSSH2_ERROR_NONE, 0, s)
      else
        case ssh2_now s of (now, s) \<Rightarrow>
        case (if now \<ge> keepalive_last_sent s + keepalive_interval s then
                (case tsend (''keepalive'', 0) (keepalive_data (keepalive_want_reply s)) [] s of (rc, s) \<Rightarrow>
                   if rc \<noteq> 0 \<and> rc \<noteq> LIBSSH2_ERROR_EAGAIN
                   then (rc, note_err LIBSSH2_ERROR_SOCKET_SEND s)
                   else (0, s\<lparr>keepalive_last_sent := now\<rparr>))
              else (0, s)) of (rc, s) \<Rightarrow>
          if rc \<noteq> 0 then (rc, 0, s)
          else
            let to_next = (keepalive_interval s + (keepalive_last_sent s - now)) div 1000000
            in (LIBSSH2_ERROR_NONE, min to_next 2147483647, s))"

subsection \<open>Waiting for the socket\<close>

text \<open>
  What \<open>poll\<close> returns comes from the script \<open>polls\<close>: the number of ready descriptors, 0 for a time-out,
  a negated \<open>errno\<close>; when the script is exhausted, it fails.
\<close>

definition sys_poll :: "session \<Rightarrow> int \<times> session" where
  "sys_poll s = (case polls s of [] \<Rightarrow> (- 1, s) | r # rs \<Rightarrow> (r, s\<lparr>polls := rs\<rparr>))"

abbreviation (input) EINTR :: int where "EINTR \<equiv> 4"

definition elapsed_since :: "int \<Rightarrow> session \<Rightarrow> int \<times> session" where
  "elapsed_since start_time s =
     (case ssh2_now s of (now, s) \<Rightarrow> (if now > start_time then now - start_time else 0, s))"

definition wait_polled :: "int \<Rightarrow> int \<Rightarrow> u32 \<Rightarrow> session \<Rightarrow> rc \<times> session" where
  "wait_polled start_time api_timeout dir s =
     (case sys_poll s of (rc, s) \<Rightarrow>
        if rc = 0 then
          if api_timeout > 0 then
            (case elapsed_since start_time s of (elapsed_time, s) \<Rightarrow>
               if elapsed_time \<ge> api_timeout then ssh2_err LIBSSH2_ERROR_TIMEOUT s else (0, s))
          else if keepalive_interval s > 0 \<or> dir = 0 then (0, s)
          else ssh2_err LIBSSH2_ERROR_TIMEOUT s
        else if rc < 0 then
          if rc = - EINTR then (0, s) else ssh2_err LIBSSH2_ERROR_TIMEOUT s
        else (0, s))"

definition ssh2_wait_socket :: "sender \<Rightarrow> int \<Rightarrow> session \<Rightarrow> rc \<times> session" where
  "ssh2_wait_socket tsend start_time s =
     (let api_timeout = api_timeout_ms s * 1000;
          s = s\<lparr>err_code := LIBSSH2_ERROR_NONE\<rparr>
      in case libssh2_keepalive_send tsend s of (rc, seconds_to_next, s) \<Rightarrow>
           if rc \<noteq> 0 then (rc, s)
           else
             let dir = block_directions s;
                 time_to_next = (if dir = 0 then 1000 * 1000 else seconds_to_next * 1000000)
             in if api_timeout > 0 \<and> (seconds_to_next = 0 \<or> time_to_next > api_timeout) then
                  (case elapsed_since start_time s of (elapsed_time, s) \<Rightarrow>
                     if elapsed_time > api_timeout then ssh2_err LIBSSH2_ERROR_TIMEOUT s
                     else wait_polled start_time api_timeout dir s)
                else wait_polled start_time api_timeout dir s)"

text \<open>
  \<open>BLOCK_ADJUST\<close>: the call is repeated while it would block and the session is in blocking mode.  Every
  round that is followed by another takes an entry of \<open>polls\<close>, which bounds the loop.
\<close>

fun block_loop :: "sender \<Rightarrow> int \<Rightarrow> nat \<Rightarrow> (session \<Rightarrow> rc \<times> 'a \<times> session) \<Rightarrow> session \<Rightarrow>
    rc \<times> 'a option \<times> session" where
  "block_loop tsend entry_time 0 x s = (LIBSSH2_ERROR_EAGAIN, None, set_fault s)"
| "block_loop tsend entry_time (Suc n) x s =
     (case x s of (rc, a, s) \<Rightarrow>
        if rc \<noteq> LIBSSH2_ERROR_EAGAIN \<or> \<not> api_block_mode s then (rc, Some a, s)
        else
          case ssh2_wait_socket tsend entry_time s of (rc, s) \<Rightarrow>
            if rc \<noteq> 0 then (rc, None, s) else block_loop tsend entry_time n x s)"

text \<open>With a result beside the status, and without.\<close>

definition block_adjust_out :: "sender \<Rightarrow> (session \<Rightarrow> rc \<times> 'a \<times> session) \<Rightarrow> session \<Rightarrow>
    rc \<times> 'a option \<times> session" where
  "block_adjust_out tsend x s =
     (case ssh2_now s of (entry_time, s) \<Rightarrow> block_loop tsend entry_time (Suc (length (polls s))) x s)"

definition block_adjust :: "sender \<Rightarrow> (session \<Rightarrow> rc \<times> session) \<Rightarrow> session \<Rightarrow> rc \<times> session" where
  "block_adjust tsend x s =
     (case block_adjust_out tsend (\<lambda>s. case x s of (rc, s) \<Rightarrow> (rc, (), s)) s of (rc, _, s) \<Rightarrow> (rc, s))"

subsection \<open>Disconnecting\<close>

abbreviation (input) SSH_DISCONNECT_BY_APPLICATION :: u32 where "SSH_DISCONNECT_BY_APPLICATION \<equiv> 11"

definition session_disconnect :: "sender \<Rightarrow> u32 \<Rightarrow> bytes \<Rightarrow> bytes \<Rightarrow> session \<Rightarrow> rc \<times> session" where
  "session_disconnect tsend reason description lang s =
     (if disconnect_state s = NB_idle \<and> (length description > 256 \<or> length lang > 256)
      then ssh2_err LIBSSH2_ERROR_INVAL s
      else
        let (lang, s) =
              (if disconnect_state s = NB_idle
               then (lang, s\<lparr>disconnect_data := [1] @ ssh2_htonu32 reason @
                            fst (ssh2_store_str [] description) @ ssh2_htonu32 (of_nat (length lang)),
                          disconnect_state := NB_created\<rparr>)
               else ([], s))
        in case tsend (''disconnect'', 0) (disconnect_data s) lang s of (rc, s) \<Rightarrow>
             if rc = LIBSSH2_ERROR_EAGAIN then (rc, s)
             else (0, s\<lparr>disconnect_state := NB_idle\<rparr>))"

definition libssh2_session_disconnect_ex :: "sender \<Rightarrow> u32 \<Rightarrow> bytes \<Rightarrow> bytes \<Rightarrow> session \<Rightarrow> rc \<times> session" where
  "libssh2_session_disconnect_ex tsend reason description lang s =
     block_adjust tsend (session_disconnect tsend reason description lang)
       (clr_st SSH2_STATE_EXCHANGING_KEYS (clr_st SSH2_STATE_INITIAL_KEX s))"

definition libssh2_session_disconnect :: "sender \<Rightarrow> bytes \<Rightarrow> session \<Rightarrow> rc \<times> session" where
  "libssh2_session_disconnect tsend description s =
     libssh2_session_disconnect_ex tsend SSH_DISCONNECT_BY_APPLICATION description [] s"

end
