(* ===== verification/ChanBase.thy ===== *)
theory ChanBase
  imports SessionIO
begin

text \<open>
  The operations of \<open>channel.c\<close> that the packet handler uses: handing out channel numbers, finding a channel,
  and announcing a larger receive window.
\<close>

unbundle bit_operations_syntax

abbreviation (input) LIBSSH2_CHANNEL_WINDOW_DEFAULT :: u32 where
  "LIBSSH2_CHANNEL_WINDOW_DEFAULT \<equiv> 2097152"
abbreviation (input) LIBSSH2_CHANNEL_PACKET_DEFAULT :: u32 where
  "LIBSSH2_CHANNEL_PACKET_DEFAULT \<equiv> 32768"
abbreviation (input) LIBSSH2_CHANNEL_MINADJUST :: u32 where "LIBSSH2_CHANNEL_MINADJUST \<equiv> 1024"
abbreviation (input) LIBSSH2_CHANNEL_EXTENDED_DATA_IGNORE :: int where
  "LIBSSH2_CHANNEL_EXTENDED_DATA_IGNORE \<equiv> 1"
abbreviation (input) LIBSSH2_CHANNEL_EXTENDED_DATA_MERGE :: int where
  "LIBSSH2_CHANNEL_EXTENDED_DATA_MERGE \<equiv> 2"

abbreviation (input) SSH_MSG_CHANNEL_OPEN :: u8 where "SSH_MSG_CHANNEL_OPEN \<equiv> 90"
abbreviation (input) SSH_MSG_CHANNEL_OPEN_CONFIRMATION :: u8 where "SSH_MSG_CHANNEL_OPEN_CONFIRMATION \<equiv> 91"
abbreviation (input) SSH_MSG_CHANNEL_OPEN_FAILURE :: u8 where "SSH_MSG_CHANNEL_OPEN_FAILURE \<equiv> 92"
abbreviation (input) SSH_MSG_CHANNEL_WINDOW_ADJUST :: u8 where "SSH_MSG_CHANNEL_WINDOW_ADJUST \<equiv> 93"
abbreviation (input) SSH_MSG_CHANNEL_DATA :: u8 where "SSH_MSG_CHANNEL_DATA \<equiv> 94"
abbreviation (input) SSH_MSG_CHANNEL_EXTENDED_DATA :: u8 where "SSH_MSG_CHANNEL_EXTENDED_DATA \<equiv> 95"
abbreviation (input) SSH_MSG_CHANNEL_EOF :: u8 where "SSH_MSG_CHANNEL_EOF \<equiv> 96"
abbreviation (input) SSH_MSG_CHANNEL_CLOSE :: u8 where "SSH_MSG_CHANNEL_CLOSE \<equiv> 97"
abbreviation (input) SSH_MSG_CHANNEL_REQUEST :: u8 where "SSH_MSG_CHANNEL_REQUEST \<equiv> 98"
abbreviation (input) SSH_MSG_CHANNEL_SUCCESS :: u8 where "SSH_MSG_CHANNEL_SUCCESS \<equiv> 99"
abbreviation (input) SSH_MSG_CHANNEL_FAILURE :: u8 where "SSH_MSG_CHANNEL_FAILURE \<equiv> 100"

subsection \<open>Channel numbers\<close>

text \<open>
  The numbers in use: those of all channels, and those of channels whose opening is being confirmed to the
  peer.  A channel is named by its number here, so a number that is handed out twice, which the code does
  after its 32-bit counter has wrapped around, is recorded as a fault.
\<close>

definition pending_channel :: "listen_state \<Rightarrow> channel list" where
  "pending_channel q =
     (if qs_state q = NB_created then case qs_channel q of None \<Rightarrow> [] | Some c \<Rightarrow> [c] else [])"

definition pending_channels :: "session \<Rightarrow> channel list" where
  "pending_channels s =
     pending_channel (packAdd_Qlstn_state s) @ pending_channel (packAdd_x11open_state s) @
     pending_channel (packAdd_authagent_state s)"

definition used_ids :: "session \<Rightarrow> u32 list" where
  "used_ids s = map ch_id (all_channels s @ pending_channels s)"

fun nextid_loop :: "u32 \<Rightarrow> channel list \<Rightarrow> u32" where
  "nextid_loop i [] = i"
| "nextid_loop i (channel # r) = nextid_loop (if ch_id channel > i then ch_id channel else i) r"

definition ssh2_channel_nextid :: "session \<Rightarrow> u32 \<times> session" where
  "ssh2_channel_nextid s =
     (let i = nextid_loop (next_channel s) (channels s)
      in (i, c_assert (i \<notin> set (used_ids s)) (s\<lparr>next_channel := i + 1\<rparr>)))"

subsection \<open>Finding a channel\<close>

fun locate_in :: "u32 \<Rightarrow> channel list \<Rightarrow> u32 option" where
  "locate_in channel_id [] = None"
| "locate_in channel_id (channel # r) =
     (if ch_id channel = channel_id then Some (ch_id channel) else locate_in channel_id r)"

fun locate_queued :: "u32 \<Rightarrow> listener list \<Rightarrow> u32 option" where
  "locate_queued channel_id [] = None"
| "locate_queued channel_id (l # r) =
     (case locate_in channel_id (ls_queue l) of None \<Rightarrow> locate_queued channel_id r | Some c \<Rightarrow> Some c)"

definition ssh2_channel_locate :: "session \<Rightarrow> u32 \<Rightarrow> u32 option" where
  "ssh2_channel_locate s channel_id =
     (case locate_in channel_id (channels s) of
        Some c \<Rightarrow> Some c
      | None \<Rightarrow> locate_queued channel_id (listeners s))"

subsection \<open>The receive window\<close>

definition upd_rwin :: "(u32 \<Rightarrow> u32) \<Rightarrow> channel \<Rightarrow> channel" where
  "upd_rwin f c = c\<lparr>ch_remote := (ch_remote c)\<lparr>window_size := f (window_size (ch_remote c))\<rparr>\<rparr>"

abbreviation "rwin c \<equiv> window_size (ch_remote c)"
abbreviation "lwin c \<equiv> window_size (ch_local c)"

text \<open>The first stage: nothing to send, or the message and the amount it announces.\<close>

definition adjust_begin :: "u32 \<Rightarrow> u32 \<Rightarrow> bool \<Rightarrow> session \<Rightarrow> u32 option \<times> session" where
  "adjust_begin i adjustment force s =
     (let c = get_chan i s
      in if \<not> force \<and> adjustment + adjust_queue c < LIBSSH2_CHANNEL_MINADJUST
         then (None, upd_chan i (\<lambda>c. c\<lparr>adjust_queue := adjust_queue c + adjustment\<rparr>) s)
         else if adjustment = 0 \<and> adjust_queue c = 0 then (None, s)
         else
           let adjustment = adjustment + adjust_queue c
           in (Some adjustment,
               upd_chan i (\<lambda>c. c\<lparr>adjust_queue := 0,
                   adjust_adjust := [SSH_MSG_CHANNEL_WINDOW_ADJUST] @ ssh2_htonu32 (cd_id (ch_remote c)) @
                                    ssh2_htonu32 adjustment,
                   adjust_state := NB_created\<rparr>) s))"

text \<open>
  What the code stores through \<open>store\<close> is the window at entry, a field of the state before the call.
\<close>

definition ssh2_channel_receive_window_adjust :: "sender \<Rightarrow> u32 \<Rightarrow> u32 \<Rightarrow> bool \<Rightarrow> session \<Rightarrow> rc \<times> session" where
  "ssh2_channel_receive_window_adjust tsend i adjustment force s =
     (case (if adjust_state (get_chan i s) = NB_idle then adjust_begin i adjustment force s
            else (Some adjustment, s)) of
        (None, s) \<Rightarrow> (0, s)
      | (Some adjustment, s) \<Rightarrow>
          (case tsend (''adjust'', unat i) (adjust_adjust (get_chan i s)) [] s of (rc, s) \<Rightarrow>
             if rc = LIBSSH2_ERROR_EAGAIN then ssh2_err rc s
             else if rc \<noteq> 0
             then ssh2_err LIBSSH2_ERROR_SOCKET_SEND (upd_chan i (\<lambda>c. c\<lparr>adjust_queue := adjustment\<rparr>) s)
             else if adjustment > 0xFFFFFFFF - rwin (get_chan i s)
             then ssh2_err LIBSSH2_ERROR_PROTO s
             else (0, upd_chan i (\<lambda>c. (upd_rwin (\<lambda>w. w + adjustment) c)\<lparr>adjust_state := NB_idle\<rparr>) s)))"

end
