(* ===== verification/Packet.thy ===== *)
theory Packet
  imports ChanBase KexNeg
begin

text \<open>
  \<open>packet.c\<close>: channels opened by the peer, the handling of every incoming message, and the queue of packets
  that the rest of the library searches.

  \<open>tsend\<close>, \<open>tread\<close> are the transport, \<open>kex_exchange\<close> is the key re-exchange, \<open>disc\<close> is
  \<open>libssh2_session_disconnect\<close>.  The application's callbacks belong to the application; only whether they
  are set, and the answer of \<open>macerror\<close>, is part of the model.
\<close>

unbundle bit_operations_syntax

abbreviation (input) SSH_MSG_DISCONNECT :: u8 where "SSH_MSG_DISCONNECT \<equiv> 1"
abbreviation (input) SSH_MSG_IGNORE :: u8 where "SSH_MSG_IGNORE \<equiv> 2"
abbreviation (input) SSH_MSG_DEBUG :: u8 where "SSH_MSG_DEBUG \<equiv> 4"
abbreviation (input) SSH_MSG_EXT_INFO :: u8 where "SSH_MSG_EXT_INFO \<equiv> 7"
abbreviation (input) SSH_MSG_KEXINIT :: u8 where "SSH_MSG_KEXINIT \<equiv> 20"
abbreviation (input) SSH_MSG_GLOBAL_REQUEST :: u8 where "SSH_MSG_GLOBAL_REQUEST \<equiv> 80"
abbreviation (input) SSH_MSG_REQUEST_FAILURE :: u8 where "SSH_MSG_REQUEST_FAILURE \<equiv> 82"

abbreviation (input) SSH_OPEN_ADMINISTRATIVELY_PROHIBITED :: u32 where
  "SSH_OPEN_ADMINISTRATIVELY_PROHIBITED \<equiv> 1"
abbreviation (input) SSH_OPEN_CONNECT_FAILED :: u32 where "SSH_OPEN_CONNECT_FAILED \<equiv> 2"
abbreviation (input) SSH_OPEN_UNKNOWN_CHANNELTYPE :: u32 where "SSH_OPEN_UNKNOWN_CHANNELTYPE \<equiv> 3"
abbreviation (input) SSH_OPEN_RESOURCE_SHORTAGE :: u32 where "SSH_OPEN_RESOURCE_SHORTAGE \<equiv> 4"

subsection \<open>Channels opened by the peer\<close>

text \<open>The reader over a packet of \<open>datalen\<close> bytes, behind its first \<open>off\<close> bytes.\<close>

definition buf_at :: "bytes \<Rightarrow> nat \<Rightarrow> nat \<Rightarrow> string_buf" where
  "buf_at data datalen off = \<lparr>sb_data = data, sb_ptr = off, sb_len = datalen\<rparr>"

text \<open>One field of a message: it is stored and the rest is read, or the message is too short.\<close>

definition get_field :: "(session \<Rightarrow> 'r \<times> session) \<Rightarrow> (string_buf \<Rightarrow> 'a option \<times> string_buf) \<Rightarrow>
    ('a \<Rightarrow> session \<Rightarrow> session) \<Rightarrow> (string_buf \<Rightarrow> session \<Rightarrow> 'r \<times> session) \<Rightarrow> string_buf \<Rightarrow> session \<Rightarrow>
    'r \<times> session" where
  "get_field fail get store k buf s =
     (case get buf of (None, _) \<Rightarrow> fail s | (Some v, buf) \<Rightarrow> k buf (store v s))"

text \<open>The new channel's block, its number and its windows.  Both allocations may fail.\<close>

definition open_channel_block :: "bytes \<Rightarrow> listen_state \<Rightarrow> u32 \<Rightarrow> channel" where
  "open_channel_block ty q i = channel_0\<lparr>channel_type := ty,
     ch_remote := channel_data_0\<lparr>cd_id := qs_sender_channel q,
       window_size_initial := LIBSSH2_CHANNEL_WINDOW_DEFAULT,
       window_size := LIBSSH2_CHANNEL_WINDOW_DEFAULT,
       packet_size := LIBSSH2_CHANNEL_PACKET_DEFAULT\<rparr>,
     ch_local := channel_data_0\<lparr>cd_id := i, window_size_initial := qs_initial_window_size q,
       window_size := qs_initial_window_size q, packet_size := qs_packet_size q\<rparr>\<rparr>"

definition new_channel :: "bytes \<Rightarrow> listen_state \<Rightarrow> session \<Rightarrow> channel option \<times> session" where
  "new_channel ty q s =
     (case ssh2_alloc s of (ok, s) \<Rightarrow>
        if \<not> ok then (None, note_err LIBSSH2_ERROR_ALLOC s)
        else
          case ssh2_alloc s of (ok, s) \<Rightarrow>
            if \<not> ok then (None, note_err LIBSSH2_ERROR_ALLOC s)
            else
              case ssh2_channel_nextid s of (i, s) \<Rightarrow> (Some (open_channel_block ty q i), s))"

definition open_confirmation :: "channel \<Rightarrow> bytes" where
  "open_confirmation c =
     [SSH_MSG_CHANNEL_OPEN_CONFIRMATION] @ ssh2_htonu32 (cd_id (ch_remote c)) @
     ssh2_htonu32 (cd_id (ch_local c)) @ ssh2_htonu32 (window_size_initial (ch_remote c)) @
     ssh2_htonu32 (packet_size (ch_remote c))"

definition open_failure :: "u32 \<Rightarrow> u32 \<Rightarrow> bytes \<Rightarrow> bytes" where
  "open_failure sender_channel failure_code descr =
     [SSH_MSG_CHANNEL_OPEN_FAILURE] @ ssh2_htonu32 sender_channel @ ssh2_htonu32 failure_code @
     fst (ssh2_store_str [] descr) @ ssh2_htonu32 0"

subsubsection \<open>Forwarded connections\<close>

abbreviation "lstn_st \<equiv> packAdd_Qlstn_state"

definition upd_lstn :: "(listen_state \<Rightarrow> listen_state) \<Rightarrow> session \<Rightarrow> session" where
  "upd_lstn f s = s\<lparr>packAdd_Qlstn_state := f (packAdd_Qlstn_state s)\<rparr>"

definition FwdNotReq :: bytes where "FwdNotReq = str ''Forward not requested''"

text \<open>The fields of the request, stored as far as they can be read.\<close>

definition queue_parse :: "bytes \<Rightarrow> nat \<Rightarrow> session \<Rightarrow> rc \<times> session" where
  "queue_parse data datalen s =
     (let offset = 15 + 5; fail = ssh2_err LIBSSH2_ERROR_BUFFER_TOO_SMALL
      in if datalen < offset + 12 then ssh2_err LIBSSH2_ERROR_OUT_OF_BOUNDARY s
         else
           get_field fail ssh2_get_u32 (\<lambda>v. upd_lstn (\<lambda>q. q\<lparr>qs_sender_channel := v\<rparr>))
          (get_field fail ssh2_get_u32 (\<lambda>v. upd_lstn (\<lambda>q. q\<lparr>qs_initial_window_size := v\<rparr>))
          (get_field fail ssh2_get_u32 (\<lambda>v. upd_lstn (\<lambda>q. q\<lparr>qs_packet_size := v\<rparr>))
          (get_field fail ssh2_get_string (\<lambda>v. upd_lstn (\<lambda>q. q\<lparr>qs_host := v\<rparr>))
          (get_field fail ssh2_get_u32 (\<lambda>v. upd_lstn (\<lambda>q. q\<lparr>qs_port := v\<rparr>))
          (get_field fail ssh2_get_string (\<lambda>v. upd_lstn (\<lambda>q. q\<lparr>qs_shost := v\<rparr>))
          (get_field fail ssh2_get_u32 (\<lambda>v. upd_lstn (\<lambda>q. q\<lparr>qs_sport := v\<rparr>))
          (\<lambda>_ s. (0, upd_lstn (\<lambda>q. q\<lparr>qs_state := NB_allocated\<rparr>) s))))))))
          (buf_at data datalen offset) s)"

text \<open>The first listener for the address; every one that matches ends the search.\<close>

definition listener_matches :: "listen_state \<Rightarrow> listener \<Rightarrow> bool" where
  "listener_matches q l \<longleftrightarrow> ls_port l = sint (qs_port q) \<and> ls_host l = qs_host q"

fun listener_index :: "listen_state \<Rightarrow> listener list \<Rightarrow> nat option" where
  "listener_index q [] = None"
| "listener_index q (l # ls) =
     (if listener_matches q l then Some 0 else map_option Suc (listener_index q ls))"

definition queue_refuse :: "sender \<Rightarrow> u32 \<Rightarrow> session \<Rightarrow> rc \<times> session" where
  "queue_refuse tsend failure_code s =
     (let s = upd_lstn (\<lambda>q. q\<lparr>qs_packet := open_failure (qs_sender_channel q) failure_code FwdNotReq\<rparr>) s
      in case tsend (''Qlstn'', 0) (qs_packet (lstn_st s)) [] s of (rc, s) \<Rightarrow>
           if rc = LIBSSH2_ERROR_EAGAIN then (rc, s)
           else
             let s = upd_lstn (\<lambda>q. q\<lparr>qs_state := NB_idle\<rparr>) s
             in if rc \<noteq> 0 then ssh2_err rc s else (0, s))"

definition queue_link :: "nat \<Rightarrow> session \<Rightarrow> session" where
  "queue_link k s =
     (case qs_channel (lstn_st s) of
        None \<Rightarrow> s
      | Some c \<Rightarrow>
          c_assert (k < length (listeners s))
            (s\<lparr>listeners := (listeners s)[k := (listeners s ! k)\<lparr>ls_queue := ls_queue (listeners s ! k) @ [c],
                 ls_queue_size := ls_queue_size (listeners s ! k) + 1\<rparr>]\<rparr>))"

definition queue_confirm :: "sender \<Rightarrow> nat \<Rightarrow> session \<Rightarrow> rc \<times> session" where
  "queue_confirm tsend k s =
     (case tsend (''Qlstn'', 0) (take 17 (qs_packet (lstn_st s))) [] s of (rc, s) \<Rightarrow>
        if rc = LIBSSH2_ERROR_EAGAIN then (rc, s)
        else if rc \<noteq> 0 then ssh2_err rc (upd_lstn (\<lambda>q. q\<lparr>qs_state := NB_idle\<rparr>) s)
        else (0, queue_link k (upd_lstn (\<lambda>q. q\<lparr>qs_state := NB_idle\<rparr>) s)))"

text \<open>The matching listener takes the connection or is full.\<close>

definition queue_accept :: "sender \<Rightarrow> nat \<Rightarrow> session \<Rightarrow> rc \<times> session" where
  "queue_accept tsend k s =
     (let l = listeners s ! k;
          s = upd_lstn (\<lambda>q. q\<lparr>qs_channel := None\<rparr>) s;
          sent = upd_lstn (\<lambda>q. q\<lparr>qs_state := NB_sent\<rparr>)
      in if qs_state (lstn_st s) = NB_allocated then
           if ls_queue_maxsize l \<noteq> 0 \<and> ls_queue_maxsize l \<le> ls_queue_size l
           then queue_refuse tsend SSH_OPEN_RESOURCE_SHORTAGE (sent s)
           else
             (case new_channel (str ''forwarded-tcpip'') (lstn_st s) s of
                (None, s) \<Rightarrow> queue_refuse tsend SSH_OPEN_RESOURCE_SHORTAGE (sent s)
              | (Some c, s) \<Rightarrow>
                  queue_confirm tsend k
                    (upd_lstn (\<lambda>q. q\<lparr>qs_channel := Some c, qs_packet := open_confirmation c,
                                 qs_state := NB_created\<rparr>) s))
         else queue_confirm tsend k s)"

definition packet_queue_listener :: "sender \<Rightarrow> bytes \<Rightarrow> nat \<Rightarrow> session \<Rightarrow> rc \<times> session" where
  "packet_queue_listener tsend data datalen s =
     (case (if qs_state (lstn_st s) = NB_idle then queue_parse data datalen s else (0, s)) of (rc, s) \<Rightarrow>
        if rc \<noteq> 0 then (rc, s)
        else if qs_state (lstn_st s) \<noteq> NB_sent then
          (case listener_index (lstn_st s) (listeners s) of
             Some k \<Rightarrow> queue_accept tsend k s
           | None \<Rightarrow> queue_refuse tsend SSH_OPEN_ADMINISTRATIVELY_PROHIBITED
                       (upd_lstn (\<lambda>q. q\<lparr>qs_state := NB_sent\<rparr>) s))
        else queue_refuse tsend SSH_OPEN_ADMINISTRATIVELY_PROHIBITED s)"

subsubsection \<open>X11\<close>

definition upd_x11 :: "(listen_state \<Rightarrow> listen_state) \<Rightarrow> session \<Rightarrow> session" where
  "upd_x11 f s = s\<lparr>packAdd_x11open_state := f (packAdd_x11open_state s)\<rparr>"

abbreviation "x11_st \<equiv> packAdd_x11open_state"

definition X11FwdUnAvil :: bytes where "X11FwdUnAvil = str ''X11 Forward Unavailable''"

text \<open>The fields of the request; \<open>False\<close> sends the code to \<open>x11_exit\<close>.\<close>

definition x11_parse :: "bytes \<Rightarrow> nat \<Rightarrow> session \<Rightarrow> bool \<times> session" where
  "x11_parse data datalen s =
     (let offset = 3 + 5; fail = (\<lambda>s. (False, note_err LIBSSH2_ERROR_INVAL s))
      in if datalen < offset + 12 then fail s
         else
           get_field fail ssh2_get_u32 (\<lambda>v. upd_x11 (\<lambda>q. q\<lparr>qs_sender_channel := v\<rparr>))
          (get_field fail ssh2_get_u32 (\<lambda>v. upd_x11 (\<lambda>q. q\<lparr>qs_initial_window_size := v\<rparr>))
          (get_field fail ssh2_get_u32 (\<lambda>v. upd_x11 (\<lambda>q. q\<lparr>qs_packet_size := v\<rparr>))
          (\<lambda>buf s. case ssh2_get_string buf of
              (None, _) \<Rightarrow> fail s
            | (Some shost, buf) \<Rightarrow>
                (case ssh2_alloc s of (ok, s) \<Rightarrow>
                   if \<not> ok then (False, note_err LIBSSH2_ERROR_ALLOC s)
                   else
                     get_field fail ssh2_get_u32 (\<lambda>v. upd_x11 (\<lambda>q. q\<lparr>qs_sport := v\<rparr>))
                       (\<lambda>_ s. (True, upd_x11 (\<lambda>q. q\<lparr>qs_state := NB_allocated\<rparr>) s))
                       buf (upd_x11 (\<lambda>q. q\<lparr>qs_shost := shost\<rparr>) s))))) (buf_at data datalen offset) s)"

definition x11_exit :: "sender \<Rightarrow> u32 \<Rightarrow> session \<Rightarrow> rc \<times> session" where
  "x11_exit tsend failure_code s =
     (let s = upd_x11 (\<lambda>q. q\<lparr>qs_shost := [],
                 qs_packet := open_failure (qs_sender_channel q) failure_code X11FwdUnAvil\<rparr>) s
      in case tsend (''x11'', 0) (qs_packet (x11_st s)) [] s of (rc, s) \<Rightarrow>
           if rc = LIBSSH2_ERROR_EAGAIN then (rc, s)
           else
             let s = upd_x11 (\<lambda>q. q\<lparr>qs_state := NB_idle\<rparr>) s
             in if rc \<noteq> 0 then ssh2_err rc s else (0, s))"

text \<open>\<open>channel\<close> is the local variable: the new channel, or what the state holds, which is nothing.\<close>

definition x11_confirm :: "sender \<Rightarrow> channel option \<Rightarrow> session \<Rightarrow> rc \<times> session" where
  "x11_confirm tsend channel s =
     (case tsend (''x11'', 0) (take 17 (qs_packet (x11_st s))) [] s of (rc, s) \<Rightarrow>
        if rc = LIBSSH2_ERROR_EAGAIN then (rc, s)
        else
          let s = upd_x11 (\<lambda>q. q\<lparr>qs_shost := [], qs_state := NB_idle\<rparr>) s
          in if rc \<noteq> 0 then ssh2_err LIBSSH2_ERROR_SOCKET_SEND s
             else
               case channel of
                 None \<Rightarrow> (0, set_fault s)
               | Some c \<Rightarrow> (0, s\<lparr>channels := channels s @ [c]\<rparr>))"

definition packet_x11_open :: "sender \<Rightarrow> bytes \<Rightarrow> nat \<Rightarrow> session \<Rightarrow> rc \<times> session" where
  "packet_x11_open tsend data datalen s =
     (case (if qs_state (x11_st s) = NB_idle then x11_parse data datalen s else (True, s)) of (ok, s) \<Rightarrow>
        if \<not> ok then x11_exit tsend SSH_OPEN_CONNECT_FAILED s
        else if \<not> has_x11_cb s then x11_exit tsend SSH_OPEN_RESOURCE_SHORTAGE s
        else if qs_state (x11_st s) = NB_allocated then
          (case new_channel (str ''x11'') (x11_st s) s of
             (None, s) \<Rightarrow> x11_exit tsend SSH_OPEN_RESOURCE_SHORTAGE s
           | (Some c, s) \<Rightarrow>
               x11_confirm tsend (Some c)
                 (upd_x11 (\<lambda>q. q\<lparr>qs_packet := open_confirmation c, qs_state := NB_created\<rparr>) s))
        else if qs_state (x11_st s) = NB_created then x11_confirm tsend (qs_channel (x11_st s)) s
        else x11_exit tsend SSH_OPEN_CONNECT_FAILED s)"

subsubsection \<open>The authentication agent\<close>

definition upd_agent :: "(listen_state \<Rightarrow> listen_state) \<Rightarrow> session \<Rightarrow> session" where
  "upd_agent f s = s\<lparr>packAdd_authagent_state := f (packAdd_authagent_state s)\<rparr>"

abbreviation "agent_st \<equiv> packAdd_authagent_state"

definition AuthAgentUnavail :: bytes where "AuthAgentUnavail = str ''Auth Agent unavailable''"

definition authagent_parse :: "bytes \<Rightarrow> nat \<Rightarrow> session \<Rightarrow> rc \<times> session" where
  "authagent_parse data datalen =
     (let fail = ssh2_err LIBSSH2_ERROR_BUFFER_TOO_SMALL
      in get_field fail ssh2_get_u32 (\<lambda>v. upd_agent (\<lambda>q. q\<lparr>qs_sender_channel := v\<rparr>))
        (get_field fail ssh2_get_u32 (\<lambda>v. upd_agent (\<lambda>q. q\<lparr>qs_initial_window_size := v\<rparr>))
        (get_field fail ssh2_get_u32 (\<lambda>v. upd_agent (\<lambda>q. q\<lparr>qs_packet_size := v\<rparr>))
        (\<lambda>_ s. (0, upd_agent (\<lambda>q. q\<lparr>qs_state := NB_allocated\<rparr>) s)))) (buf_at data datalen (22 + 5)))"

definition authagent_exit :: "sender \<Rightarrow> u32 \<Rightarrow> session \<Rightarrow> rc \<times> session" where
  "authagent_exit tsend failure_code s =
     (let s = upd_agent (\<lambda>q. q\<lparr>qs_packet :=
                 open_failure (qs_sender_channel q) failure_code AuthAgentUnavail\<rparr>) s
      in case tsend (''authagent'', 0) (qs_packet (agent_st s)) [] s of (rc, s) \<Rightarrow>
           if rc = LIBSSH2_ERROR_EAGAIN then (rc, s)
           else
             let s = upd_agent (\<lambda>q. q\<lparr>qs_state := NB_idle\<rparr>) s
             in if rc \<noteq> 0 then ssh2_err rc s else (0, s))"

definition authagent_confirm :: "sender \<Rightarrow> channel option \<Rightarrow> session \<Rightarrow> rc \<times> session" where
  "authagent_confirm tsend channel s =
     (case tsend (''authagent'', 0) (take 17 (qs_packet (agent_st s))) [] s of (rc, s) \<Rightarrow>
        if rc = LIBSSH2_ERROR_EAGAIN then (rc, s)
        else
          let s = upd_agent (\<lambda>q. q\<lparr>qs_state := NB_idle\<rparr>) s
          in if rc \<noteq> 0 then ssh2_err LIBSSH2_ERROR_SOCKET_SEND s
             else
               case channel of
                 None \<Rightarrow> (0, set_fault s)
               | Some c \<Rightarrow>
                   (0, upd_tp (\<lambda>p. p\<lparr>tp_total_num := 0\<rparr>)
                         (s\<lparr>channels := channels s @ [c], fullpacket_state := NB_idle\<rparr>)))"

definition packet_authagent_open :: "sender \<Rightarrow> bytes \<Rightarrow> nat \<Rightarrow> session \<Rightarrow> rc \<times> session" where
  "packet_authagent_open tsend data datalen s =
     (if datalen < 22 + 5 + 12 then ssh2_err LIBSSH2_ERROR_OUT_OF_BOUNDARY s
      else
        case (if qs_state (agent_st s) = NB_idle then authagent_parse data datalen s else (0, s)) of (rc, s) \<Rightarrow>
          if rc \<noteq> 0 then (rc, s)
          else if \<not> has_authagent_cb s then authagent_exit tsend SSH_OPEN_RESOURCE_SHORTAGE s
          else if qs_state (agent_st s) = NB_allocated then
            (case new_channel (str ''auth agent'') (agent_st s) s of
               (None, s) \<Rightarrow> authagent_exit tsend SSH_OPEN_RESOURCE_SHORTAGE (upd_agent (\<lambda>q. q\<lparr>qs_channel := None\<rparr>) s)
             | (Some c, s) \<Rightarrow>
                 authagent_confirm tsend (Some c)
                   (upd_agent (\<lambda>q. q\<lparr>qs_channel := Some c, qs_packet := open_confirmation c,
                                qs_state := NB_created\<rparr>) s))
          else if qs_state (agent_st s) = NB_created then authagent_confirm tsend (qs_channel (agent_st s)) s
          else authagent_exit tsend SSH_OPEN_CONNECT_FAILED s)"

subsection \<open>Incoming messages\<close>

definition padd_done :: "rc \<Rightarrow> session \<Rightarrow> rc \<times> session" where
  "padd_done rc s = (rc, s\<lparr>packAdd_state := NB_idle\<rparr>)"

text \<open>A rejected MAC is the application's decision, if it wants it.\<close>

definition padd_mac_ok :: "bytes \<Rightarrow> nat \<Rightarrow> int \<Rightarrow> session \<Rightarrow> bool" where
  "padd_mac_ok data datalen macstate s \<longleftrightarrow>
     \<not> (macstate = SSH2_MAC_INVALID \<and>
        (case macerror_cb s of None \<Rightarrow> True | Some f \<Rightarrow> f (take datalen data) \<noteq> 0))"

text \<open>
  Strict key exchange: the server announces it in its first KEXINIT, which then must have been the very
  first packet, and until the first exchange is over every packet must be the one that is waited for.
\<close>

definition strict_violation :: "(bytes \<Rightarrow> session \<Rightarrow> rc \<times> session) \<Rightarrow> string \<Rightarrow> session \<Rightarrow> rc \<times> session" where
  "strict_violation disc what s =
     (case disc (str ''strict KEX violation: '' @ str what)
             (s\<lparr>socket_st := SOCKET_DISCONNECTED, packAdd_state := NB_idle\<rparr>) of
        (_, s) \<Rightarrow> ssh2_err LIBSSH2_ERROR_SOCKET_DISCONNECT s)"

definition padd_kexinit :: "(bytes \<Rightarrow> session \<Rightarrow> rc \<times> session) \<Rightarrow> bytes \<Rightarrow> nat \<Rightarrow> u32 \<Rightarrow> session \<Rightarrow>
    rc option \<times> session" where
  "padd_kexinit disc data datalen seq s =
     (let fail = (\<lambda>s. case ssh2_err LIBSSH2_ERROR_BUFFER_TOO_SMALL (s\<lparr>packAdd_state := NB_idle\<rparr>) of
                        (rc, s) \<Rightarrow> (Some rc, s))
      in case (if kex_strict s then (None, s)
               else if datalen < 17 then fail s
               else
                 case ssh2_get_chars (buf_at data datalen 17) of
                   (None, _) \<Rightarrow> fail s
                 | (Some algs, _) \<Rightarrow>
                     (None, if algs = [] \<or>
                               ssh2_kex_agree_instr algs (str ''kex-strict-s-v00@openssh.com'') \<noteq> None
                            then s\<lparr>kex_strict := True\<rparr> else s)) of
           (Some rc, s) \<Rightarrow> (Some rc, s)
         | (None, s) \<Rightarrow>
             if kex_strict s \<and> seq \<noteq> 0
             then (case strict_violation disc ''KEXINIT was not the first packet'' s of (rc, s) \<Rightarrow> (Some rc, s))
             else (None, s))"

definition padd_strict :: "(bytes \<Rightarrow> session \<Rightarrow> rc \<times> session) \<Rightarrow> bytes \<Rightarrow> nat \<Rightarrow> u32 \<Rightarrow> session \<Rightarrow>
    rc option \<times> session" where
  "padd_strict disc data datalen seq s =
     (if \<not> has_st SSH2_STATE_INITIAL_KEX s then (None, s)
      else
        let msg = chr_at data 0
        in case (if msg = SSH_MSG_KEXINIT then padd_kexinit disc data datalen seq s else (None, s)) of
             (Some rc, s) \<Rightarrow> (Some rc, s)
           | (None, s) \<Rightarrow>
               if kex_strict s \<and> fullpacket_required_type s \<noteq> 0 \<and> fullpacket_required_type s \<noteq> msg
               then (case strict_violation disc ''unexpected packet type'' s of (rc, s) \<Rightarrow> (Some rc, s))
               else (None, s))"

subsubsection \<open>Messages that are not queued\<close>

definition padd_disconnect :: "session \<Rightarrow> rc \<times> session" where
  "padd_disconnect s =
     ssh2_err LIBSSH2_ERROR_SOCKET_DISCONNECT
       (s\<lparr>socket_st := SOCKET_DISCONNECTED, packAdd_state := NB_idle\<rparr>)"

text \<open>The list of extensions; one that cannot be read ends it.\<close>

fun ext_info_loop :: "nat \<Rightarrow> string_buf \<Rightarrow> session \<Rightarrow> rc \<times> session" where
  "ext_info_loop 0 buf s = (0, s)"
| "ext_info_loop (Suc n) buf s =
     (case ssh2_get_string buf of
        (None, _) \<Rightarrow> (0, s)
      | (Some name, buf) \<Rightarrow>
          (case ssh2_get_string buf of
             (None, _) \<Rightarrow> (0, s)
           | (Some val, buf) \<Rightarrow>
               if name = str ''server-sig-algs'' then
                 (case ssh2_alloc s of (ok, s) \<Rightarrow>
                    if ok then ext_info_loop n buf (s\<lparr>server_sign_algorithms := Some val\<rparr>)
                    else ssh2_err LIBSSH2_ERROR_ALLOC (s\<lparr>server_sign_algorithms := None\<rparr>))
               else ext_info_loop n buf s))"

definition padd_ext_info :: "bytes \<Rightarrow> nat \<Rightarrow> session \<Rightarrow> rc \<times> session" where
  "padd_ext_info data datalen s =
     (case (if datalen \<ge> 5 then
              (case ssh2_get_u32 (buf_at data datalen 1) of
                 (None, _) \<Rightarrow> ssh2_err LIBSSH2_ERROR_PROTO s
               | (Some nr_extensions, buf) \<Rightarrow>
                   if nr_extensions \<ge> 1024 then ssh2_err LIBSSH2_ERROR_PROTO s
                   else ext_info_loop (unat nr_extensions) buf s)
            else (0, s)) of (rc, s) \<Rightarrow> padd_done rc s)"

text \<open>A global request is refused, if an answer is wanted.\<close>

definition padd_jump5 :: "sender \<Rightarrow> session \<Rightarrow> rc \<times> session" where
  "padd_jump5 tsend s =
     (case tsend (''request_failure'', 0) [SSH_MSG_REQUEST_FAILURE] [] (s\<lparr>packAdd_state := NB_jump5\<rparr>) of
        (rc, s) \<Rightarrow> if rc = LIBSSH2_ERROR_EAGAIN then (rc, s) else padd_done 0 s)"

definition global_want_reply :: "bytes \<Rightarrow> nat \<Rightarrow> bool" where
  "global_want_reply data datalen \<longleftrightarrow> datalen \<ge> 5 \<and>
     (let len = ssh2_ntohu32 (drop 1 data)
      in len \<le> 0xFFFFFFFF - 6 \<and> datalen \<ge> 6 + unat len \<and> data ! (5 + unat len) \<noteq> 0)"

definition padd_global_request :: "sender \<Rightarrow> bytes \<Rightarrow> nat \<Rightarrow> session \<Rightarrow> rc \<times> session" where
  "padd_global_request tsend data datalen s =
     (if global_want_reply data datalen then padd_jump5 tsend s else padd_done 0 s)"

text \<open>The channel a message is for: the number behind the message type.\<close>

definition msg_channel :: "nat \<Rightarrow> bytes \<Rightarrow> nat \<Rightarrow> session \<Rightarrow> u32 option" where
  "msg_channel least data datalen s =
     (if datalen \<ge> least then ssh2_channel_locate s (ssh2_ntohu32 (drop 1 data)) else None)"

definition upd_cremote :: "(channel_data \<Rightarrow> channel_data) \<Rightarrow> channel \<Rightarrow> channel" where
  "upd_cremote f c = c\<lparr>ch_remote := f (ch_remote c)\<rparr>"

definition padd_eof :: "bytes \<Rightarrow> nat \<Rightarrow> session \<Rightarrow> rc \<times> session" where
  "padd_eof data datalen s =
     padd_done 0
       (case msg_channel 5 data datalen s of
          None \<Rightarrow> s
        | Some i \<Rightarrow> upd_chan i (upd_cremote (\<lambda>r. r\<lparr>cd_eof := True\<rparr>)) s)"

definition padd_close :: "bytes \<Rightarrow> nat \<Rightarrow> session \<Rightarrow> rc \<times> session" where
  "padd_close data datalen s =
     padd_done 0
       (case msg_channel 5 data datalen s of
          None \<Rightarrow> s
        | Some i \<Rightarrow> upd_chan i (upd_cremote (\<lambda>r. r\<lparr>cd_close := True, cd_eof := True\<rparr>)) s)"

definition padd_window_adjust :: "bytes \<Rightarrow> nat \<Rightarrow> session \<Rightarrow> rc \<times> session" where
  "padd_window_adjust data datalen s =
     (case msg_channel 9 data datalen s of
        None \<Rightarrow> padd_done 0 s
      | Some i \<Rightarrow>
          let bytestoadd = ssh2_ntohu32 (drop 5 data)
          in if bytestoadd > 0xFFFFFFFF - lwin (get_chan i s)
             then (case ssh2_err LIBSSH2_ERROR_PROTO s of (rc, s) \<Rightarrow> padd_done rc s)
             else padd_done 0 (upd_chan i (\<lambda>c. c\<lparr>ch_local :=
                    (ch_local c)\<lparr>window_size := lwin c + bytestoadd\<rparr>\<rparr>) s))"

subsubsection \<open>Requests on a channel\<close>

definition request_exit_status :: "nat \<Rightarrow> u32 \<Rightarrow> string_buf \<Rightarrow> session \<Rightarrow> rc \<times> session" where
  "request_exit_status datalen channel buf s =
     (case (if datalen \<ge> 20 then ssh2_channel_locate s channel else None) of
        None \<Rightarrow> (0, s)
      | Some i \<Rightarrow>
          (case ssh2_get_u32 buf of
             (None, _) \<Rightarrow> ssh2_err LIBSSH2_ERROR_PROTO (upd_chan i (\<lambda>c. c\<lparr>exit_status := 0\<rparr>) s)
           | (Some status, _) \<Rightarrow>
               (0, upd_chan i (\<lambda>c. c\<lparr>exit_status := sint status, exit_status_received := True\<rparr>) s)))"

definition request_exit_signal :: "nat \<Rightarrow> u32 \<Rightarrow> string_buf \<Rightarrow> session \<Rightarrow> rc \<times> session" where
  "request_exit_signal datalen channel buf s =
     (case (if datalen \<ge> 20 then ssh2_channel_locate s channel else None) of
        None \<Rightarrow> (0, s)
      | Some i \<Rightarrow>
          (case (case ssh2_get_string buf of
                   (None, _) \<Rightarrow> (case ssh2_err LIBSSH2_ERROR_PROTO s of (rc, s) \<Rightarrow> (rc, [], s))
                 | (Some sig_name, _) \<Rightarrow> (0, sig_name, s)) of (rc, sig_name, s) \<Rightarrow>
             if length sig_name > 0xFFFFFFFF - 1 then ssh2_err LIBSSH2_ERROR_PROTO s
             else if sig_name \<noteq> [] then
               (case ssh2_alloc s of (ok, s) \<Rightarrow>
                  let s = upd_chan i (\<lambda>c. c\<lparr>exit_signal := (if ok then Some sig_name else None)\<rparr>) s
                  in if ok then (rc, s) else ssh2_err LIBSSH2_ERROR_ALLOC s)
             else (rc, upd_chan i (\<lambda>c. c\<lparr>exit_signal := None\<rparr>) s)))"

definition padd_jump4 :: "sender \<Rightarrow> bytes \<Rightarrow> session \<Rightarrow> rc \<times> session" where
  "padd_jump4 tsend data s =
     (case tsend (''channel_failure'', 0) ([SSH_MSG_CHANNEL_FAILURE] @ slice 1 4 data) []
             (s\<lparr>packAdd_state := NB_jump4\<rparr>) of (rc, s) \<Rightarrow>
        if rc = LIBSSH2_ERROR_EAGAIN then (rc, s) else padd_done rc s)"

definition padd_channel_request :: "sender \<Rightarrow> bytes \<Rightarrow> nat \<Rightarrow> session \<Rightarrow> rc \<times> session" where
  "padd_channel_request tsend data datalen s =
     (let fail = (\<lambda>s. case ssh2_err LIBSSH2_ERROR_PROTO s of (rc, s) \<Rightarrow> padd_done rc s)
      in if datalen < 9 then padd_done 0 s
         else
           (case ssh2_get_u32 (buf_at data datalen 1) of
              (None, _) \<Rightarrow> fail s
            | (Some channel, buf) \<Rightarrow>
                (case ssh2_get_string buf of
                   (None, _) \<Rightarrow> fail s
                 | (Some request, buf) \<Rightarrow>
                     (case ssh2_get_byte buf of
                        (None, _) \<Rightarrow> fail s
                      | (Some want_reply, buf) \<Rightarrow>
                          (case (if request = str ''exit-status''
                                 then request_exit_status datalen channel buf s
                                 else if request = str ''exit-signal''
                                 then request_exit_signal datalen channel buf s
                                 else (0, s)) of (rc, s) \<Rightarrow>
                             if want_reply \<noteq> 0 then padd_jump4 tsend data s else padd_done rc s)))))"

subsubsection \<open>Data on a channel\<close>

definition padd_jump1 :: "sender \<Rightarrow> nat \<Rightarrow> session \<Rightarrow> rc \<times> session" where
  "padd_jump1 tsend datalen s =
     (let s = s\<lparr>packAdd_state := NB_jump1\<rparr>
      in case packAdd_channelp s of
           None \<Rightarrow> padd_done 0 (set_fault s)
         | Some i \<Rightarrow>
             (case ssh2_channel_receive_window_adjust tsend i (of_nat datalen - 13) True s of (rc, s) \<Rightarrow>
                if rc = LIBSSH2_ERROR_EAGAIN then (rc, s) else padd_done 0 s))"

text \<open>Extended data that the application wants ignored: the window is given back at once.\<close>

definition data_ignored :: "sender \<Rightarrow> u32 \<Rightarrow> nat \<Rightarrow> session \<Rightarrow> rc \<times> session" where
  "data_ignored tsend i datalen s =
     (let c = get_chan i s; dl = (of_nat datalen :: u64);
          dl = (if read_avail c + dl - 13 \<ge> ucast (rwin c) then ucast (rwin c) - read_avail c + 13 else dl);
          s = upd_chan i (upd_rwin (\<lambda>w. w - ucast (dl - 13))) s
      in padd_jump1 tsend (unat dl) (s\<lparr>packAdd_channelp := Some i\<rparr>))"

text \<open>
  Data to be queued is cut to the packet size and to the window; the result is the length that counts.
\<close>

definition data_queued :: "u32 \<Rightarrow> nat \<Rightarrow> nat \<Rightarrow> session \<Rightarrow> (rc \<times> session) + (nat \<times> nat \<times> session)" where
  "data_queued i data_head datalen s =
     (let c = get_chan i s;
          (datalen, s) =
            (if unat (packet_size (ch_remote c)) < datalen - data_head
             then (unat (packet_size (ch_remote c)) + data_head,
                   note_err LIBSSH2_ERROR_CHANNEL_PACKET_EXCEEDED s)
             else (datalen, s))
      in if (ucast (rwin c) :: u64) \<le> read_avail c
         then Inl (padd_done 0 (note_err LIBSSH2_ERROR_CHANNEL_WINDOW_EXCEEDED s))
         else
           let s = upd_chan i (upd_cremote (\<lambda>r. r\<lparr>cd_eof := False\<rparr>)) s;
               dl = (of_nat datalen :: u64); dh = (of_nat data_head :: u64);
               (dl, s) = (if read_avail c + dl - dh > ucast (rwin c)
                          then (ucast (rwin c) - read_avail c + dh,
                                note_err LIBSSH2_ERROR_CHANNEL_WINDOW_EXCEEDED s)
                          else (dl, s));
               s = upd_chan i (\<lambda>c. c\<lparr>read_avail := read_avail c + (dl - dh)\<rparr>) s
           in Inr (unat dl, data_head, s))"

definition padd_channel_data :: "sender \<Rightarrow> bytes \<Rightarrow> nat \<Rightarrow> session \<Rightarrow>
    (rc \<times> session) + (nat \<times> nat \<times> session)" where
  "padd_channel_data tsend data datalen s =
     (let ext = (chr_at data 0 = SSH_MSG_CHANNEL_EXTENDED_DATA);
          data_head = (if ext then 13 else 9)
      in case msg_channel data_head data datalen s of
           None \<Rightarrow> Inl (padd_done 0 (note_err LIBSSH2_ERROR_CHANNEL_UNKNOWN s))
         | Some i \<Rightarrow>
             if extended_data_ignore_mode (ch_remote (get_chan i s)) = LIBSSH2_CHANNEL_EXTENDED_DATA_IGNORE \<and> ext
             then Inl (data_ignored tsend i datalen s)
             else data_queued i data_head datalen s)"

subsubsection \<open>Channels opened by the peer\<close>

definition padd_opened :: "rc \<times> session \<Rightarrow> rc \<times> session" where
  "padd_opened r = (case r of (rc, s) \<Rightarrow> if rc = LIBSSH2_ERROR_EAGAIN then (rc, s) else padd_done rc s)"

definition padd_jump2 :: "sender \<Rightarrow> bytes \<Rightarrow> nat \<Rightarrow> session \<Rightarrow> rc \<times> session" where
  "padd_jump2 tsend data datalen s =
     padd_opened (packet_queue_listener tsend data datalen (s\<lparr>packAdd_state := NB_jump2\<rparr>))"

definition padd_jump3 :: "sender \<Rightarrow> bytes \<Rightarrow> nat \<Rightarrow> session \<Rightarrow> rc \<times> session" where
  "padd_jump3 tsend data datalen s =
     padd_opened (packet_x11_open tsend data datalen (s\<lparr>packAdd_state := NB_jump3\<rparr>))"

definition padd_jump_authagent :: "sender \<Rightarrow> bytes \<Rightarrow> nat \<Rightarrow> session \<Rightarrow> rc \<times> session" where
  "padd_jump_authagent tsend data datalen s =
     padd_opened (packet_authagent_open tsend data datalen (s\<lparr>packAdd_state := NB_jumpauthagent\<rparr>))"

definition opens :: "string \<Rightarrow> bytes \<Rightarrow> nat \<Rightarrow> bool" where
  "opens ty data datalen \<longleftrightarrow> datalen \<ge> length ty + 5 \<and>
     ssh2_ntohu32 (drop 1 data) = of_nat (length ty) \<and> slice 5 (length ty) data = str ty"

definition padd_channel_open :: "sender \<Rightarrow> bytes \<Rightarrow> nat \<Rightarrow> session \<Rightarrow> rc \<times> session" where
  "padd_channel_open tsend data datalen s =
     (if datalen < 17 then padd_opened (0, s)
      else if opens ''forwarded-tcpip'' data datalen
      then padd_jump2 tsend data datalen (s\<lparr>packAdd_Qlstn_state := listen_state_0\<rparr>)
      else if opens ''x11'' data datalen
      then padd_jump3 tsend data datalen (s\<lparr>packAdd_x11open_state := listen_state_0\<rparr>)
      else if opens ''auth-agent@openssh.com'' data datalen
      then padd_jump_authagent tsend data datalen (s\<lparr>packAdd_authagent_state := listen_state_0\<rparr>)
      else padd_opened (0, s))"

subsubsection \<open>\<open>ssh2_packet_add\<close>\<close>

text \<open>The messages with a meaning of their own; \<open>Inr\<close> goes on to queue the packet.\<close>

definition padd_switch :: "sender \<Rightarrow> bytes \<Rightarrow> nat \<Rightarrow> session \<Rightarrow> (rc \<times> session) + (nat \<times> nat \<times> session)" where
  "padd_switch tsend data datalen s =
     (let msg = chr_at data 0
      in if msg = SSH_MSG_DISCONNECT then Inl (padd_disconnect s)
         else if msg = SSH_MSG_IGNORE \<or> msg = SSH_MSG_DEBUG then Inl (padd_done 0 s)
         else if msg = SSH_MSG_EXT_INFO then Inl (padd_ext_info data datalen s)
         else if msg = SSH_MSG_GLOBAL_REQUEST then Inl (padd_global_request tsend data datalen s)
         else if msg = SSH_MSG_CHANNEL_EXTENDED_DATA \<or> msg = SSH_MSG_CHANNEL_DATA
         then padd_channel_data tsend data datalen s
         else if msg = SSH_MSG_CHANNEL_EOF then Inl (padd_eof data datalen s)
         else if msg = SSH_MSG_CHANNEL_REQUEST then Inl (padd_channel_request tsend data datalen s)
         else if msg = SSH_MSG_CHANNEL_CLOSE then Inl (padd_close data datalen s)
         else if msg = SSH_MSG_CHANNEL_OPEN then Inl (padd_channel_open tsend data datalen s)
         else if msg = SSH_MSG_CHANNEL_WINDOW_ADJUST then Inl (padd_window_adjust data datalen s)
         else Inr (datalen, 0, s))"

definition padd_enqueue :: "bytes \<Rightarrow> nat \<Rightarrow> nat \<Rightarrow> session \<Rightarrow> rc \<times> session" where
  "padd_enqueue data datalen data_head s =
     (case ssh2_alloc s of (ok, s) \<Rightarrow>
        if \<not> ok then padd_done LIBSSH2_ERROR_ALLOC s
        else (0, s\<lparr>packets := packets s @ [\<lparr>pkt_data = data, pkt_len = datalen, pkt_head = data_head\<rparr>],
                   packAdd_state := NB_sent1\<rparr>))"

text \<open>The peer asks for new keys: the states are reset, since the exchange reads packets itself.\<close>

definition padd_rekey :: "reader \<Rightarrow> session \<Rightarrow> rc \<times> session" where
  "padd_rekey kex_exchange s =
     (case kex_exchange (upd_tp (\<lambda>p. p\<lparr>tp_total_num := 0\<rparr>)
             (s\<lparr>readPack_state := NB_idle, packAdd_state := NB_idle, fullpacket_state := NB_idle,
                startup_key_state := key_exchange_state_0\<rparr>)) of (rc, s) \<Rightarrow>
        if rc = LIBSSH2_ERROR_EAGAIN then (rc, s) else padd_done 0 s)"

definition padd_finish :: "reader \<Rightarrow> bytes \<Rightarrow> nat \<Rightarrow> nat \<Rightarrow> session \<Rightarrow> rc \<times> session" where
  "padd_finish kex_exchange data datalen data_head s =
     (case (if packAdd_state s = NB_sent then padd_enqueue data datalen data_head s else (0, s)) of (rc, s) \<Rightarrow>
        if rc \<noteq> 0 then (rc, s)
        else if (chr_at data 0 = SSH_MSG_KEXINIT \<and> \<not> has_st SSH2_STATE_EXCHANGING_KEYS s) \<or>
                packAdd_state s = NB_sent2
        then padd_rekey kex_exchange s
        else padd_done 0 s)"

definition padd_start :: "sender \<Rightarrow> reader \<Rightarrow> (bytes \<Rightarrow> session \<Rightarrow> rc \<times> session) \<Rightarrow>
    bytes \<Rightarrow> nat \<Rightarrow> u32 \<Rightarrow> session \<Rightarrow> rc \<times> session" where
  "padd_start tsend kex_exchange disc data datalen seq s =
     (case padd_strict disc data datalen seq s of
        (Some rc, s) \<Rightarrow> (rc, s)
      | (None, s) \<Rightarrow>
          if packAdd_state s = NB_allocated then
            (case padd_switch tsend data datalen s of
               Inl r \<Rightarrow> r
             | Inr (datalen, data_head, s) \<Rightarrow>
                 padd_finish kex_exchange data datalen data_head (s\<lparr>packAdd_state := NB_sent\<rparr>))
          else padd_finish kex_exchange data datalen 0 s)"

text \<open>
  The packet is the first \<open>datalen\<close> bytes of the block \<open>data\<close>; reading beyond the block, as \<open>data[0]\<close> does in an
  empty one, is a fault, and no block has \<open>2 ^ 63\<close> bytes or more.
\<close>

definition ssh2_packet_add :: "sender \<Rightarrow> reader \<Rightarrow> (bytes \<Rightarrow> session \<Rightarrow> rc \<times> session) \<Rightarrow> packet_handler" where
  "ssh2_packet_add tsend kex_exchange disc data datalen macstate seq s =
     (let s = c_assert (data \<noteq> [] \<and> datalen \<le> length data \<and> length data < 2 ^ 63) s
      in case packAdd_state s of
           NB_idle \<Rightarrow>
             if \<not> padd_mac_ok data datalen macstate s then ssh2_err LIBSSH2_ERROR_INVALID_MAC s
             else padd_start tsend kex_exchange disc data datalen seq (s\<lparr>packAdd_state := NB_allocated\<rparr>)
         | NB_jump1 \<Rightarrow> padd_jump1 tsend datalen s
         | NB_jump2 \<Rightarrow> padd_jump2 tsend data datalen s
         | NB_jump3 \<Rightarrow> padd_jump3 tsend data datalen s
         | NB_jump4 \<Rightarrow> padd_jump4 tsend data s
         | NB_jump5 \<Rightarrow> padd_jump5 tsend s
         | NB_jumpauthagent \<Rightarrow> padd_jump_authagent tsend data datalen s
         | _ \<Rightarrow> padd_start tsend kex_exchange disc data datalen seq s)"

subsection \<open>The packet queue\<close>

definition packet_matches :: "u8 \<Rightarrow> nat \<Rightarrow> bytes \<Rightarrow> packet \<Rightarrow> bool" where
  "packet_matches packet_type match_ofs match_buf p \<longleftrightarrow>
     chr_at (pkt_data p) 0 = packet_type \<and> pkt_len p \<ge> match_ofs + length match_buf \<and>
     slice match_ofs (length match_buf) (pkt_data p) = match_buf"

text \<open>
  \<open>ssh2_packet_ask\<close> takes the first match out of the queue.  Under strict key exchange the first packet must
  match while the initial exchange lasts.  The result is what the packet's length covers.
\<close>

fun ask_loop :: "(packet \<Rightarrow> bool) \<Rightarrow> bool \<Rightarrow> packet list \<Rightarrow> packet list \<Rightarrow>
    (packet \<times> packet list + unit) option" where
  "ask_loop ok strict earlier [] = None"
| "ask_loop ok strict earlier (p # r) =
     (if ok p then Some (Inl (p, earlier @ r))
      else if strict then Some (Inr ())
      else ask_loop ok strict (earlier @ [p]) r)"

definition ssh2_packet_ask :: "(bytes \<Rightarrow> session \<Rightarrow> rc \<times> session) \<Rightarrow> u8 \<Rightarrow> nat \<Rightarrow> bytes \<Rightarrow> session \<Rightarrow>
    rc \<times> bytes \<times> session" where
  "ssh2_packet_ask disc packet_type match_ofs match_buf s =
     (case ask_loop (packet_matches packet_type match_ofs match_buf)
             (kex_strict s \<and> has_st SSH2_STATE_INITIAL_KEX s) [] (packets s) of
        None \<Rightarrow> (- 1, [], s)
      | Some (Inl (p, ps)) \<Rightarrow> (0, take (pkt_len p) (pkt_data p), s\<lparr>packets := ps\<rparr>)
      | Some (Inr _) \<Rightarrow>
          (case disc (str ''strict KEX violation: unexpected packet type'') s of
             (_, s) \<Rightarrow> (case ssh2_err LIBSSH2_ERROR_SOCKET_DISCONNECT s of (rc, s) \<Rightarrow> (rc, [], s))))"

fun packet_askv :: "(bytes \<Rightarrow> session \<Rightarrow> rc \<times> session) \<Rightarrow> u8 list \<Rightarrow> nat \<Rightarrow> bytes \<Rightarrow> session \<Rightarrow>
    rc \<times> bytes \<times> session" where
  "packet_askv disc [] match_ofs match_buf s = (- 1, [], s)"
| "packet_askv disc (t # ts) match_ofs match_buf s =
     (case ssh2_packet_ask disc t match_ofs match_buf s of (rc, data, s) \<Rightarrow>
        if rc = 0 then (0, data, s) else packet_askv disc ts match_ofs match_buf s)"

text \<open>
  The loops over \<open>ssh2_transport_read\<close> are bounded by what is left to read: a round that is followed by
  another has taken a packet.  Running out of the bound is a fault.
\<close>

definition loop_bound :: "session \<Rightarrow> nat" where
  "loop_bound s = 2 * read_measure s + (if readPack_state s = NB_jump1 then 1 else 0)"

text \<open>\<open>start\<close> is the caller's \<open>packet_require_state\<close>; its new value is the second component.\<close>

fun require_loop :: "reader \<Rightarrow> (bytes \<Rightarrow> session \<Rightarrow> rc \<times> session) \<Rightarrow> u8 \<Rightarrow> nat \<Rightarrow> bytes \<Rightarrow> nat \<Rightarrow> int \<Rightarrow>
    session \<Rightarrow> rc \<times> int \<times> bytes \<times> session" where
  "require_loop tread disc packet_type match_ofs match_buf 0 start s =
     (LIBSSH2_ERROR_SOCKET_DISCONNECT, start, [], set_fault s)"
| "require_loop tread disc packet_type match_ofs match_buf (Suc n) start s =
     (if socket_st s \<noteq> SOCKET_CONNECTED then (LIBSSH2_ERROR_SOCKET_DISCONNECT, start, [], s)
      else
        case tread (s\<lparr>fullpacket_required_type := packet_type\<rparr>) of (ret, s) \<Rightarrow>
        let s = s\<lparr>fullpacket_required_type := 0\<rparr>
        in if ret = LIBSSH2_ERROR_EAGAIN then (ret, start, [], s)
           else if ret < 0 then (ret, 0, [], s)
           else if ret = uint packet_type then
             (case ssh2_packet_ask disc packet_type match_ofs match_buf s of
                (rc, data, s) \<Rightarrow> (rc, 0, data, s))
           else if ret = 0 then
             (case ssh2_now s of (now, s) \<Rightarrow>
                if packet_read_timeout s - (now - start) \<le> 0 then (LIBSSH2_ERROR_TIMEOUT, 0, [], s)
                else (- 1, start, [], s))
           else require_loop tread disc packet_type match_ofs match_buf n start s)"

definition ssh2_packet_require :: "reader \<Rightarrow> (bytes \<Rightarrow> session \<Rightarrow> rc \<times> session) \<Rightarrow> u8 \<Rightarrow> nat \<Rightarrow> bytes \<Rightarrow> int \<Rightarrow>
    session \<Rightarrow> rc \<times> int \<times> bytes \<times> session" where
  "ssh2_packet_require tread disc packet_type match_ofs match_buf start s =
     (case (if start = 0 then ssh2_packet_ask disc packet_type match_ofs match_buf s
            else (- 1, [], s)) of (rc, data, s) \<Rightarrow>
        if rc = 0 then (0, start, data, s)
        else
          case (if start = 0 then ssh2_now s else (start, s)) of (start, s) \<Rightarrow>
            require_loop tread disc packet_type match_ofs match_buf (Suc (loop_bound s)) start s)"

text \<open>
  \<open>packet_askv\<close> for a caller that only looks at the first byte of the packet, which is the type that matched.
\<close>

fun askv_type :: "(bytes \<Rightarrow> session \<Rightarrow> rc \<times> session) \<Rightarrow> u8 list \<Rightarrow> session \<Rightarrow> u8 option \<times> session" where
  "askv_type disc [] s = (None, s)"
| "askv_type disc (t # ts) s =
     (case ssh2_packet_ask disc t 0 [] s of (rc, data, s) \<Rightarrow>
        if rc = 0 then (Some t, s) else askv_type disc ts s)"

text \<open>\<open>ssh2_packet_burn\<close>: the result is the type of the packet; \<open>created\<close> is the caller's state.\<close>

fun burn_loop :: "reader \<Rightarrow> (bytes \<Rightarrow> session \<Rightarrow> rc \<times> session) \<Rightarrow> nat \<Rightarrow> session \<Rightarrow> rc \<times> nb_state \<times> session" where
  "burn_loop tread disc 0 s = (LIBSSH2_ERROR_SOCKET_DISCONNECT, NB_created, set_fault s)"
| "burn_loop tread disc (Suc n) s =
     (if socket_st s \<noteq> SOCKET_CONNECTED then (LIBSSH2_ERROR_SOCKET_DISCONNECT, NB_created, s)
      else
        case tread s of (ret, s) \<Rightarrow>
          if ret = LIBSSH2_ERROR_EAGAIN then (ret, NB_created, s)
          else if ret < 0 then (ret, NB_idle, s)
          else if ret = 0 then burn_loop tread disc n s
          else
            case ssh2_packet_ask disc (of_int ret) 0 [] s of (rc, data, s) \<Rightarrow>
              if rc = 0 then (ret, NB_idle, s) else burn_loop tread disc n s)"

definition ssh2_packet_burn :: "reader \<Rightarrow> (bytes \<Rightarrow> session \<Rightarrow> rc \<times> session) \<Rightarrow> nb_state \<Rightarrow> session \<Rightarrow>
    rc \<times> nb_state \<times> session" where
  "ssh2_packet_burn tread disc state s =
     (case (if state = NB_idle then askv_type disc (map of_nat [1..<255]) s else (None, s)) of
        (Some ty, s) \<Rightarrow> (uint ty, state, s)
      | (None, s) \<Rightarrow> burn_loop tread disc (Suc (loop_bound s)) s)"

text \<open>
  \<open>strchr\<close> finds the terminator as well, so a result of 0 counts as one of the types.
\<close>

fun requirev_loop :: "reader \<Rightarrow> (bytes \<Rightarrow> session \<Rightarrow> rc \<times> session) \<Rightarrow> u8 list \<Rightarrow> nat \<Rightarrow> bytes \<Rightarrow> nat \<Rightarrow> int \<Rightarrow>
    session \<Rightarrow> rc \<times> int \<times> bytes \<times> session" where
  "requirev_loop tread disc types match_ofs match_buf 0 start s =
     (LIBSSH2_ERROR_SOCKET_DISCONNECT, 0, [], set_fault s)"
| "requirev_loop tread disc types match_ofs match_buf (Suc n) start s =
     (if socket_st s = SOCKET_DISCONNECTED then (LIBSSH2_ERROR_SOCKET_DISCONNECT, 0, [], s)
      else
        case tread s of (ret, s) \<Rightarrow>
          if ret < 0 \<and> ret \<noteq> LIBSSH2_ERROR_EAGAIN then (ret, 0, [], s)
          else
            case (if ret \<le> 0 then
                    (case ssh2_now s of (now, s) \<Rightarrow> (packet_read_timeout s - (now - start) \<le> 0, s))
                  else (False, s)) of (timed_out, s) \<Rightarrow>
              if timed_out then (LIBSSH2_ERROR_TIMEOUT, 0, [], s)
              else if ret = LIBSSH2_ERROR_EAGAIN then (ret, start, [], s)
              else if ret = 0 \<or> of_int ret \<in> set types then
                (case packet_askv disc types match_ofs match_buf s of (rc, data, s) \<Rightarrow> (rc, 0, data, s))
              else requirev_loop tread disc types match_ofs match_buf n start s)"

definition ssh2_packet_requirev :: "reader \<Rightarrow> (bytes \<Rightarrow> session \<Rightarrow> rc \<times> session) \<Rightarrow> u8 list \<Rightarrow> nat \<Rightarrow> bytes \<Rightarrow>
    int \<Rightarrow> session \<Rightarrow> rc \<times> int \<times> bytes \<times> session" where
  "ssh2_packet_requirev tread disc types match_ofs match_buf start s =
     (case packet_askv disc types match_ofs match_buf s of (rc, data, s) \<Rightarrow>
        if rc = 0 then (0, 0, data, s)
        else
          case (if start = 0 then ssh2_now s else (start, s)) of (start, s) \<Rightarrow>
            requirev_loop tread disc types match_ofs match_buf (Suc (loop_bound s)) start s)"

end
