(* ===== verification/Channel.thy ===== *)
theory Channel
  imports Packet
begin

text \<open>
  \<open>channel.c\<close>: opening a channel, starting a program on it, reading, writing, flow control, end of file,
  closing and freeing.  A channel is named by its number (\<open>Session\<close>); \<open>tsend\<close>, \<open>tread\<close> and \<open>disc\<close> are as in
  \<open>Packet\<close>.
\<close>

unbundle bit_operations_syntax

type_synonym disconnector = "bytes \<Rightarrow> session \<Rightarrow> rc \<times> session"

abbreviation (input) LIBSSH2_ERROR_CHANNEL_REQUEST_DENIED :: int where
  "LIBSSH2_ERROR_CHANNEL_REQUEST_DENIED \<equiv> - 22"

subsection \<open>Removing a channel\<close>

text \<open>The packets for a channel are thrown away; every round takes one out of the queue.\<close>

fun purge_loop :: "disconnector \<Rightarrow> u32 \<Rightarrow> nat \<Rightarrow> session \<Rightarrow> session" where
  "purge_loop disc i 0 s = set_fault s"
| "purge_loop disc i (Suc n) s =
     (case ssh2_packet_ask disc SSH_MSG_CHANNEL_DATA 1 (ssh2_htonu32 i) s of (rc, _, s) \<Rightarrow>
        if rc \<ge> 0 then purge_loop disc i n s
        else
          case ssh2_packet_ask disc SSH_MSG_CHANNEL_EXTENDED_DATA 1 (ssh2_htonu32 i) s of (rc, _, s) \<Rightarrow>
            if rc \<ge> 0 then purge_loop disc i n s else s)"

definition purge_packets :: "disconnector \<Rightarrow> u32 \<Rightarrow> session \<Rightarrow> session" where
  "purge_packets disc i s = purge_loop disc i (Suc (length (packets s))) s"

definition unlink_chan :: "u32 \<Rightarrow> session \<Rightarrow> session" where
  "unlink_chan i s =
     s\<lparr>channels := filter (\<lambda>c. ch_id c \<noteq> i) (channels s),
       listeners := map (\<lambda>l. l\<lparr>ls_queue := filter (\<lambda>c. ch_id c \<noteq> i) (ls_queue l)\<rparr>) (listeners s)\<rparr>"

subsection \<open>Opening\<close>

datatype open_stage = Open_go | Open_return | Open_error

definition open_packet_of :: "bytes \<Rightarrow> u32 \<Rightarrow> u32 \<Rightarrow> u32 \<Rightarrow> bytes" where
  "open_packet_of ty i window psize =
     [SSH_MSG_CHANNEL_OPEN] @ fst (ssh2_store_str [] ty) @ ssh2_htonu32 i @ ssh2_htonu32 window @
     ssh2_htonu32 psize"

definition open_begin :: "bytes \<Rightarrow> u32 \<Rightarrow> u32 \<Rightarrow> session \<Rightarrow> open_stage \<times> session" where
  "open_begin ty window psize s =
     (case ssh2_channel_nextid (s\<lparr>open_channel := None, open_packet := [], open_data := []\<rparr>) of (i, s) \<Rightarrow>
      let s = s\<lparr>open_local_channel := i, open_requirev_start := 0\<rparr>
      in case ssh2_alloc s of (ok, s) \<Rightarrow>
         if \<not> ok then (Open_return, note_err LIBSSH2_ERROR_ALLOC s)
         else
           case ssh2_alloc s of (ok, s) \<Rightarrow>
           if \<not> ok then (Open_return, note_err LIBSSH2_ERROR_ALLOC s)
           else
             let c = channel_0\<lparr>channel_type := ty, ch_local := channel_data_0\<lparr>cd_id := i\<rparr>,
                       ch_remote := channel_data_0\<lparr>window_size := window, window_size_initial := window,
                                                   packet_size := psize\<rparr>\<rparr>;
                 s = s\<lparr>open_channel := Some i, channels := channels s @ [c]\<rparr>
             in case ssh2_alloc s of (ok, s) \<Rightarrow>
                if \<not> ok then (Open_error, note_err LIBSSH2_ERROR_ALLOC s)
                else (Open_go, s\<lparr>open_packet := open_packet_of ty i window psize, open_state := NB_created\<rparr>))"

definition open_send :: "sender \<Rightarrow> bytes \<Rightarrow> session \<Rightarrow> open_stage \<times> session" where
  "open_send tsend message s =
     (case tsend (''open'', 0) (open_packet s) message s of (rc, s) \<Rightarrow>
        if rc = LIBSSH2_ERROR_EAGAIN then (Open_return, note_err rc s)
        else if rc \<noteq> 0 then (Open_error, note_err rc s)
        else (Open_go, s\<lparr>open_state := NB_sent\<rparr>))"

text \<open>The peer's answer.\<close>

definition open_confirmed :: "bytes \<Rightarrow> channel \<Rightarrow> channel" where
  "open_confirmed data c =
     c\<lparr>ch_remote := (ch_remote c)\<lparr>cd_id := ssh2_ntohu32 (drop 5 data)\<rparr>,
       ch_local := (ch_local c)\<lparr>window_size := ssh2_ntohu32 (drop 9 data),
                                window_size_initial := ssh2_ntohu32 (drop 9 data),
                                packet_size := ssh2_ntohu32 (drop 13 data)\<rparr>\<rparr>"

definition open_reply :: "reader \<Rightarrow> disconnector \<Rightarrow> bytes \<Rightarrow> session \<Rightarrow> open_stage \<times> session" where
  "open_reply tread disc ty s =
     (case ssh2_packet_requirev tread disc [SSH_MSG_CHANNEL_OPEN_CONFIRMATION, SSH_MSG_CHANNEL_OPEN_FAILURE]
             1 (slice (5 + length ty) 4 (open_packet s)) (open_requirev_start s) s of (rc, start, data, s) \<Rightarrow>
      let s = s\<lparr>open_requirev_start := start\<rparr>
      in if rc = LIBSSH2_ERROR_EAGAIN then (Open_return, note_err LIBSSH2_ERROR_EAGAIN s)
         else if rc \<noteq> 0 then (Open_error, note_err rc s)
         else if length data < 1 then (Open_error, note_err LIBSSH2_ERROR_PROTO s)
         else if data ! 0 = SSH_MSG_CHANNEL_OPEN_CONFIRMATION then
           if length data < 17 then (Open_error, note_err LIBSSH2_ERROR_PROTO s)
           else
             (case open_channel s of
                None \<Rightarrow> (Open_go, set_fault s)
              | Some i \<Rightarrow> (Open_go, (upd_chan i (open_confirmed data) s)\<lparr>open_packet := [],
                                  open_data := [], open_state := NB_idle\<rparr>))
         else if data ! 0 = SSH_MSG_CHANNEL_OPEN_FAILURE
         then (Open_error, note_err (if length data < 9 then LIBSSH2_ERROR_PROTO
                                     else LIBSSH2_ERROR_CHANNEL_FAILURE) s)
         else (Open_error, s))"

definition open_error :: "disconnector \<Rightarrow> session \<Rightarrow> session" where
  "open_error disc s =
     (let s = s\<lparr>open_data := [], open_packet := []\<rparr>;
          s = (case open_channel s of
                 None \<Rightarrow> s
               | Some i \<Rightarrow> (purge_packets disc i (unlink_chan i s))\<lparr>open_channel := None\<rparr>)
      in s\<lparr>open_state := NB_idle\<rparr>)"

definition open_then :: "(session \<Rightarrow> open_stage \<times> session) \<Rightarrow> nb_state \<Rightarrow> open_stage \<times> session \<Rightarrow>
    open_stage \<times> session" where
  "open_then f state r =
     (case r of (stage, s) \<Rightarrow> if stage = Open_go \<and> open_state s = state then f s else (stage, s))"

text \<open>The result is the channel, or NULL.\<close>

definition ssh2_channel_open :: "sender \<Rightarrow> reader \<Rightarrow> disconnector \<Rightarrow> bytes \<Rightarrow> u32 \<Rightarrow> u32 \<Rightarrow> bytes \<Rightarrow>
    session \<Rightarrow> u32 option \<times> session" where
  "ssh2_channel_open tsend tread disc ty window psize message s =
     (case open_then (open_send tsend message) NB_created
             (open_then (open_begin ty window psize) NB_idle (Open_go, s)) of (stage, s) \<Rightarrow>
        if stage = Open_return then (None, s)
        else if stage = Open_error then (None, open_error disc s)
        else if open_state s = NB_sent then
          (case open_reply tread disc ty s of (stage, s) \<Rightarrow>
             if stage = Open_return then (None, s)
             else if stage = Open_error then (None, open_error disc s)
             else (open_channel s, s))
        else (None, open_error disc s))"

subsection \<open>Starting a program\<close>

definition process_packet_of :: "channel \<Rightarrow> bytes \<Rightarrow> bytes option \<Rightarrow> bytes" where
  "process_packet_of c request message =
     [SSH_MSG_CHANNEL_REQUEST] @ ssh2_htonu32 (cd_id (ch_remote c)) @ fst (ssh2_store_str [] request) @ [1] @
     (case message of None \<Rightarrow> [] | Some m \<Rightarrow> ssh2_htonu32 (of_nat (length m)))"

definition process_begin :: "u32 \<Rightarrow> bytes \<Rightarrow> bytes option \<Rightarrow> session \<Rightarrow> rc \<times> session" where
  "process_begin i request message s =
     (case ssh2_alloc (upd_chan i (\<lambda>c. c\<lparr>process_requirev_start := 0\<rparr>) s) of (ok, s) \<Rightarrow>
        if \<not> ok then ssh2_err LIBSSH2_ERROR_ALLOC s
        else (0, upd_chan i (\<lambda>c. c\<lparr>process_packet := process_packet_of c request message,
                                   process_state := NB_created\<rparr>) s))"

definition process_send :: "sender \<Rightarrow> u32 \<Rightarrow> bytes option \<Rightarrow> session \<Rightarrow> rc \<times> session" where
  "process_send tsend i message s =
     (case tsend (''process'', unat i) (process_packet (get_chan i s))
             (case message of None \<Rightarrow> [] | Some m \<Rightarrow> m) s of (rc, s) \<Rightarrow>
        if rc = LIBSSH2_ERROR_EAGAIN then ssh2_err rc s
        else if rc \<noteq> 0
        then ssh2_err rc (upd_chan i (\<lambda>c. c\<lparr>process_packet := [], process_state := NB_end\<rparr>) s)
        else (0, upd_chan i (\<lambda>c. c\<lparr>process_packet := [],
                   process_local_channel := ssh2_htonu32 (ch_id c), process_state := NB_sent\<rparr>) s))"

definition process_reply :: "reader \<Rightarrow> disconnector \<Rightarrow> u32 \<Rightarrow> session \<Rightarrow> rc \<times> session" where
  "process_reply tread disc i s =
     (case ssh2_packet_requirev tread disc [SSH_MSG_CHANNEL_SUCCESS, SSH_MSG_CHANNEL_FAILURE] 1
             (process_local_channel (get_chan i s)) (process_requirev_start (get_chan i s)) s of
        (rc, start, data, s) \<Rightarrow>
          let s = upd_chan i (\<lambda>c. c\<lparr>process_requirev_start := start\<rparr>) s
          in if rc = LIBSSH2_ERROR_EAGAIN then (rc, s)
             else
               let s = upd_chan i (\<lambda>c. c\<lparr>process_state := NB_end\<rparr>) s
               in if rc \<noteq> 0 \<or> length data < 1 then ssh2_err rc s
                  else if data ! 0 = SSH_MSG_CHANNEL_SUCCESS then (0, s)
                  else ssh2_err LIBSSH2_ERROR_CHANNEL_REQUEST_DENIED s)"

definition ssh2_channel_process_startup :: "sender \<Rightarrow> reader \<Rightarrow> disconnector \<Rightarrow> u32 \<Rightarrow> bytes \<Rightarrow>
    bytes option \<Rightarrow> session \<Rightarrow> rc \<times> session" where
  "ssh2_channel_process_startup tsend tread disc i request message s =
     (if process_state (get_chan i s) = NB_end then ssh2_err LIBSSH2_ERROR_BAD_USE s
      else
        case (if process_state (get_chan i s) = NB_idle then process_begin i request message s
              else (0, s)) of (rc, s) \<Rightarrow>
        if rc \<noteq> 0 then (rc, s)
        else
          case (if process_state (get_chan i s) = NB_created then process_send tsend i message s
                else (0, s)) of (rc, s) \<Rightarrow>
          if rc \<noteq> 0 then (rc, s)
          else if process_state (get_chan i s) = NB_sent then process_reply tread disc i s
          else ssh2_err LIBSSH2_ERROR_CHANNEL_REQUEST_DENIED s)"

subsection \<open>Flushing\<close>

abbreviation (input) LIBSSH2_CHANNEL_FLUSH_EXTENDED_DATA :: int where
  "LIBSSH2_CHANNEL_FLUSH_EXTENDED_DATA \<equiv> - 1"
abbreviation (input) LIBSSH2_CHANNEL_FLUSH_ALL :: int where "LIBSSH2_CHANNEL_FLUSH_ALL \<equiv> - 2"

text \<open>\<open>data_len - data_head\<close> in \<open>size_t\<close>.\<close>

definition pkt_left :: "packet \<Rightarrow> u64" where
  "pkt_left p = of_nat (pkt_len p) - of_nat (pkt_head p)"

definition is_data :: "packet \<Rightarrow> bool" where
  "is_data p \<longleftrightarrow> chr_at (pkt_data p) 0 = SSH_MSG_CHANNEL_DATA \<or>
                chr_at (pkt_data p) 0 = SSH_MSG_CHANNEL_EXTENDED_DATA"

definition pkt_channel :: "packet \<Rightarrow> u32" where
  "pkt_channel p = ssh2_ntohu32 (drop 1 (pkt_data p))"

definition pkt_stream :: "packet \<Rightarrow> int" where
  "pkt_stream p = sint (ssh2_ntohu32 (drop 5 (pkt_data p)))"

definition data_for :: "u32 \<Rightarrow> packet \<Rightarrow> bool" where
  "data_for i p \<longleftrightarrow> pkt_len p \<ge> 1 \<and> is_data p \<and> pkt_len p \<ge> 5 \<and> pkt_channel p = i"

text \<open>The packets that stay, the bytes taken out, and whether a packet was too short to tell its stream.\<close>

fun flush_loop :: "u32 \<Rightarrow> int \<Rightarrow> packet list \<Rightarrow> packet list \<times> u64 \<times> bool" where
  "flush_loop i streamid [] = ([], 0, False)"
| "flush_loop i streamid (p # r) =
     (let ext = (chr_at (pkt_data p) 0 = SSH_MSG_CHANNEL_EXTENDED_DATA)
      in if \<not> data_for i p then (case flush_loop i streamid r of (ps, n, e) \<Rightarrow> (p # ps, n, e))
         else if ext \<and> pkt_len p < 9 then (p # r, 0, True)
         else if streamid = LIBSSH2_CHANNEL_FLUSH_ALL \<or>
                 (ext \<and> (streamid = LIBSSH2_CHANNEL_FLUSH_EXTENDED_DATA \<or> streamid = pkt_stream p)) \<or>
                 (\<not> ext \<and> streamid = 0)
         then (case flush_loop i streamid r of (ps, n, e) \<Rightarrow> (ps, n + pkt_left p, e))
         else (case flush_loop i streamid r of (ps, n, e) \<Rightarrow> (p # ps, n, e)))"

definition flush_begin :: "u32 \<Rightarrow> int \<Rightarrow> session \<Rightarrow> rc \<times> session" where
  "flush_begin i streamid s =
     (case flush_loop i streamid (packets s) of (ps, n, e) \<Rightarrow>
        let s = upd_chan i (\<lambda>c. c\<lparr>flush_refund_bytes := n, flush_flush_bytes := n\<rparr>) (s\<lparr>packets := ps\<rparr>)
        in if e then ssh2_err LIBSSH2_ERROR_PROTO s
           else (0, upd_chan i (\<lambda>c. c\<lparr>flush_state := NB_created\<rparr>) s))"

definition ssh2_channel_flush :: "sender \<Rightarrow> u32 \<Rightarrow> int \<Rightarrow> session \<Rightarrow> rc \<times> session" where
  "ssh2_channel_flush tsend i streamid s =
     (case (if flush_state (get_chan i s) = NB_idle then flush_begin i streamid s else (0, s)) of (rc, s) \<Rightarrow>
        if rc \<noteq> 0 then (rc, s)
        else
          let s = upd_chan i (\<lambda>c. (upd_rwin (\<lambda>w. w - ucast (flush_flush_bytes c)) c)
                      \<lparr>read_avail := read_avail c - flush_flush_bytes c\<rparr>) s;
              refund = flush_refund_bytes (get_chan i s)
          in case (if refund \<noteq> 0 then ssh2_channel_receive_window_adjust tsend i (ucast refund) True s
                   else (0, s)) of (rc, s) \<Rightarrow>
               if rc = LIBSSH2_ERROR_EAGAIN then (rc, s)
               else
                 let s = upd_chan i (\<lambda>c. c\<lparr>flush_state := NB_idle\<rparr>) s
                 in (sint (ucast (flush_flush_bytes (get_chan i s)) :: u32), s))"

definition libssh2_channel_flush_ex :: "sender \<Rightarrow> u32 \<Rightarrow> int \<Rightarrow> session \<Rightarrow> rc \<times> session" where
  "libssh2_channel_flush_ex tsend i streamid = block_adjust tsend (ssh2_channel_flush tsend i streamid)"

subsection \<open>The receive window and extended data\<close>

text \<open>The window at the entry of the last call is stored through the pointer; it is not part of the result.\<close>

definition libssh2_channel_receive_window_adjust2 :: "sender \<Rightarrow> u32 \<Rightarrow> u32 \<Rightarrow> bool \<Rightarrow> session \<Rightarrow> rc \<times> session" where
  "libssh2_channel_receive_window_adjust2 tsend i adjustment force =
     block_adjust tsend (ssh2_channel_receive_window_adjust tsend i adjustment force)"

definition ssh2_channel_extended_data :: "sender \<Rightarrow> u32 \<Rightarrow> int \<Rightarrow> session \<Rightarrow> rc \<times> session" where
  "ssh2_channel_extended_data tsend i ignore_mode s =
     (let s = (if extData2_state (get_chan i s) = NB_idle
               then upd_chan i (\<lambda>c. (upd_cremote (\<lambda>r. r\<lparr>extended_data_ignore_mode := sint (of_int ignore_mode :: 8 word)\<rparr>) c)
                                      \<lparr>extData2_state := NB_created\<rparr>) s
               else s)
      in case (if extData2_state (get_chan i s) = NB_created \<and>
                  ignore_mode = LIBSSH2_CHANNEL_EXTENDED_DATA_IGNORE
               then ssh2_channel_flush tsend i LIBSSH2_CHANNEL_FLUSH_EXTENDED_DATA s
               else (0, s)) of (rc, s) \<Rightarrow>
           if rc = LIBSSH2_ERROR_EAGAIN then (rc, s)
           else (0, upd_chan i (\<lambda>c. c\<lparr>extData2_state := NB_idle\<rparr>) s))"

definition libssh2_channel_handle_extended_data2 :: "sender \<Rightarrow> u32 \<Rightarrow> int \<Rightarrow> session \<Rightarrow> rc \<times> session" where
  "libssh2_channel_handle_extended_data2 tsend i ignore_mode =
     block_adjust tsend (ssh2_channel_extended_data tsend i ignore_mode)"

subsection \<open>Reading\<close>

text \<open>Everything that has arrived is taken in, until nothing more is there or an error occurs.\<close>

fun drain_loop :: "reader \<Rightarrow> nat \<Rightarrow> session \<Rightarrow> rc \<times> session" where
  "drain_loop tread 0 s = (LIBSSH2_ERROR_SOCKET_RECV, set_fault s)"
| "drain_loop tread (Suc n) s =
     (case tread s of (rc, s) \<Rightarrow> if rc > 0 then drain_loop tread n s else (rc, s))"

definition drain :: "reader \<Rightarrow> session \<Rightarrow> rc \<times> session" where
  "drain tread s = drain_loop tread (Suc (loop_bound s)) s"

text \<open>
  Is the packet data of the wanted stream?  \<open>stream_id\<close> 0 is the standard stream, which extended data may be
  merged into.
\<close>

definition wanted :: "channel \<Rightarrow> int \<Rightarrow> packet \<Rightarrow> bool" where
  "wanted c stream_id p \<longleftrightarrow> pkt_len p \<ge> 5 \<and> pkt_channel p = ch_id c \<and>
     (let t = chr_at (pkt_data p) 0
      in (stream_id \<noteq> 0 \<and> t = SSH_MSG_CHANNEL_EXTENDED_DATA \<and> pkt_len p \<ge> 9 \<and> stream_id = pkt_stream p) \<or>
         (stream_id = 0 \<and> t = SSH_MSG_CHANNEL_DATA) \<or>
         (stream_id = 0 \<and> t = SSH_MSG_CHANNEL_EXTENDED_DATA \<and>
          extended_data_ignore_mode (ch_remote c) = LIBSSH2_CHANNEL_EXTENDED_DATA_MERGE))"

text \<open>
  The loop over the queue: at most \<open>n\<close> bytes are copied; a packet that is used up is taken out, one that is
  not keeps its rest.
\<close>

fun read_queue :: "(packet \<Rightarrow> bool) \<Rightarrow> nat \<Rightarrow> packet list \<Rightarrow> bytes \<times> packet list" where
  "read_queue ok n [] = ([], [])"
| "read_queue ok n (p # r) =
     (if n = 0 then ([], p # r)
      else if \<not> ok p then (case read_queue ok n r of (bs, ps) \<Rightarrow> (bs, p # ps))
      else
        let left = unat (pkt_left p)
        in if n \<ge> left
           then (case read_queue ok (n - left) r of (bs, ps) \<Rightarrow> (slice (pkt_head p) left (pkt_data p) @ bs, ps))
           else (slice (pkt_head p) n (pkt_data p), p\<lparr>pkt_head := pkt_head p + n\<rparr> # r))"

text \<open>The window is widened first, when it has become narrow.\<close>

definition read_window :: "sender \<Rightarrow> u32 \<Rightarrow> u64 \<Rightarrow> session \<Rightarrow> rc \<times> session" where
  "read_window tsend i buflen s =
     (let c = get_chan i s; initial = window_size_initial (ch_remote c)
      in if read_state c = NB_jump1 \<or> ucast (rwin c) < ucast (initial div 4 * 3) + buflen then
           let adjustment = ucast (ucast initial + buflen - ucast (rwin c) :: u64) :: u32;
               adjustment = (if adjustment < LIBSSH2_CHANNEL_MINADJUST then LIBSSH2_CHANNEL_MINADJUST
                             else adjustment)
           in case ssh2_channel_receive_window_adjust tsend i adjustment False
                     (upd_chan i (\<lambda>c. c\<lparr>read_state := NB_jump1\<rparr>) s) of (rc, s) \<Rightarrow>
                if rc \<noteq> 0 then (rc, s)
                else (0, upd_chan i (\<lambda>c. c\<lparr>read_state := NB_idle\<rparr>) s)
         else (0, s))"

definition read_take :: "u32 \<Rightarrow> int \<Rightarrow> nat \<Rightarrow> rc \<Rightarrow> session \<Rightarrow> rc \<times> bytes \<times> session" where
  "read_take i stream_id buflen rc s =
     (case read_queue (wanted (get_chan i s) stream_id) buflen (packets s) of (bs, ps) \<Rightarrow>
        let s = s\<lparr>packets := ps\<rparr>; r = ch_remote (get_chan i s)
        in if bs = [] then
             if cd_eof r \<or> cd_close r \<or> rc \<noteq> LIBSSH2_ERROR_EAGAIN then (0, [], s)
             else (case ssh2_err rc s of (rc, s) \<Rightarrow> (rc, [], s))
           else
             (int (length bs), bs,
              upd_chan i (\<lambda>c. (upd_rwin (\<lambda>w. w - of_nat (length bs)) c)
                            \<lparr>read_avail := read_avail c - of_nat (length bs)\<rparr>) s))"

definition ssh2_channel_read :: "sender \<Rightarrow> reader \<Rightarrow> u32 \<Rightarrow> int \<Rightarrow> nat \<Rightarrow> session \<Rightarrow> rc \<times> bytes \<times> session" where
  "ssh2_channel_read tsend tread i stream_id buflen s =
     (case read_window tsend i (of_nat buflen) s of (rc, s) \<Rightarrow>
        if rc \<noteq> 0 then (rc, [], s)
        else
          case drain tread s of (rc, s) \<Rightarrow>
            if rc < 0 \<and> rc \<noteq> LIBSSH2_ERROR_EAGAIN
            then (case ssh2_err rc s of (rc, s) \<Rightarrow> (rc, [], s))
            else read_take i stream_id buflen rc s)"

text \<open>The window sizes, and the bytes that are queued for a channel.\<close>

definition bytes_queued :: "u32 \<Rightarrow> packet list \<Rightarrow> u64" where
  "bytes_queued i ps = (\<Sum>p\<leftarrow>filter (data_for i) ps. pkt_left p)"

text \<open>The result, and what is stored through \<open>read_avail\<close> and \<open>window_size_initial\<close>.\<close>

definition libssh2_channel_window_read_ex :: "u32 \<Rightarrow> session \<Rightarrow> u32 \<times> u64 \<times> u32" where
  "libssh2_channel_window_read_ex i s =
     (rwin (get_chan i s), bytes_queued i (packets s), window_size_initial (ch_remote (get_chan i s)))"

definition libssh2_channel_window_write_ex :: "u32 \<Rightarrow> session \<Rightarrow> u32 \<times> u32" where
  "libssh2_channel_window_write_ex i s =
     (lwin (get_chan i s), window_size_initial (ch_local (get_chan i s)))"

definition libssh2_channel_read_ex :: "sender \<Rightarrow> reader \<Rightarrow> u32 \<Rightarrow> int \<Rightarrow> nat \<Rightarrow> session \<Rightarrow>
    rc \<times> bytes option \<times> session" where
  "libssh2_channel_read_ex tsend tread i stream_id buflen s =
     (let s = (if buflen > unat (rwin (get_chan i s))
               then snd (block_adjust tsend
                      (ssh2_channel_receive_window_adjust tsend i (of_nat buflen) True) s)
               else s)
      in block_adjust_out tsend (ssh2_channel_read tsend tread i stream_id buflen) s)"

definition ssh2_channel_packet_data_len :: "u32 \<Rightarrow> int \<Rightarrow> session \<Rightarrow> u64" where
  "ssh2_channel_packet_data_len i stream_id s =
     (case find (wanted (get_chan i s) stream_id) (packets s) of None \<Rightarrow> 0 | Some p \<Rightarrow> pkt_left p)"

subsection \<open>Writing\<close>

definition write_begin :: "reader \<Rightarrow> u32 \<Rightarrow> int \<Rightarrow> nat \<Rightarrow> session \<Rightarrow> rc option \<times> session" where
  "write_begin tread i stream_id buflen s =
     (let leave = (\<lambda>(rc, s). (Some rc, s)); c = get_chan i s
      in if cd_close (ch_local c) then leave (ssh2_err LIBSSH2_ERROR_CHANNEL_CLOSED s)
         else if cd_eof (ch_local c) then leave (ssh2_err LIBSSH2_ERROR_CHANNEL_EOF_SENT s)
         else
           case drain tread s of (rc, s) \<Rightarrow>
             if rc < 0 \<and> rc \<noteq> LIBSSH2_ERROR_EAGAIN then leave (ssh2_err rc s)
             else
               let c = get_chan i s
               in if lwin c = 0
                  then (Some rc, s\<lparr>block_directions := LIBSSH2_SESSION_BLOCK_INBOUND\<rparr>)
                  else
                    let n = min (min buflen (unat (lwin c))) (unat (packet_size (ch_local c)))
                    in (None, upd_chan i (\<lambda>c. c\<lparr>write_bufwrite := n,
                          write_packet :=
                            [if stream_id \<noteq> 0 then SSH_MSG_CHANNEL_EXTENDED_DATA else SSH_MSG_CHANNEL_DATA] @
                            ssh2_htonu32 (cd_id (ch_remote c)) @
                            (if stream_id \<noteq> 0 then ssh2_htonu32 (of_int stream_id) else []) @
                            ssh2_htonu32 (of_nat n),
                          write_state := NB_created\<rparr>) s))"

definition write_send :: "sender \<Rightarrow> u32 \<Rightarrow> bytes \<Rightarrow> session \<Rightarrow> rc \<times> session" where
  "write_send tsend i buf s =
     (let n = write_bufwrite (get_chan i s)
      in case tsend (''write'', unat i) (write_packet (get_chan i s)) (take n buf) s of (rc, s) \<Rightarrow>
           if rc = LIBSSH2_ERROR_EAGAIN then ssh2_err rc s
           else if rc \<noteq> 0 then ssh2_err rc (upd_chan i (\<lambda>c. c\<lparr>write_state := NB_idle\<rparr>) s)
           else (int (write_bufwrite (get_chan i s)),
                 upd_chan i (\<lambda>c. c\<lparr>ch_local := (ch_local c)\<lparr>window_size := lwin c - of_nat (write_bufwrite c)\<rparr>,
                                   write_state := NB_idle\<rparr>) s))"

definition ssh2_channel_write :: "sender \<Rightarrow> reader \<Rightarrow> u32 \<Rightarrow> int \<Rightarrow> bytes \<Rightarrow> session \<Rightarrow> rc \<times> session" where
  "ssh2_channel_write tsend tread i stream_id buf s =
     (let buflen = min (length buf) 32700
      in case (if write_state (get_chan i s) = NB_idle then write_begin tread i stream_id buflen s
               else (None, s)) of
           (Some rc, s) \<Rightarrow> (rc, s)
         | (None, s) \<Rightarrow>
             if write_state (get_chan i s) = NB_created then write_send tsend i buf s
             else (LIBSSH2_ERROR_INVAL, s))"

definition libssh2_channel_write_ex :: "sender \<Rightarrow> reader \<Rightarrow> u32 \<Rightarrow> int \<Rightarrow> bytes \<Rightarrow> session \<Rightarrow> rc \<times> session" where
  "libssh2_channel_write_ex tsend tread i stream_id buf =
     block_adjust tsend (ssh2_channel_write tsend tread i stream_id buf)"

subsection \<open>End of file\<close>

definition channel_send_eof :: "sender \<Rightarrow> u32 \<Rightarrow> session \<Rightarrow> rc \<times> session" where
  "channel_send_eof tsend i s =
     (case tsend (''eof'', 0) ([SSH_MSG_CHANNEL_EOF] @ ssh2_htonu32 (cd_id (ch_remote (get_chan i s)))) [] s of
        (rc, s) \<Rightarrow>
          if rc = LIBSSH2_ERROR_EAGAIN then ssh2_err rc s
          else if rc \<noteq> 0 then ssh2_err LIBSSH2_ERROR_SOCKET_SEND s
          else (0, upd_chan i (\<lambda>c. c\<lparr>ch_local := (ch_local c)\<lparr>cd_eof := True\<rparr>\<rparr>) s))"

definition libssh2_channel_send_eof :: "sender \<Rightarrow> u32 \<Rightarrow> session \<Rightarrow> rc \<times> session" where
  "libssh2_channel_send_eof tsend i = block_adjust tsend (channel_send_eof tsend i)"

text \<open>Data that waits in the queue hides the peer's end of file.\<close>

definition libssh2_channel_eof :: "u32 \<Rightarrow> session \<Rightarrow> bool" where
  "libssh2_channel_eof i s \<longleftrightarrow>
     \<not> (\<exists>p \<in> set (packets s). data_for i p) \<and> cd_eof (ch_remote (get_chan i s))"

fun wait_eof_loop :: "reader \<Rightarrow> u32 \<Rightarrow> nat \<Rightarrow> session \<Rightarrow> rc \<times> session" where
  "wait_eof_loop tread i 0 s = (LIBSSH2_ERROR_SOCKET_RECV, set_fault s)"
| "wait_eof_loop tread i (Suc n) s =
     (let c = get_chan i s; idle = upd_chan i (\<lambda>c. c\<lparr>wait_eof_state := NB_idle\<rparr>)
      in if cd_eof (ch_remote c) then (0, idle s)
         else if ucast (rwin c) = read_avail c \<and> api_block_mode s
         then ssh2_err LIBSSH2_ERROR_CHANNEL_WINDOW_FULL s
         else
           case tread s of (rc, s) \<Rightarrow>
             if rc = LIBSSH2_ERROR_EAGAIN then (rc, s)
             else if rc < 0 then ssh2_err rc (idle s)
             else wait_eof_loop tread i n s)"

definition channel_wait_eof :: "reader \<Rightarrow> u32 \<Rightarrow> session \<Rightarrow> rc \<times> session" where
  "channel_wait_eof tread i s =
     wait_eof_loop tread i (Suc (loop_bound s))
       (if wait_eof_state (get_chan i s) = NB_idle
        then upd_chan i (\<lambda>c. c\<lparr>wait_eof_state := NB_created\<rparr>) s else s)"

definition libssh2_channel_wait_eof :: "sender \<Rightarrow> reader \<Rightarrow> u32 \<Rightarrow> session \<Rightarrow> rc \<times> session" where
  "libssh2_channel_wait_eof tsend tread i = block_adjust tsend (channel_wait_eof tread i)"

subsection \<open>Closing\<close>

text \<open>
  The loop that waits for the peer's close: any packet that is read ends it, since its type is a positive
  result.
\<close>

fun close_wait :: "reader \<Rightarrow> u32 \<Rightarrow> nat \<Rightarrow> rc \<Rightarrow> session \<Rightarrow> rc \<times> session" where
  "close_wait tread i 0 rc s = (LIBSSH2_ERROR_SOCKET_RECV, set_fault s)"
| "close_wait tread i (Suc n) rc s =
     (if \<not> cd_close (ch_remote (get_chan i s)) \<and> rc = 0 \<and> socket_st s \<noteq> SOCKET_DISCONNECTED
      then (case tread s of (rc, s) \<Rightarrow> close_wait tread i n rc s)
      else (rc, s))"

definition close_send :: "sender \<Rightarrow> u32 \<Rightarrow> rc \<Rightarrow> session \<Rightarrow> rc \<times> session" where
  "close_send tsend i rc s =
     (let s = (if close_state (get_chan i s) = NB_idle
               then upd_chan i (\<lambda>c. c\<lparr>close_packet := [SSH_MSG_CHANNEL_CLOSE] @ ssh2_htonu32 (cd_id (ch_remote c)),
                                      close_state := NB_created\<rparr>) s
               else s)
      in if close_state (get_chan i s) = NB_created then
           (case tsend (''close'', unat i) (close_packet (get_chan i s)) [] s of (rc, s) \<Rightarrow>
              if rc = 0 then (0, upd_chan i (\<lambda>c. c\<lparr>close_state := NB_sent\<rparr>) s)
              else (rc, note_err rc s))
         else (rc, s))"

definition close_finish :: "u32 \<Rightarrow> rc \<Rightarrow> session \<Rightarrow> rc \<times> session" where
  "close_finish i rc s =
     (if rc = LIBSSH2_ERROR_EAGAIN then (rc, s)
      else (if rc \<ge> 0 then 0 else rc,
            upd_chan i (\<lambda>c. c\<lparr>ch_local := (ch_local c)\<lparr>cd_close := True\<rparr>, close_state := NB_idle\<rparr>) s))"

definition ssh2_channel_close :: "sender \<Rightarrow> reader \<Rightarrow> u32 \<Rightarrow> session \<Rightarrow> rc \<times> session" where
  "ssh2_channel_close tsend tread i s =
     (if cd_close (ch_local (get_chan i s)) then (0, upd_chan i (\<lambda>c. c\<lparr>close_state := NB_idle\<rparr>) s)
      else
        case (if \<not> cd_eof (ch_local (get_chan i s)) then channel_send_eof tsend i s else (0, s)) of (rc, s) \<Rightarrow>
        if rc = LIBSSH2_ERROR_EAGAIN then (rc, s)
        else
          let s = (if rc \<noteq> 0 then note_err rc s else s)
          in case close_send tsend i rc s of (rc, s) \<Rightarrow>
             if rc = LIBSSH2_ERROR_EAGAIN then (rc, s)
             else
               case (if close_state (get_chan i s) = NB_sent then close_wait tread i (Suc (Suc (loop_bound s))) rc s
                     else (rc, s)) of (rc, s) \<Rightarrow> close_finish i rc s)"

definition libssh2_channel_close :: "sender \<Rightarrow> reader \<Rightarrow> u32 \<Rightarrow> session \<Rightarrow> rc \<times> session" where
  "libssh2_channel_close tsend tread i = block_adjust tsend (ssh2_channel_close tsend tread i)"

fun wait_closed_loop :: "reader \<Rightarrow> u32 \<Rightarrow> nat \<Rightarrow> session \<Rightarrow> rc \<times> session" where
  "wait_closed_loop tread i 0 s = (LIBSSH2_ERROR_SOCKET_RECV, set_fault s)"
| "wait_closed_loop tread i (Suc n) s =
     (case tread s of (rc, s) \<Rightarrow>
        if cd_close (ch_remote (get_chan i s)) \<or> \<not> rc > 0 then (rc, s)
        else wait_closed_loop tread i n s)"

definition channel_wait_closed :: "reader \<Rightarrow> u32 \<Rightarrow> session \<Rightarrow> rc \<times> session" where
  "channel_wait_closed tread i s =
     (if \<not> cd_eof (ch_remote (get_chan i s)) then ssh2_err LIBSSH2_ERROR_INVAL s
      else
        let s = (if wait_closed_state (get_chan i s) = NB_idle
                 then upd_chan i (\<lambda>c. c\<lparr>wait_closed_state := NB_created\<rparr>) s else s)
        in case (if \<not> cd_close (ch_remote (get_chan i s)) then wait_closed_loop tread i (Suc (loop_bound s)) s
                 else (0, s)) of (rc, s) \<Rightarrow>
             if rc < 0 then (rc, s)
             else (0, upd_chan i (\<lambda>c. c\<lparr>wait_closed_state := NB_idle\<rparr>) s))"

definition libssh2_channel_wait_closed :: "sender \<Rightarrow> reader \<Rightarrow> u32 \<Rightarrow> session \<Rightarrow> rc \<times> session" where
  "libssh2_channel_wait_closed tsend tread i = block_adjust tsend (channel_wait_closed tread i)"

text \<open>
  Freeing; of the session's pointers to the channel those of the public-key subsystem and of SCP are not
  part of the model.
\<close>

definition forget_chan :: "u32 \<Rightarrow> session \<Rightarrow> session" where
  "forget_chan i s =
     (let s = (if open_channel s = Some i
               then s\<lparr>open_channel := None, open_state := NB_idle, open_packet := [], open_data := []\<rparr> else s)
      in if packAdd_channelp s = Some i then s\<lparr>packAdd_channelp := None, packAdd_state := NB_idle\<rparr> else s)"

definition ssh2_channel_free :: "sender \<Rightarrow> reader \<Rightarrow> disconnector \<Rightarrow> u32 \<Rightarrow> session \<Rightarrow> rc \<times> session" where
  "ssh2_channel_free tsend tread disc i s =
     (let s = (if free_state (get_chan i s) = NB_idle
               then upd_chan i (\<lambda>c. c\<lparr>free_state := NB_created\<rparr>) s else s)
      in case (if \<not> cd_close (ch_local (get_chan i s)) \<and> socket_st s = SOCKET_CONNECTED
               then ssh2_channel_close tsend tread i s else (0, s)) of (rc, s) \<Rightarrow>
           if rc = LIBSSH2_ERROR_EAGAIN then (rc, s)
           else (0, forget_chan i (unlink_chan i (purge_packets disc i
                      (upd_chan i (\<lambda>c. c\<lparr>free_state := NB_idle\<rparr>) s)))))"

definition libssh2_channel_free :: "sender \<Rightarrow> reader \<Rightarrow> disconnector \<Rightarrow> u32 \<Rightarrow> session \<Rightarrow> rc \<times> session" where
  "libssh2_channel_free tsend tread disc i = block_adjust tsend (ssh2_channel_free tsend tread disc i)"

subsection \<open>Signals\<close>

definition signal_packet_of :: "channel \<Rightarrow> bytes \<Rightarrow> bytes" where
  "signal_packet_of c signame =
     [SSH_MSG_CHANNEL_REQUEST] @ ssh2_htonu32 (cd_id (ch_remote c)) @
     fst (ssh2_store_str [] (str ''signal'')) @ [0] @ fst (ssh2_store_str [] signame)"

definition channel_signal :: "sender \<Rightarrow> u32 \<Rightarrow> bytes \<Rightarrow> session \<Rightarrow> rc \<times> session" where
  "channel_signal tsend i signame s =
     (case (if sendsignal_state (get_chan i s) = NB_idle then
              (case ssh2_alloc s of (ok, s) \<Rightarrow>
                 if \<not> ok then ssh2_err LIBSSH2_ERROR_ALLOC s
                 else (0, upd_chan i (\<lambda>c. c\<lparr>sendsignal_packet := signal_packet_of c signame,
                                           sendsignal_state := NB_created\<rparr>) s))
            else (0, s)) of (rc, s) \<Rightarrow>
        let idle = upd_chan i (\<lambda>c. c\<lparr>sendsignal_state := NB_idle\<rparr>)
        in if rc \<noteq> 0 then (rc, s)
           else if sendsignal_state (get_chan i s) = NB_created then
             (case tsend (''signal'', unat i) (sendsignal_packet (get_chan i s)) [] s of (rc, s) \<Rightarrow>
                if rc = LIBSSH2_ERROR_EAGAIN then ssh2_err rc s
                else if rc \<noteq> 0 then ssh2_err rc (idle s)
                else (LIBSSH2_ERROR_NONE, idle s))
           else (LIBSSH2_ERROR_PROTO, idle s))"

definition libssh2_channel_signal_ex :: "sender \<Rightarrow> u32 \<Rightarrow> bytes \<Rightarrow> session \<Rightarrow> rc \<times> session" where
  "libssh2_channel_signal_ex tsend i signame = block_adjust tsend (channel_signal tsend i signame)"

end
