(* ===== verification/Stack.thy ===== *)
theory Stack
  imports Channel
begin

text \<open>
  The functions of transport, packets and key exchange call each other.  They are tied together here.

  While keys are exchanged (\<open>SSH2_STATE_KEX_ACTIVE\<close>), sending and receiving are not redirected into the
  exchange again, and \<open>ssh2_packet_add\<close> does not start another one; so the exchange uses a transport whose own
  key exchange, \<open>no_kex\<close>, is a fault.  \<open>b\<close> is the build and \<open>xk\<close> the \<open>exchange_keys\<close> functions.
\<close>

definition no_kex :: reader where
  "no_kex s = (LIBSSH2_ERROR_KEX_FAILURE, set_fault s)"

definition kex_send :: sender where
  "kex_send = ssh2_transport_send no_kex"

definition kex_read :: reader where
  "kex_read = ssh2_transport_read no_kex (ssh2_packet_add kex_send no_kex (libssh2_session_disconnect kex_send))"

text \<open>Waiting for the peer's KEXINIT, with the state in \<open>startup_key_state\<close>.\<close>

definition kex_require :: "session \<Rightarrow> rc \<times> bytes \<times> session" where
  "kex_require s =
     (case ssh2_packet_require kex_read (libssh2_session_disconnect kex_send) SSH_MSG_KEXINIT 0 []
             (ks_req_start (startup_key_state s)) s of
        (rc, start, data, s) \<Rightarrow>
          (rc, data, s\<lparr>startup_key_state := (startup_key_state s)\<lparr>ks_req_start := start\<rparr>\<rparr>))"

type_synonym exchange = "kex_method \<Rightarrow> session \<Rightarrow> rc \<times> session"

definition rekey :: "build \<Rightarrow> exchange \<Rightarrow> reader" where
  "rekey b xk = ssh2_kex_exchange b no_kex kex_require xk True"

definition t_send :: "build \<Rightarrow> exchange \<Rightarrow> sender" where
  "t_send b xk = ssh2_transport_send (rekey b xk)"

definition t_disconnect :: "build \<Rightarrow> exchange \<Rightarrow> disconnector" where
  "t_disconnect b xk = libssh2_session_disconnect (t_send b xk)"

definition t_add :: "build \<Rightarrow> exchange \<Rightarrow> packet_handler" where
  "t_add b xk = ssh2_packet_add (t_send b xk) (rekey b xk) (t_disconnect b xk)"

definition t_read :: "build \<Rightarrow> exchange \<Rightarrow> reader" where
  "t_read b xk = ssh2_transport_read (rekey b xk) (t_add b xk)"

end
