(* ===== verification/Frame.thy ===== *)
theory Frame
  imports Stack
begin

text \<open>
  What the transport leaves alone.  An invariant of a session that depends only on its books (\<open>same_core\<close>) is
  kept by every step of sending and receiving; the key exchange and the packet handler, which do change the
  books, are assumptions of the locales here.
\<close>

subsection \<open>Operations that leave the books alone\<close>

text \<open>
  What counts as the books: channels, listeners, packets, openings in progress, the session's state bits
  and how far the handling of a packet is.  The script of allocations only gets shorter, and a fault is
  never taken back.
\<close>

definition same_core :: "session \<Rightarrow> session \<Rightarrow> bool" where
  "same_core s s' \<longleftrightarrow> channels s' = channels s \<and> listeners s' = listeners s \<and> packets s' = packets s \<and>
     packAdd_Qlstn_state s' = packAdd_Qlstn_state s \<and> packAdd_x11open_state s' = packAdd_x11open_state s \<and>
     packAdd_authagent_state s' = packAdd_authagent_state s \<and>
     st s' = st s \<and> packAdd_state s' = packAdd_state s \<and>
     set (allocs s') \<subseteq> set (allocs s) \<and> (fault s \<longrightarrow> fault s')"

lemma same_core_refl [simp, intro]: "same_core s s"
  by (simp add: same_core_def)

lemma same_core_trans [trans]: "same_core s s' \<Longrightarrow> same_core s' s'' \<Longrightarrow> same_core s s''"
  by (auto simp: same_core_def)

lemma has_st_upd [simp]:
  "has_st b (upd_tp f s) = has_st b s" "has_st b (upd_local g s) = has_st b s" "has_st b (upd_remote g s) = has_st b s"
  "has_st b (set_fault s) = has_st b s" "has_st b (c_assert P s) = has_st b s"
  by (auto simp: has_st_def upd_defs set_fault_def c_assert_def)

lemma send_core: "ssh2_send d s = (r, s') \<Longrightarrow> same_core s s'"
  by (auto simp: ssh2_send_def same_core_def split: list.splits send_event.splits)

lemma recv_core: "ssh2_recv n s = (r, d, s') \<Longrightarrow> same_core s s'"
  by (auto simp: ssh2_recv_def same_core_def split: list.splits recv_event.splits)

lemma random_core: "ssh2_random n s = (r, s') \<Longrightarrow> same_core s s'"
  by (auto simp: ssh2_random_def same_core_def split: list.splits)

lemma alloc_core: "ssh2_alloc s = (r, s') \<Longrightarrow> same_core s s'"
  by (auto simp: ssh2_alloc_def same_core_def split: list.splits)

lemma now_core: "ssh2_now s = (r, s') \<Longrightarrow> same_core s s'"
  by (auto simp: ssh2_now_def same_core_def split: list.splits)

text \<open>Updates outside the core.\<close>

lemma same_core_upd [simp]:
  "same_core s (upd_tp f s') = same_core s s'" "same_core s (upd_local g s') = same_core s s'"
  "same_core s (upd_remote g s') = same_core s s'" "same_core s (block_in s') = same_core s s'"
  "same_core s (block_out s') = same_core s s'" "same_core s (s'\<lparr>err_code := e\<rparr>) = same_core s s'"
  "same_core s (s'\<lparr>block_directions := bd\<rparr>) = same_core s s'"
  "same_core s (s'\<lparr>fullpacket_state := fs\<rparr>) = same_core s s'"
  "same_core s (s'\<lparr>fullpacket_macstate := fm\<rparr>) = same_core s s'"
  "same_core s (s'\<lparr>fullpacket_payload_len := fl\<rparr>) = same_core s s'"
  "same_core s (s'\<lparr>fullpacket_packet_type := ft\<rparr>) = same_core s s'"
  "same_core s (s'\<lparr>fullpacket_required_type := fr\<rparr>) = same_core s s'"
  "same_core s (s'\<lparr>readPack_state := rs\<rparr>) = same_core s s'"
  "same_core s (s'\<lparr>readPack_encrypted := re\<rparr>) = same_core s s'"
  "same_core s (s'\<lparr>startup_key_state := kst8\<rparr>) = same_core s s'"
  "same_core s (s'\<lparr>kex_strict := kst\<rparr>) = same_core s s'"
  "same_core s (s'\<lparr>socket_st := sst\<rparr>) = same_core s s'"
  "same_core s (s'\<lparr>packAdd_channelp := pc\<rparr>) = same_core s s'"
  "same_core s (s'\<lparr>server_sign_algorithms := ssa\<rparr>) = same_core s s'"
  by (auto simp: same_core_def upd_defs block_in_def block_out_def)

lemma same_core_upd_left [simp]:
  "same_core (upd_tp f s) s' = same_core s s'" "same_core (upd_local g s) s' = same_core s s'"
  "same_core (upd_remote g s) s' = same_core s s'"
  "same_core (s\<lparr>block_directions := bd\<rparr>) s' = same_core s s'" "same_core (s\<lparr>err_code := e\<rparr>) s' = same_core s s'"
  "same_core (s\<lparr>fullpacket_required_type := fr\<rparr>) s' = same_core s s'"
  "same_core (block_in s) s' = same_core s s'"
  "same_core (s\<lparr>fullpacket_state := fs\<rparr>) s' = same_core s s'"
  "same_core (s\<lparr>fullpacket_macstate := fm\<rparr>) s' = same_core s s'"
  "same_core (s\<lparr>fullpacket_payload_len := fl\<rparr>) s' = same_core s s'"
  "same_core (s\<lparr>fullpacket_packet_type := ft\<rparr>) s' = same_core s s'"
  "same_core (s\<lparr>readPack_state := rs\<rparr>) s' = same_core s s'"
  "same_core (s\<lparr>readPack_encrypted := re\<rparr>) s' = same_core s s'"
  "same_core (s\<lparr>startup_key_state := kst8\<rparr>) s' = same_core s s'"
  "same_core (s\<lparr>kex_strict := kst\<rparr>) s' = same_core s s'"
  "same_core (s\<lparr>socket_st := sst\<rparr>) s' = same_core s s'"
  "same_core (s\<lparr>packAdd_channelp := pc\<rparr>) s' = same_core s s'"
  "same_core (s\<lparr>server_sign_algorithms := ssa\<rparr>) s' = same_core s s'"
  by (auto simp: same_core_def upd_defs block_in_def)

lemma same_core_more [simp]:
  "same_core s (s'\<lparr>keepalive_last_sent := x0\<rparr>) = same_core s s'" "same_core s (s'\<lparr>keepalive_interval := x1\<rparr>) = same_core s s'"
  "same_core s (s'\<lparr>keepalive_want_reply := x2\<rparr>) = same_core s s'" "same_core s (s'\<lparr>polls := x3\<rparr>) = same_core s s'"
  "same_core s (s'\<lparr>open_state := x4\<rparr>) = same_core s s'" "same_core s (s'\<lparr>open_channel := x5\<rparr>) = same_core s s'"
  "same_core s (s'\<lparr>open_packet := x6\<rparr>) = same_core s s'" "same_core s (s'\<lparr>open_data := x7\<rparr>) = same_core s s'"
  "same_core s (s'\<lparr>open_local_channel := x8\<rparr>) = same_core s s'" "same_core s (s'\<lparr>open_requirev_start := x9\<rparr>) = same_core s s'"
  "same_core s (s'\<lparr>disconnect_state := x10\<rparr>) = same_core s s'" "same_core s (s'\<lparr>disconnect_data := x11\<rparr>) = same_core s s'"
  "same_core s (s'\<lparr>kex := x12\<rparr>) = same_core s s'" "same_core s (s'\<lparr>hostkey := x13\<rparr>) = same_core s s'"
  "same_core s (s'\<lparr>next_channel := x14\<rparr>) = same_core s s'" "same_core s (s'\<lparr>burn_optimistic_kexinit := x15\<rparr>) = same_core s s'"
  "same_core s (s'\<lparr>kexinit_state := x16\<rparr>) = same_core s s'" "same_core s (s'\<lparr>kexinit_data := x17\<rparr>) = same_core s s'"
  "same_core s (s'\<lparr>local := x18\<rparr>) = same_core s s'" "same_core s (s'\<lparr>remote := x19\<rparr>) = same_core s s'"
  by (simp_all add: same_core_def)

lemma same_core_more_left [simp]:
  "same_core (s\<lparr>keepalive_last_sent := x0\<rparr>) s' = same_core s s'" "same_core (s\<lparr>keepalive_interval := x1\<rparr>) s' = same_core s s'"
  "same_core (s\<lparr>keepalive_want_reply := x2\<rparr>) s' = same_core s s'" "same_core (s\<lparr>polls := x3\<rparr>) s' = same_core s s'"
  "same_core (s\<lparr>open_state := x4\<rparr>) s' = same_core s s'" "same_core (s\<lparr>open_channel := x5\<rparr>) s' = same_core s s'"
  "same_core (s\<lparr>open_packet := x6\<rparr>) s' = same_core s s'" "same_core (s\<lparr>open_data := x7\<rparr>) s' = same_core s s'"
  "same_core (s\<lparr>open_local_channel := x8\<rparr>) s' = same_core s s'" "same_core (s\<lparr>open_requirev_start := x9\<rparr>) s' = same_core s s'"
  "same_core (s\<lparr>disconnect_state := x10\<rparr>) s' = same_core s s'" "same_core (s\<lparr>disconnect_data := x11\<rparr>) s' = same_core s s'"
  "same_core (s\<lparr>kex := x12\<rparr>) s' = same_core s s'" "same_core (s\<lparr>hostkey := x13\<rparr>) s' = same_core s s'"
  "same_core (s\<lparr>next_channel := x14\<rparr>) s' = same_core s s'" "same_core (s\<lparr>burn_optimistic_kexinit := x15\<rparr>) s' = same_core s s'"
  "same_core (s\<lparr>kexinit_state := x16\<rparr>) s' = same_core s s'" "same_core (s\<lparr>kexinit_data := x17\<rparr>) s' = same_core s s'"
  "same_core (s\<lparr>local := x18\<rparr>) s' = same_core s s'" "same_core (s\<lparr>remote := x19\<rparr>) s' = same_core s s'"
  by (simp_all add: same_core_def)

lemma same_core_keys [simp]:
  "same_core s (s'\<lparr>session_id := y0\<rparr>) = same_core s s'"
  "same_core s (s'\<lparr>server_hostkey := y1\<rparr>) = same_core s s'"
  "same_core s (s'\<lparr>server_hostkey_md5 := y2\<rparr>) = same_core s s'"
  "same_core s (s'\<lparr>server_hostkey_sha1 := y3\<rparr>) = same_core s s'"
  "same_core s (s'\<lparr>server_hostkey_sha256 := y4\<rparr>) = same_core s s'"
  "same_core s (s'\<lparr>server_hostkey_abstract := y5\<rparr>) = same_core s s'"
  "same_core s (s'\<lparr>banner_TxRx_state := y6\<rparr>) = same_core s s'"
  "same_core s (s'\<lparr>banner_TxRx_banner := y7\<rparr>) = same_core s s'"
  "same_core s (s'\<lparr>banner_TxRx_total_send := y8\<rparr>) = same_core s s'"
  "same_core s (s'\<lparr>startup_state := y9\<rparr>) = same_core s s'"
  "same_core s (s'\<lparr>startup_service := y10\<rparr>) = same_core s s'"
  "same_core s (s'\<lparr>startup_req_start := y11\<rparr>) = same_core s s'"
  by (simp_all add: same_core_def)

lemma same_core_keys_left [simp]:
  "same_core (s\<lparr>session_id := y0\<rparr>) s' = same_core s s'"
  "same_core (s\<lparr>server_hostkey := y1\<rparr>) s' = same_core s s'"
  "same_core (s\<lparr>server_hostkey_md5 := y2\<rparr>) s' = same_core s s'"
  "same_core (s\<lparr>server_hostkey_sha1 := y3\<rparr>) s' = same_core s s'"
  "same_core (s\<lparr>server_hostkey_sha256 := y4\<rparr>) s' = same_core s s'"
  "same_core (s\<lparr>server_hostkey_abstract := y5\<rparr>) s' = same_core s s'"
  "same_core (s\<lparr>banner_TxRx_state := y6\<rparr>) s' = same_core s s'"
  "same_core (s\<lparr>banner_TxRx_banner := y7\<rparr>) s' = same_core s s'"
  "same_core (s\<lparr>banner_TxRx_total_send := y8\<rparr>) s' = same_core s s'"
  "same_core (s\<lparr>startup_state := y9\<rparr>) s' = same_core s s'"
  "same_core (s\<lparr>startup_service := y10\<rparr>) s' = same_core s s'"
  "same_core (s\<lparr>startup_req_start := y11\<rparr>) s' = same_core s s'"
  by (simp_all add: same_core_def)

lemma same_core_faults_left [dest]:
  "same_core (set_fault s) s' \<Longrightarrow> same_core s s'" "same_core (c_assert P s) s' \<Longrightarrow> same_core s s'"
  by (auto simp: same_core_def set_fault_def c_assert_def split: if_splits)

lemma same_core_faults [simp]:
  "same_core s s' \<Longrightarrow> same_core s (set_fault s')" "same_core s s' \<Longrightarrow> same_core s (c_assert P s')"
  by (auto simp: same_core_def set_fault_def c_assert_def)

lemma same_core_err: "ssh2_err e s = (r, s') \<Longrightarrow> same_core s s'"
  by (auto simp: ssh2_err_def)

lemma same_core_note [simp]: "same_core s (note_err e s') = same_core s s'"
  by (simp add: note_err_def)

subsection \<open>The transport\<close>

lemma send_existing_core: "transport_send_existing p n s = (r, t, s') \<Longrightarrow> same_core s s'"
  by (auto simp: transport_send_existing_def Let_def split: if_splits prod.splits dest!: send_core)

lemma send_payload_core: "send_payload e d d2 s = (r, p, s') \<Longrightarrow> same_core s s'"
  by (auto simp: send_payload_def Let_def split: if_splits prod.splits option.splits)

lemma send_frame_core: "send_frame p n s = (r, s') \<Longrightarrow> same_core s s'"
  by (auto simp: send_frame_def Let_def ssh2_err_def split: if_splits prod.splits option.splits dest!: random_core)

lemma send_mac_core: "send_mac m n s = (r, s') \<Longrightarrow> same_core s s'"
  by (auto simp: send_mac_def Let_def ssh2_err_def split: if_splits prod.splits)

lemma set_crypt_core [simp]: "same_core s (set_crypt_result buf a s') = same_core s s'"
  by (simp add: set_crypt_result_def)

lemma send_encrypt_core: "send_encrypt m e h n t s = (r, s') \<Longrightarrow> same_core s s'"
  by (auto simp: send_encrypt_def Let_def split: if_splits prod.splits)

lemma send_mac_if_core: "send_mac_if b h n s = (r, s') \<Longrightarrow> same_core s s'"
  by (auto simp: send_mac_if_def split: if_splits option.splits dest: send_mac_core)

lemma send_protect_core: "send_protect m e h n t s = (r, s') \<Longrightarrow> same_core s s'"
  by (auto simp: send_protect_def Let_def split: if_splits prod.splits
      dest!: send_mac_if_core send_encrypt_core intro: same_core_trans)

lemma send_out_core: "send_out p d n s = (r, s') \<Longrightarrow> same_core s s'"
  by (auto simp: send_out_def Let_def split: if_splits prod.splits dest!: send_core)

lemma send_new_core: "transport_send_new bs p d d2 s = (r, s') \<Longrightarrow> same_core s s'"
  unfolding transport_send_new_def Let_def
  by (auto split: if_splits prod.splits option.splits
      dest!: send_payload_core send_frame_core send_protect_core send_out_core intro: same_core_trans)

subsection \<open>Rules for the shapes of definitions\<close>

text \<open>
  The state is the last component of a call's result, and a pattern binds it together with the fact \<open>P\<close> that
  holds of it.
\<close>

lemma bind22: "P (snd (e)) \<Longrightarrow> (\<And>r t. P t \<Longrightarrow> R (snd (f r t))) \<Longrightarrow>
    R (snd (case e of (r, t) \<Rightarrow> f r t))"
  by (cases e) auto

lemma bind23: "P (snd (snd (e))) \<Longrightarrow> (\<And>r q t. P t \<Longrightarrow> R (snd (f r q t))) \<Longrightarrow>
    R (snd (case e of (r, q, t) \<Rightarrow> f r q t))"
  by (cases e) auto

lemma bind24: "P (snd (snd (snd (e)))) \<Longrightarrow> (\<And>r q u t. P t \<Longrightarrow> R (snd (f r q u t))) \<Longrightarrow>
    R (snd (case e of (r, q, u, t) \<Rightarrow> f r q u t))"
  by (cases e) auto

lemma if2: "(C \<Longrightarrow> R (snd (a))) \<Longrightarrow> (\<not> C \<Longrightarrow> R (snd (b))) \<Longrightarrow> R (snd (if C then a else b))"
  by auto

lemma ret2: "R s \<Longrightarrow> R (snd ((r, s)))" by simp

lemma option2: "R (snd (a)) \<Longrightarrow> (\<And>x. R (snd (b x))) \<Longrightarrow> R (snd (case o1 of None \<Rightarrow> a | Some x \<Rightarrow> b x))"
  by (cases o1) auto

lemma list2: "R (snd (a)) \<Longrightarrow> (\<And>x xs. R (snd (b x xs))) \<Longrightarrow> R (snd (case l of [] \<Rightarrow> a | x # xs \<Rightarrow> b x xs))"
  by (cases l) auto

lemma bytes2: "(\<And>r (q :: bytes) (u :: bytes). R (snd (f r q u))) \<Longrightarrow> R (snd (case e of (r, q, u) \<Rightarrow> f r q u))"
  by (cases e) auto

lemma bind32: "P (snd (e)) \<Longrightarrow> (\<And>r t. P t \<Longrightarrow> R (snd (snd (f r t)))) \<Longrightarrow>
    R (snd (snd (case e of (r, t) \<Rightarrow> f r t)))"
  by (cases e) auto

lemma bind33: "P (snd (snd (e))) \<Longrightarrow> (\<And>r q t. P t \<Longrightarrow> R (snd (snd (f r q t)))) \<Longrightarrow>
    R (snd (snd (case e of (r, q, t) \<Rightarrow> f r q t)))"
  by (cases e) auto

lemma bind34: "P (snd (snd (snd (e)))) \<Longrightarrow> (\<And>r q u t. P t \<Longrightarrow> R (snd (snd (f r q u t)))) \<Longrightarrow>
    R (snd (snd (case e of (r, q, u, t) \<Rightarrow> f r q u t)))"
  by (cases e) auto

lemma if3: "(C \<Longrightarrow> R (snd (snd (a)))) \<Longrightarrow> (\<not> C \<Longrightarrow> R (snd (snd (b)))) \<Longrightarrow> R (snd (snd (if C then a else b)))"
  by auto

lemma ret3: "R s \<Longrightarrow> R (snd (snd ((r, q, s))))" by simp

lemma option3: "R (snd (snd (a))) \<Longrightarrow> (\<And>x. R (snd (snd (b x)))) \<Longrightarrow> R (snd (snd (case o1 of None \<Rightarrow> a | Some x \<Rightarrow> b x)))"
  by (cases o1) auto

lemma list3: "R (snd (snd (a))) \<Longrightarrow> (\<And>x xs. R (snd (snd (b x xs)))) \<Longrightarrow> R (snd (snd (case l of [] \<Rightarrow> a | x # xs \<Rightarrow> b x xs)))"
  by (cases l) auto

lemma bytes3: "(\<And>r (q :: bytes) (u :: bytes). R (snd (snd (f r q u)))) \<Longrightarrow> R (snd (snd (case e of (r, q, u) \<Rightarrow> f r q u)))"
  by (cases e) auto

lemma bind42: "P (snd (e)) \<Longrightarrow> (\<And>r t. P t \<Longrightarrow> R (snd (snd (snd (f r t))))) \<Longrightarrow>
    R (snd (snd (snd (case e of (r, t) \<Rightarrow> f r t))))"
  by (cases e) auto

lemma bind43: "P (snd (snd (e))) \<Longrightarrow> (\<And>r q t. P t \<Longrightarrow> R (snd (snd (snd (f r q t))))) \<Longrightarrow>
    R (snd (snd (snd (case e of (r, q, t) \<Rightarrow> f r q t))))"
  by (cases e) auto

lemma bind44: "P (snd (snd (snd (e)))) \<Longrightarrow> (\<And>r q u t. P t \<Longrightarrow> R (snd (snd (snd (f r q u t))))) \<Longrightarrow>
    R (snd (snd (snd (case e of (r, q, u, t) \<Rightarrow> f r q u t))))"
  by (cases e) auto

lemma if4: "(C \<Longrightarrow> R (snd (snd (snd (a))))) \<Longrightarrow> (\<not> C \<Longrightarrow> R (snd (snd (snd (b))))) \<Longrightarrow> R (snd (snd (snd (if C then a else b))))"
  by auto

lemma ret4: "R s \<Longrightarrow> R (snd (snd (snd ((r, q, u, s)))))" by simp

lemma option4: "R (snd (snd (snd (a)))) \<Longrightarrow> (\<And>x. R (snd (snd (snd (b x))))) \<Longrightarrow> R (snd (snd (snd (case o1 of None \<Rightarrow> a | Some x \<Rightarrow> b x))))"
  by (cases o1) auto

lemma list4: "R (snd (snd (snd (a)))) \<Longrightarrow> (\<And>x xs. R (snd (snd (snd (b x xs))))) \<Longrightarrow> R (snd (snd (snd (case l of [] \<Rightarrow> a | x # xs \<Rightarrow> b x xs))))"
  by (cases l) auto

lemma bytes4: "(\<And>r (q :: bytes) (u :: bytes). R (snd (snd (snd (f r q u))))) \<Longrightarrow> R (snd (snd (snd (case e of (r, q, u) \<Rightarrow> f r q u))))"
  by (cases e) auto

text \<open>The same for a result whose first component says whether there is a return value.\<close>

lemma stop22: "P (snd (e)) \<Longrightarrow> (\<And>t. P t \<Longrightarrow> R (snd (a t))) \<Longrightarrow>
    (\<And>x t. P t \<Longrightarrow> R (snd (b x t))) \<Longrightarrow>
    R (snd (case e of (None, t) \<Rightarrow> a t | (Some x, t) \<Rightarrow> b x t))"
  by (cases e; cases "fst e") auto

lemma stop23: "P (snd (snd (e))) \<Longrightarrow> (\<And>q t. P t \<Longrightarrow> R (snd (a q t))) \<Longrightarrow>
    (\<And>x q t. P t \<Longrightarrow> R (snd (b x q t))) \<Longrightarrow>
    R (snd (case e of (None, q, t) \<Rightarrow> a q t | (Some x, q, t) \<Rightarrow> b x q t))"
  by (cases e; cases "fst e") auto

lemma stop24: "P (snd (snd (snd (e)))) \<Longrightarrow> (\<And>q u t. P t \<Longrightarrow> R (snd (a q u t))) \<Longrightarrow>
    (\<And>x q u t. P t \<Longrightarrow> R (snd (b x q u t))) \<Longrightarrow>
    R (snd (case e of (None, q, u, t) \<Rightarrow> a q u t | (Some x, q, u, t) \<Rightarrow> b x q u t))"
  by (cases e; cases "fst e") auto

lemma stop32: "P (snd (e)) \<Longrightarrow> (\<And>t. P t \<Longrightarrow> R (snd (snd (a t)))) \<Longrightarrow>
    (\<And>x t. P t \<Longrightarrow> R (snd (snd (b x t)))) \<Longrightarrow>
    R (snd (snd (case e of (None, t) \<Rightarrow> a t | (Some x, t) \<Rightarrow> b x t)))"
  by (cases e; cases "fst e") auto

lemma stop33: "P (snd (snd (e))) \<Longrightarrow> (\<And>q t. P t \<Longrightarrow> R (snd (snd (a q t)))) \<Longrightarrow>
    (\<And>x q t. P t \<Longrightarrow> R (snd (snd (b x q t)))) \<Longrightarrow>
    R (snd (snd (case e of (None, q, t) \<Rightarrow> a q t | (Some x, q, t) \<Rightarrow> b x q t)))"
  by (cases e; cases "fst e") auto

lemma stop34: "P (snd (snd (snd (e)))) \<Longrightarrow> (\<And>q u t. P t \<Longrightarrow> R (snd (snd (a q u t)))) \<Longrightarrow>
    (\<And>x q u t. P t \<Longrightarrow> R (snd (snd (b x q u t)))) \<Longrightarrow>
    R (snd (snd (case e of (None, q, u, t) \<Rightarrow> a q u t | (Some x, q, u, t) \<Rightarrow> b x q u t)))"
  by (cases e; cases "fst e") auto

lemmas binds = bind22 bind23 bind24 bind32 bind33 bind34 bind42 bind43 bind44
lemmas shapes = if2 ret2 option2 list2 bytes2 if3 ret3 option3 list3 bytes3 if4 ret4 option4 list4 bytes4
lemmas stops = stop22 stop23 stop24 stop32 stop33 stop34

text \<open>The same with a condition on the whole result.\<close>

lemma all_bind2: "P (snd (e)) \<Longrightarrow> (\<And>r t. P t \<Longrightarrow> W (f r t)) \<Longrightarrow> W (case e of (r, t) \<Rightarrow> f r t)"
  by (cases e) auto

lemma all_bind3: "P (snd (snd (e))) \<Longrightarrow> (\<And>r q t. P t \<Longrightarrow> W (f r q t)) \<Longrightarrow> W (case e of (r, q, t) \<Rightarrow> f r q t)"
  by (cases e) auto

lemma all_stop2: "P (snd (e)) \<Longrightarrow> (\<And>t. P t \<Longrightarrow> W (a t)) \<Longrightarrow> (\<And>x t. P t \<Longrightarrow> W (b x t)) \<Longrightarrow>
    W (case e of (None, t) \<Rightarrow> a t | (Some x, t) \<Rightarrow> b x t)"
  by (cases e; cases "fst e") auto

lemma all_stop3: "P (snd (snd (e))) \<Longrightarrow> (\<And>q t. P t \<Longrightarrow> W (a q t)) \<Longrightarrow> (\<And>x q t. P t \<Longrightarrow> W (b x q t)) \<Longrightarrow>
    W (case e of (None, q, t) \<Rightarrow> a q t | (Some x, q, t) \<Rightarrow> b x q t)"
  by (cases e; cases "fst e") auto

lemma all_stop4: "P (snd (snd (snd (e)))) \<Longrightarrow> (\<And>q u t. P t \<Longrightarrow> W (a q u t)) \<Longrightarrow> (\<And>x q u t. P t \<Longrightarrow> W (b x q u t)) \<Longrightarrow>
    W (case e of (None, q, u, t) \<Rightarrow> a q u t | (Some x, q, u, t) \<Rightarrow> b x q u t)"
  by (cases e; cases "fst e") auto

lemma all_if: "(C \<Longrightarrow> W a) \<Longrightarrow> (\<not> C \<Longrightarrow> W b) \<Longrightarrow> W (if C then a else b)"
  by auto

lemmas all_binds = all_bind2 all_bind3 all_stop2 all_stop3 all_stop4

subsection \<open>Invariants of the books\<close>

locale framed =
  fixes I :: "session \<Rightarrow> bool"
  assumes core: "same_core s s' \<Longrightarrow> I s \<Longrightarrow> I s'"
begin

lemma I_iff: "same_core s s' \<Longrightarrow> same_core s' s \<Longrightarrow> I s' = I s"
  using core by blast

lemma I_upd [simp]:
  "I (s\<lparr>block_directions := bd\<rparr>) = I s" "I (s\<lparr>err_code := e\<rparr>) = I s"
  "I (upd_tp f s) = I s" "I (upd_local g s) = I s" "I (upd_remote h s) = I s"
  "I (s\<lparr>fullpacket_state := fs\<rparr>) = I s"
  "I (s\<lparr>packAdd_channelp := pc\<rparr>) = I s" "I (s\<lparr>fullpacket_required_type := fr\<rparr>) = I s"
  "I (s\<lparr>readPack_state := rs\<rparr>) = I s" "I (s\<lparr>readPack_encrypted := re\<rparr>) = I s"
  "I (s\<lparr>startup_key_state := kst8\<rparr>) = I s" "I (s\<lparr>server_sign_algorithms := ssa\<rparr>) = I s"
  "I (s\<lparr>socket_st := sst\<rparr>) = I s" "I (s\<lparr>fullpacket_macstate := fm\<rparr>) = I s"
  "I (s\<lparr>fullpacket_payload_len := fl\<rparr>) = I s" "I (s\<lparr>fullpacket_packet_type := ft\<rparr>) = I s"
  "I (s\<lparr>kex_strict := kst\<rparr>) = I s" "I (block_in s) = I s"
  by (rule I_iff; simp)+

lemma I_more [simp]:
  "I (s\<lparr>keepalive_last_sent := x0\<rparr>) = I s" "I (s\<lparr>keepalive_interval := x1\<rparr>) = I s"
  "I (s\<lparr>keepalive_want_reply := x2\<rparr>) = I s" "I (s\<lparr>polls := x3\<rparr>) = I s"
  "I (s\<lparr>open_state := x4\<rparr>) = I s" "I (s\<lparr>open_channel := x5\<rparr>) = I s"
  "I (s\<lparr>open_packet := x6\<rparr>) = I s" "I (s\<lparr>open_data := x7\<rparr>) = I s"
  "I (s\<lparr>open_local_channel := x8\<rparr>) = I s" "I (s\<lparr>open_requirev_start := x9\<rparr>) = I s"
  "I (s\<lparr>disconnect_state := x10\<rparr>) = I s" "I (s\<lparr>disconnect_data := x11\<rparr>) = I s"
  "I (s\<lparr>kex := x12\<rparr>) = I s" "I (s\<lparr>hostkey := x13\<rparr>) = I s"
  "I (s\<lparr>next_channel := x14\<rparr>) = I s" "I (s\<lparr>burn_optimistic_kexinit := x15\<rparr>) = I s"
  "I (s\<lparr>kexinit_state := x16\<rparr>) = I s" "I (s\<lparr>kexinit_data := x17\<rparr>) = I s"
  "I (s\<lparr>local := x18\<rparr>) = I s" "I (s\<lparr>remote := x19\<rparr>) = I s"
  by (rule I_iff; simp)+

lemma I_keys [simp]:
  "I (s\<lparr>session_id := y0\<rparr>) = I s"
  "I (s\<lparr>server_hostkey := y1\<rparr>) = I s"
  "I (s\<lparr>server_hostkey_md5 := y2\<rparr>) = I s"
  "I (s\<lparr>server_hostkey_sha1 := y3\<rparr>) = I s"
  "I (s\<lparr>server_hostkey_sha256 := y4\<rparr>) = I s"
  "I (s\<lparr>server_hostkey_abstract := y5\<rparr>) = I s"
  "I (s\<lparr>banner_TxRx_state := y6\<rparr>) = I s"
  "I (s\<lparr>banner_TxRx_banner := y7\<rparr>) = I s"
  "I (s\<lparr>banner_TxRx_total_send := y8\<rparr>) = I s"
  "I (s\<lparr>startup_state := y9\<rparr>) = I s"
  "I (s\<lparr>startup_service := y10\<rparr>) = I s"
  "I (s\<lparr>startup_req_start := y11\<rparr>) = I s"
  by (rule I_iff; simp)+

lemma I_note [simp]: "I (note_err e s) = I s"
  by (simp add: note_err_def)

lemma I_fault [simp]: "I s \<Longrightarrow> I (set_fault s)" "I s \<Longrightarrow> I (c_assert P s)"
  by (erule core [rotated], simp)+

lemma I_err [simp]: "I (snd (ssh2_err e s)) = I s"
  by (simp add: ssh2_err_def)

lemmas I_intros = binds [where P = I and R = I] shapes [where R = I]
lemmas I_stops = stops [where P = I and R = I]

lemma send_existing_I: "I s \<Longrightarrow> I (snd (snd (transport_send_existing p n s)))"
  by (cases "transport_send_existing p n s") (auto dest: send_existing_core core)

lemma send_new_I: "I s \<Longrightarrow> I (snd (transport_send_new bs p d d2 s))"
  by (cases "transport_send_new bs p d d2 s") (auto dest: send_new_core core)

lemma alloc_I: "I s \<Longrightarrow> I (snd (ssh2_alloc s))"
  by (cases "ssh2_alloc s") (auto dest: alloc_core core)

lemma now_I: "I s \<Longrightarrow> I (snd (ssh2_now s))"
  by (cases "ssh2_now s") (auto dest: now_core core)

lemma recv_I: "I s \<Longrightarrow> I (snd (snd (ssh2_recv n s)))"
  by (cases "ssh2_recv n s") (auto dest: recv_core core)

lemma transport_decrypt_I: "I s \<Longrightarrow> I (snd (snd (snd (transport_decrypt src off n fl s))))"
  by (auto simp: transport_decrypt_def Let_def split: option.splits prod.splits)

lemma free_payload_I [simp]: "I (free_payload s) = I s"
  by (simp add: free_payload_def)

lemma etm_decrypt_I: "I s \<Longrightarrow> I (snd (fullpacket_etm_decrypt rm s))"
  unfolding fullpacket_etm_decrypt_def Let_def
  by (intro I_intros transport_decrypt_I alloc_I) simp_all

lemma fullpacket_mac_I: "I s \<Longrightarrow> I (snd (fullpacket_mac rm s))"
  unfolding fullpacket_mac_def Let_def by (intro I_intros etm_decrypt_I) simp_all

lemma fullpacket_auth_I: "I s \<Longrightarrow> I (snd (fullpacket_auth e s))"
  by (auto simp: fullpacket_auth_def Let_def fullpacket_mac_I split: option.splits bool.splits)

lemma fullpacket_decomp_I: "I s \<Longrightarrow> I (snd (fullpacket_decomp s))"
  unfolding fullpacket_decomp_def Let_def by (intro I_intros) simp_all

lemma fullpacket_prepare_I: "I s \<Longrightarrow> I (snd (fullpacket_prepare e s))"
  unfolding fullpacket_prepare_def Let_def
  by (intro I_intros fullpacket_auth_I fullpacket_decomp_I) (simp_all add: fullpacket_count_def)

lemma refill_I: "I s \<Longrightarrow> I (snd (read_refill n s))"
  unfolding read_refill_def Let_def by (intro I_intros recv_I) simp_all

lemma first_block_I: "I s \<Longrightarrow> I (snd (snd (read_first_block n v s)))"
  unfolding read_first_block_def Let_def bad_read_def
  by (intro I_intros transport_decrypt_I) (auto split: prod.splits)

lemma read_total_I: "I s \<Longrightarrow> I (snd (snd (read_total v b s)))"
  unfolding read_total_def Let_def bad_read_def by (intro I_intros) simp_all

lemma read_alloc_I: "I s \<Longrightarrow> I (snd (snd (read_alloc n v b t k s)))"
  unfolding read_alloc_def Let_def bad_read_def by (intro I_intros alloc_I) simp_all

lemma total_alloc_I: "I s \<Longrightarrow> I (snd (snd (case read_total v b s of
      (None, [t], s) \<Rightarrow> read_alloc n v b t k s | (rc, _, s) \<Rightarrow> (rc, [], s))))"
  using read_total_I [of s v b]
  by (cases "read_total v b s" rule: prod_cases3) (auto simp: read_alloc_I split: option.split list.split)

lemma read_header_I: "I s \<Longrightarrow> I (snd (snd (read_header n v k s)))"
  unfolding read_header_def bad_read_def
  by (intro I_stops if3 [where R = I] ret3 [where R = I] first_block_I total_alloc_I) simp_all

lemma read_amounts_I: "I s \<Longrightarrow> I (snd (snd (snd (read_amounts n v k s))))"
  unfolding read_amounts_def Let_def by (auto split: prod.splits if_splits)

lemma payload_put_I [simp]: "I s \<Longrightarrow> I (payload_put bs s)"
  by (simp add: payload_put_def split: option.split)

lemma read_advance_I [simp]: "I (read_advance n s) = I s"
  by (simp add: read_advance_def)

lemma read_decrypt_I: "I s \<Longrightarrow> I (snd (snd (read_decrypt v k n s)))"
  unfolding read_decrypt_def Let_def bad_read_def
  by (intro I_intros transport_decrypt_I) simp_all

lemma read_copy_I: "I s \<Longrightarrow> I (snd (read_copy k s))"
  unfolding read_copy_def by (intro I_intros) simp_all

lemma read_consume_I: "I s \<Longrightarrow> I (snd (read_consume v k n s))"
  using read_decrypt_I [of s v k "nat n"]
  by (cases "read_decrypt v k (nat n) s" rule: prod_cases3)
     (auto simp: read_consume_def read_copy_I split: option.split list.split)

lemma read_setup_I: "I s \<Longrightarrow> I (snd (snd (read_setup v s)))"
  by (auto simp: read_setup_def Let_def split: option.splits)

end

subsection \<open>Waiting for the socket\<close>

locale blocking = framed I for I :: "session \<Rightarrow> bool" +
  fixes tsend :: sender
  assumes tsend_keeps: "I s \<Longrightarrow> I (snd (tsend p d d2 s))"
begin

lemma keepalive_I: "I s \<Longrightarrow> I (snd (snd (libssh2_keepalive_send tsend s)))"
  unfolding libssh2_keepalive_send_def Let_def
  by (intro I_intros now_I tsend_keeps) simp_all

lemma poll_I: "I s \<Longrightarrow> I (snd (sys_poll s))"
  by (simp add: sys_poll_def split: list.split)

lemma elapsed_I: "I s \<Longrightarrow> I (snd (elapsed_since t s))"
  unfolding elapsed_since_def by (intro I_intros now_I) simp_all

lemma polled_I: "I s \<Longrightarrow> I (snd (wait_polled t a dir s))"
  unfolding wait_polled_def by (intro I_intros poll_I elapsed_I) simp_all

lemma wait_socket_I: "I s \<Longrightarrow> I (snd (ssh2_wait_socket tsend t s))"
  unfolding ssh2_wait_socket_def Let_def
  by (intro I_intros keepalive_I elapsed_I polled_I) simp_all

lemma block_loop_I:
  assumes x: "\<And>s. I s \<Longrightarrow> I (snd (snd (x s)))"
  shows "I s \<Longrightarrow> I (snd (snd (block_loop tsend t n x s)))"
proof (induction n arbitrary: s)
  case (Suc n)
  show ?case
    unfolding block_loop.simps by (intro I_intros x wait_socket_I Suc.IH Suc.prems)
qed simp

lemma block_out_I: "(\<And>s. I s \<Longrightarrow> I (snd (snd (x s)))) \<Longrightarrow> I s \<Longrightarrow> I (snd (snd (block_adjust_out tsend x s)))"
  unfolding block_adjust_out_def by (intro I_intros now_I block_loop_I) simp_all

lemma block_I: "(\<And>s. I s \<Longrightarrow> I (snd (x s))) \<Longrightarrow> I s \<Longrightarrow> I (snd (block_adjust tsend x s))"
  unfolding block_adjust_def by (intro I_intros block_out_I) simp_all

lemma session_disconnect_I: "I s \<Longrightarrow> I (snd (session_disconnect tsend r d l s))"
  unfolding session_disconnect_def Let_def by (intro I_intros tsend_keeps) simp_all

end

end
