(* ===== verification/ChanInv.thy ===== *)
theory ChanInv
  imports Frame "HOL-Library.Multiset"
begin

text \<open>
  The bookkeeping of channels and of the packet queue: the invariant, and that every operation on packets and
  channels keeps it.
\<close>

unbundle bit_operations_syntax

subsection \<open>The invariant\<close>

text \<open>The bytes that are queued for a channel.\<close>

definition qbytes :: "u32 \<Rightarrow> packet list \<Rightarrow> nat" where
  "qbytes i ps = (\<Sum>p\<leftarrow>filter (data_for i) ps. pkt_len p - pkt_head p)"

text \<open>A queued packet lies in its block; data belongs to a channel that exists and has its header.\<close>

definition packet_ok :: "u32 set \<Rightarrow> packet \<Rightarrow> bool" where
  "packet_ok ids p \<longleftrightarrow> pkt_head p \<le> pkt_len p \<and> pkt_len p \<le> length (pkt_data p) \<and>
     length (pkt_data p) < 2 ^ 64 \<and>
     (is_data p \<longrightarrow> pkt_channel p \<in> ids \<and>
        (if chr_at (pkt_data p) 0 = SSH_MSG_CHANNEL_EXTENDED_DATA then 13 else 9) \<le> pkt_len p)"

definition channel_ok :: "packet list \<Rightarrow> channel \<Rightarrow> bool" where
  "channel_ok ps c \<longleftrightarrow> unat (read_avail c) = qbytes (ch_id c) ps \<and> unat (read_avail c) \<le> unat (rwin c)"

definition books_ok :: "channel list \<Rightarrow> channel list \<Rightarrow> packet list \<Rightarrow> bool" where
  "books_ok cs pend ps \<longleftrightarrow> distinct (map ch_id (cs @ pend)) \<and> (\<forall>c \<in> set (cs @ pend). channel_ok ps c) \<and>
     (\<forall>p \<in> set ps. packet_ok (ch_id ` set cs) p)"

definition chan_inv :: "session \<Rightarrow> bool" where
  "chan_inv s \<longleftrightarrow> books_ok (all_channels s) (pending_channels s) (packets s) \<and>
     qs_channel (packAdd_x11open_state s) = None"

text \<open>
  The X11 opening never stores its channel.

  After the initial key exchange, when no allocation fails, and as long as the program has kept within defined
  behaviour.  Between two calls \<open>packAdd_state\<close> is never \<open>NB_sent\<close>.
\<close>

definition J :: "session \<Rightarrow> bool" where
  "J s \<longleftrightarrow> fault s \<or> (\<not> has_st SSH2_STATE_INITIAL_KEX s \<and> False \<notin> set (allocs s) \<and> packAdd_state s \<noteq> NB_sent \<and>
     chan_inv s)"

text \<open>Sending and receiving would not be redirected into an interrupted key exchange.\<close>

definition calm :: "session \<Rightarrow> bool" where
  "calm s \<longleftrightarrow> \<not> (has_st SSH2_STATE_EXCHANGING_KEYS s \<and> \<not> has_st SSH2_STATE_KEX_ACTIVE s)"

definition K :: "session \<Rightarrow> bool" where
  "K s \<longleftrightarrow> J s \<and> calm s"

lemma same_core_J: "same_core s s' \<Longrightarrow> J s \<Longrightarrow> J s'"
  unfolding same_core_def J_def chan_inv_def all_channels_def pending_channels_def has_st_def by auto

lemma same_core_K: "same_core s s' \<Longrightarrow> K s \<Longrightarrow> K s'"
  using same_core_J [of s s'] unfolding K_def calm_def has_st_def by (auto simp: same_core_def)

interpretation J: framed J by unfold_locales (rule same_core_J)
interpretation K: framed K by unfold_locales (rule same_core_K)

lemma K_J: "K s \<Longrightarrow> J s" by (simp add: K_def)

subsection \<open>The transport\<close>

lemmas KJ_intros = binds [where P = K and R = J] shapes [where R = J]
lemmas KJ_stops = stops [where P = K and R = J]

text \<open>The key exchange and the packet handler keep the books; a finished exchange leaves a calm session.\<close>

locale transport_clients =
  fixes kx :: reader and padd :: packet_handler
  assumes kx_keeps: "J s \<Longrightarrow> J (snd (kx s))"
    and kx_calm: "kx s = (0, s') \<Longrightarrow> calm s'"
    and padd_keeps: "K s \<Longrightarrow> J (snd (padd data n macstate seq s))"
begin

lemma redirect_J: "J s \<Longrightarrow> J (snd (rekey_redirect kx s))"
  by (simp add: rekey_redirect_def kx_keeps)

lemma redirect_K: "J s \<Longrightarrow> rekey_redirect kx s = (0, s') \<Longrightarrow> K s'"
  using kx_keeps [of s] kx_calm [of s s'] by (auto simp: rekey_redirect_def K_def calm_def split: if_splits)

lemma send_keeps: "J s \<Longrightarrow> J (snd (ssh2_transport_send kx p d d2 s))"
  unfolding ssh2_transport_send_def Let_def
  by (intro J.I_intros J.send_existing_I redirect_J J.send_new_I) simp_all

lemma deliver_J: "K s \<Longrightarrow> J (snd (fullpacket_deliver padd seq s))"
  unfolding fullpacket_deliver_def Let_def by (intro J.I_intros padd_keeps) (simp_all add: K_J)

lemma fullpacket_J: "K s \<Longrightarrow> J (snd (transport_fullpacket padd e s))"
  unfolding transport_fullpacket_def Let_def
  by (intro KJ_intros if2 [where R = K] ret2 [where R = K] K.fullpacket_prepare_I deliver_J) (simp_all add: K_J)

lemma point1_J: "K s \<Longrightarrow> J (snd (read_point1 padd e s))"
  unfolding read_point1_def Let_def by (intro J.I_intros fullpacket_J) simp_all

definition iter_ok :: "(rc + read_vars) \<times> session \<Rightarrow> bool" where
  "iter_ok r \<longleftrightarrow> (case fst r of Inl _ \<Rightarrow> J (snd r) | Inr _ \<Rightarrow> K (snd r))"

lemma iter_ok_leaf: "K s \<Longrightarrow> iter_ok (r, s)"
  by (simp add: iter_ok_def K_J split: sum.split)

lemma iter_ok_point1: "K s \<Longrightarrow> iter_ok (case read_point1 padd e s of (rc, s) \<Rightarrow> (Inl rc, s))"
  using point1_J [of s e] by (cases "read_point1 padd e s") (simp add: iter_ok_def)

lemma iter_KJ: "K s \<Longrightarrow> iter_ok (read_iter padd v s)"
  unfolding read_iter_def Let_def
  by (intro iter_ok_point1 iter_ok_leaf all_binds [where P = K and W = iter_ok] all_if [where W = iter_ok]
      if3 [where R = K] ret3 [where R = K]
      K.read_setup_I K.refill_I K.read_header_I K.read_amounts_I K.read_consume_I) assumption+

lemma loop_J: "K s \<Longrightarrow> J (snd (read_loop padd n v s))"
proof (induction n arbitrary: v s)
  case (Suc n)
  then show ?case using iter_KJ [of s v]
    by (cases "read_iter padd v s") (auto simp: iter_ok_def split: sum.splits)
qed (simp add: K_J)

lemma read_keeps: "J s \<Longrightarrow> J (snd (ssh2_transport_read kx padd s))"
proof -
  assume s: "J s"
  let ?s = "s\<lparr>block_directions := block_directions s AND NOT LIBSSH2_SESSION_BLOCK_INBOUND\<rparr>"
  obtain rc s1 where e: "rekey_redirect kx ?s = (rc, s1)" by fastforce
  have s1: "J s1" using redirect_J [of ?s] s e by simp
  moreover have "K s1" if "rc = 0" using redirect_K [of ?s s1] s e that by simp
  ultimately show ?thesis
    by (simp add: ssh2_transport_read_def e point1_J loop_J del: read_loop.simps)
qed

end

subsection \<open>Updates of the books\<close>

lemma set_update_first: "x \<in> set (update_first P f xs) \<Longrightarrow> x \<in> set xs \<or> (\<exists>y \<in> set xs. P y \<and> x = f y)"
  by (induction xs) (auto split: if_splits)

lemma books_update:
  assumes "books_ok cs pend ps" "\<And>c. ch_id (f c) = ch_id c"
    "\<And>c. c \<in> set cs \<Longrightarrow> P c \<Longrightarrow> channel_ok ps c \<Longrightarrow> channel_ok ps (f c)"
  shows "books_ok (update_first P f cs) pend ps"
proof -
  have ids: "map ch_id (update_first P f cs) = map ch_id cs" using assms(2) by (intro map_update_first) simp
  then have "ch_id ` set (update_first P f cs) = ch_id ` set cs" by (metis list.set_map)
  then show ?thesis using assms ids unfolding books_ok_def by (auto dest!: set_update_first)
qed

lemma chan_of_id: "distinct (map ch_id cs) \<Longrightarrow> c \<in> set cs \<Longrightarrow> ch_id c = i \<Longrightarrow>
    find (\<lambda>c. ch_id c = i) cs = Some c"
  by (induction cs) (auto simp: image_iff)

lemma get_chan_of: "chan_inv s \<Longrightarrow> c \<in> set (all_channels s) \<Longrightarrow> ch_id c = i \<Longrightarrow> get_chan i s = c"
  using chan_of_id [of "all_channels s" c i]
  by (simp add: get_chan_def find_chan_def chan_inv_def books_ok_def)

text \<open>A channel is changed: its number stays, and its own books stay right.\<close>

lemma upd_chan_missing: "find_chan i s = None \<Longrightarrow> upd_chan i f s = set_fault s"
  by (auto simp: find_chan_def upd_chan_def all_channels_def find_None_iff)

lemma upd_chan_fields [simp]: "packets (upd_chan i f s) = packets s" "st (upd_chan i f s) = st s"
  "packAdd_Qlstn_state (upd_chan i f s) = packAdd_Qlstn_state s"
  "packAdd_x11open_state (upd_chan i f s) = packAdd_x11open_state s"
  "packAdd_authagent_state (upd_chan i f s) = packAdd_authagent_state s"
  "fault s \<Longrightarrow> fault (upd_chan i f s)" "kex_strict (upd_chan i f s) = kex_strict s"
  "has_st b (upd_chan i f s) = has_st b s" "allocs (upd_chan i f s) = allocs s"
  "packAdd_state (upd_chan i f s) = packAdd_state s"
  by (auto simp: upd_chan_def set_fault_def has_st_def)

lemma chan_inv_upd:
  assumes "chan_inv s" "\<And>c. ch_id (f c) = ch_id c"
    "channel_ok (packets s) (get_chan i s) \<Longrightarrow> channel_ok (packets s) (f (get_chan i s))"
  shows "chan_inv (upd_chan i f s)"
  using assms get_chan_of [OF assms(1)]
  by (auto simp: chan_inv_def all_channels_upd_chan pending_channels_def intro!: books_update)

lemma J_upd_chan:
  assumes "J s" "\<And>c. ch_id (f c) = ch_id c"
    "channel_ok (packets s) (get_chan i s) \<Longrightarrow> channel_ok (packets s) (f (get_chan i s))"
  shows "J (upd_chan i f s)"
  using assms chan_inv_upd [of s f i] by (auto simp: J_def)

lemma K_upd_chan:
  assumes "K s" "\<And>c. ch_id (f c) = ch_id c"
    "channel_ok (packets s) (get_chan i s) \<Longrightarrow> channel_ok (packets s) (f (get_chan i s))"
  shows "K (upd_chan i f s)"
  using assms J_upd_chan [of s f i] by (simp add: K_def calm_def)

text \<open>Changes that do not touch what the books say of a channel.\<close>

definition side_update :: "(channel \<Rightarrow> channel) \<Rightarrow> bool" where
  "side_update f \<longleftrightarrow> (\<forall>c. ch_id (f c) = ch_id c \<and> read_avail (f c) = read_avail c \<and> rwin (f c) = rwin c)"

lemma side_update_ok: "side_update f \<Longrightarrow> channel_ok ps (f c) = channel_ok ps c"
  by (simp add: side_update_def channel_ok_def)

lemma J_side: "J s \<Longrightarrow> side_update f \<Longrightarrow> J (upd_chan i f s)"
  by (rule J_upd_chan) (auto simp: side_update_ok side_update_def)

lemma K_side: "K s \<Longrightarrow> side_update f \<Longrightarrow> K (upd_chan i f s)"
  by (rule K_upd_chan) (auto simp: side_update_ok side_update_def)

lemma get_chan_found: "find_chan i s = Some c \<Longrightarrow> get_chan i s = c"
  by (simp add: get_chan_def)

lemma J_found: "J s \<Longrightarrow> find_chan i s = Some c \<Longrightarrow> \<not> fault s \<Longrightarrow> channel_ok (packets s) c"
  by (auto simp: J_def chan_inv_def books_ok_def find_chan_def find_Some_iff)

subsection \<open>The receive window\<close>

lemma unat_max_minus: "unat (0xFFFFFFFF - w :: u32) = 0xFFFFFFFF - unat w"
proof -
  have "unat w \<le> 0xFFFFFFFF" using unat_u32_lt [of w] by linarith
  then show ?thesis by (subst unat_sub) (simp_all add: word_le_nat_alt)
qed

lemma unat_add_below: "a \<le> 0xFFFFFFFF - w \<Longrightarrow> unat (w + a :: u32) = unat w + unat a"
  unfolding word_le_nat_alt unat_max_minus
proof -
  assume "unat a \<le> 0xFFFFFFFF - unat w"
  then have "unat w + unat a < 4294967296" using unat_u32_lt [of w] by linarith
  then show ?thesis by (simp add: unat_word_ariths)
qed

lemma wider_ok: "channel_ok ps c \<Longrightarrow> a \<le> 0xFFFFFFFF - rwin c \<Longrightarrow>
    channel_ok ps ((upd_rwin (\<lambda>w. w + a) c)\<lparr>adjust_state := ns\<rparr>)"
  by (simp add: channel_ok_def upd_rwin_def unat_add_below)

text \<open>
  Whatever sending does to the session, as long as it keeps an invariant of the books, so does announcing a
  window.
\<close>

locale adjusting = blocking I tsend for I :: "session \<Rightarrow> bool" and tsend :: sender +
  assumes upd_keeps: "I s \<Longrightarrow> (\<And>c. ch_id (f c) = ch_id c) \<Longrightarrow>
      (channel_ok (packets s) (get_chan i s) \<Longrightarrow> channel_ok (packets s) (f (get_chan i s))) \<Longrightarrow>
      I (upd_chan i f s)"
begin

lemma side_keeps: "I s \<Longrightarrow> side_update f \<Longrightarrow> I (upd_chan i f s)"
  by (rule upd_keeps) (auto simp: side_update_ok side_update_def)

lemma adjust_begin_I: "I s \<Longrightarrow> I (snd (adjust_begin i a force s))"
  unfolding adjust_begin_def Let_def by (intro I_intros) (simp_all add: side_keeps side_update_def)

lemma adjust_I: "I s \<Longrightarrow> I (snd (ssh2_channel_receive_window_adjust tsend i a force s))"
  unfolding ssh2_channel_receive_window_adjust_def
  by (intro I_stops I_intros adjust_begin_I tsend_keeps)
     (simp_all add: side_keeps side_update_def not_less,
      rule upd_keeps, assumption, simp add: upd_rwin_def, erule wider_ok)

end

subsection \<open>Channels opened by the peer\<close>

lemma J_padd_state [simp]: "ps \<noteq> NB_sent \<Longrightarrow> J s \<Longrightarrow> J (s\<lparr>packAdd_state := ps\<rparr>)"
  by (auto simp: J_def chan_inv_def all_channels_def pending_channels_def has_st_def)

lemma K_padd_state [simp]: "ps \<noteq> NB_sent \<Longrightarrow> K s \<Longrightarrow> K (s\<lparr>packAdd_state := ps\<rparr>)"
  by (simp add: K_def calm_def has_st_def)

lemma padd_done_K [simp]: "K s \<Longrightarrow> K (snd (padd_done rc s))"
  by (simp add: padd_done_def)

lemma books_perm:
  assumes "mset cs = mset cs'" "mset pend = mset pend'"
  shows "books_ok cs pend ps = books_ok cs' pend' ps"
proof -
  have "mset (map ch_id (cs @ pend)) = mset (map ch_id (cs' @ pend'))" using assms by simp
  then have "distinct (map ch_id (cs @ pend)) = distinct (map ch_id (cs' @ pend'))"
    by (rule mset_eq_imp_distinct_iff)
  moreover have "set (cs @ pend) = set (cs' @ pend')" "set cs = set cs'"
    using assms by (auto dest: mset_eq_setD)
  ultimately show ?thesis by (simp add: books_ok_def)
qed

lemma books_drop: "books_ok cs (c # pend) ps \<Longrightarrow> books_ok cs pend ps"
  by (auto simp: books_ok_def)

lemma books_fewer:
  assumes "books_ok cs pend ps" "mset pend' \<subseteq># mset pend"
  shows "books_ok cs pend' ps"
proof -
  obtain r where "mset pend - mset pend' = mset r" by (metis ex_mset)
  then have "mset pend = mset (pend' @ r)" using assms(2) by (metis mset_append subset_mset.add_diff_inverse)
  then have "books_ok cs (pend' @ r) ps" using assms(1) books_perm [OF refl] by blast
  then show ?thesis unfolding books_ok_def by auto
qed

lemma books_link: "books_ok cs (c # pend) ps \<Longrightarrow> books_ok (c # cs) pend ps"
  by (auto simp: books_ok_def packet_ok_def)

text \<open>A new channel has a number that is not in use and nothing queued.\<close>

definition fresh :: "channel \<Rightarrow> session \<Rightarrow> bool" where
  "fresh c s \<longleftrightarrow> fault s \<or> (ch_id c \<notin> set (used_ids s) \<and> read_avail c = 0)"

lemma qbytes_unused:
  assumes "books_ok cs pend ps" "i \<notin> ch_id ` set cs"
  shows "qbytes i ps = 0"
proof -
  have "filter (data_for i) ps = []"
    using assms by (auto simp: filter_empty_conv books_ok_def packet_ok_def data_for_def)
  then show ?thesis by (simp add: qbytes_def)
qed

lemma books_new:
  assumes "books_ok cs pend ps" "ch_id c \<notin> ch_id ` set (cs @ pend)" "read_avail c = 0"
  shows "books_ok cs (c # pend) ps"
proof -
  have "channel_ok ps c"
    using assms(2,3) qbytes_unused [OF assms(1), of "ch_id c"] by (auto simp: channel_ok_def)
  then show ?thesis using assms(1,2) by (auto simp: books_ok_def)
qed

lemma fresh_frame: "same_core s s' \<Longrightarrow> fresh c s \<Longrightarrow> fresh c s'"
  unfolding fresh_def used_ids_def same_core_def all_channels_def pending_channels_def by auto

lemma nextid_J:
  assumes "ssh2_channel_nextid s = (i, s')"
  shows "J s \<longrightarrow> J s'" "calm s' = calm s" "fault s' \<or> i \<notin> set (used_ids s')"
proof -
  let ?t = "s\<lparr>next_channel := i + 1\<rparr>"
  have s': "s' = c_assert (i \<notin> set (used_ids s)) ?t"
    using assms by (auto simp: ssh2_channel_nextid_def Let_def)
  have c: "same_core s ?t" by (simp add: same_core_def)
  have "same_core s s'" unfolding s' using c by simp
  then show "J s \<longrightarrow> J s'" by (blast intro: same_core_J)
  show "calm s' = calm s" unfolding s' by (simp add: c_assert_def set_fault_def calm_def has_st_def)
  have "used_ids s' = used_ids s"
    by (simp add: s' c_assert_def set_fault_def used_ids_def all_channels_def pending_channels_def)
  then show "fault s' \<or> i \<notin> set (used_ids s')" by (auto simp: s' c_assert_def set_fault_def)
qed

lemma nextid_K: "K s \<Longrightarrow> ssh2_channel_nextid s = (i, s') \<Longrightarrow> K s' \<and> (fault s' \<or> i \<notin> set (used_ids s'))"
  using nextid_J [of s i s'] by (simp add: K_def)

lemma new_channel_K: "K s \<Longrightarrow> new_channel ty q s = (r, s') \<Longrightarrow>
    K s' \<and> (\<forall>c. r = Some c \<longrightarrow> fresh c s')"
proof -
  assume s: "K s" and n: "new_channel ty q s = (r, s')"
  obtain a s1 where a: "ssh2_alloc s = (a, s1)" by fastforce
  have s1: "K s1" using K.alloc_I [OF s] a by simp
  obtain a' s2 where a': "ssh2_alloc s1 = (a', s2)" by fastforce
  have s2: "K s2" using K.alloc_I [OF s1] a' by simp
  obtain i s3 where i: "ssh2_channel_nextid s2 = (i, s3)" by fastforce
  show ?thesis
    using n s1 s2 nextid_K [OF s2 i] a a' i
    by (auto simp: new_channel_def fresh_def open_channel_block_def channel_0_def split: if_splits)
qed

text \<open>The states of openings in progress.\<close>

lemma J_books: "\<not> fault s \<Longrightarrow> J s \<Longrightarrow> books_ok (all_channels s) (pending_channels s) (packets s)"
  by (simp add: J_def chan_inv_def)

lemma J_same_rest:
  assumes "J s" "books_ok (all_channels s) (pending_channels s) (packets s) \<Longrightarrow>
      books_ok (all_channels s') (pending_channels s') (packets s')"
    "has_st SSH2_STATE_INITIAL_KEX s' = has_st SSH2_STATE_INITIAL_KEX s" "allocs s' = allocs s"
    "packAdd_state s' = packAdd_state s" "fault s \<Longrightarrow> fault s'"
    "qs_channel (x11_st s) = None \<Longrightarrow> qs_channel (x11_st s') = None"
  shows "J s'"
  using assms by (auto simp: J_def chan_inv_def)

lemma K_same_rest:
  assumes "K s" "books_ok (all_channels s) (pending_channels s) (packets s) \<Longrightarrow>
      books_ok (all_channels s') (pending_channels s') (packets s')"
    "st s' = st s" "allocs s' = allocs s" "packAdd_state s' = packAdd_state s" "fault s \<Longrightarrow> fault s'"
    "qs_channel (x11_st s) = None \<Longrightarrow> qs_channel (x11_st s') = None"
  shows "K s'"
  using assms by (auto simp: K_def J_def calm_def has_st_def chan_inv_def)

lemma upd_lstn_K:
  assumes "K s" "pending_channel (f (lstn_st s)) \<in> {[], pending_channel (lstn_st s)}"
  shows "K (upd_lstn f s)"
proof -
  have "mset (pending_channels (upd_lstn f s)) \<subseteq># mset (pending_channels s)"
    using assms(2) by (auto simp: pending_channels_def upd_lstn_def)
  then show ?thesis
    by (intro K_same_rest [OF assms(1)]) (simp_all add: upd_lstn_def all_channels_def books_fewer)
qed

lemma upd_x11_K:
  assumes "K s" "\<And>q. qs_channel (f q) = qs_channel q"
  shows "K (upd_x11 f s)"
proof -
  have "K (upd_x11 f s)" if "fault s"
    using assms(1) that by (auto simp: K_def J_def calm_def has_st_def upd_x11_def)
  moreover have "K (upd_x11 f s)" if "qs_channel (x11_st s) = None"
  proof -
    have "pending_channels (upd_x11 f s) = pending_channels s"
      using that assms(2) by (simp add: upd_x11_def pending_channels_def pending_channel_def)
    then show ?thesis
      using that assms(2) by (intro K_same_rest [OF assms(1)]) (simp_all add: upd_x11_def all_channels_def)
  qed
  ultimately show ?thesis using assms(1) by (auto simp: K_def J_def chan_inv_def)
qed

lemma upd_agent_K:
  assumes "K s" "pending_channel (f (agent_st s)) \<in> {[], pending_channel (agent_st s)}"
  shows "K (upd_agent f s)"
proof -
  have "mset (pending_channels (upd_agent f s)) \<subseteq># mset (pending_channels s)"
    using assms(2) by (auto simp: pending_channels_def upd_agent_def)
  then show ?thesis
    by (intro K_same_rest [OF assms(1)]) (simp_all add: upd_agent_def all_channels_def books_fewer)
qed

lemma lstn_pending_K:
  assumes "K s" "fresh c s" "pending_channel (lstn_st s) = []" "pending_channel (f (lstn_st s)) = [c]"
  shows "K (upd_lstn f s)"
proof (cases "fault s")
  case True
  then show ?thesis using assms(1) by (auto simp: K_def J_def calm_def has_st_def upd_lstn_def)
next
  case False
  then have "books_ok (all_channels s) (c # pending_channels s) (packets s)" if
    "books_ok (all_channels s) (pending_channels s) (packets s)"
    using assms(2) that by (intro books_new) (auto simp: fresh_def used_ids_def)
  then show ?thesis
    using assms(3,4) by (intro K_same_rest [OF assms(1)])
      (simp_all add: upd_lstn_def all_channels_def pending_channels_def)
qed

lemma agent_pending_K:
  assumes "K s" "fresh c s" "pending_channel (agent_st s) = []" "pending_channel (f (agent_st s)) = [c]"
  shows "K (upd_agent f s)"
proof (cases "fault s")
  case True
  then show ?thesis using assms(1) by (auto simp: K_def J_def calm_def has_st_def upd_agent_def)
next
  case False
  then have "books_ok (all_channels s) (c # pending_channels s) (packets s)" if
    "books_ok (all_channels s) (pending_channels s) (packets s)"
    using assms(2) that by (intro books_new) (auto simp: fresh_def used_ids_def)
  moreover have "mset (pending_channels (upd_agent f s)) = mset (c # pending_channels s)"
    using assms(3,4) by (simp add: upd_agent_def pending_channels_def)
  ultimately have "books_ok (all_channels s) (pending_channels (upd_agent f s)) (packets s)" if
    "books_ok (all_channels s) (pending_channels s) (packets s)"
    using that books_perm [OF refl, of "pending_channels (upd_agent f s)" "c # pending_channels s"] by blast
  then show ?thesis
    by (intro K_same_rest [OF assms(1)]) (simp_all add: upd_agent_def all_channels_def)
qed

text \<open>A confirmed channel is linked into a queue or into the session.\<close>

lemma mset_queue_update:
  "k < length ls \<Longrightarrow> mset (concat (map ls_queue (ls[k := (ls ! k)\<lparr>ls_queue := ls_queue (ls ! k) @ [c], ls_queue_size := n\<rparr>])))
     = add_mset c (mset (concat (map ls_queue ls)))"
proof (induction ls arbitrary: k)
  case (Cons l ls)
  then show ?case by (cases k) auto
qed simp

lemma link_lstn_K:
  assumes "K s" "qs_state (lstn_st s) = NB_created \<or> qs_channel (lstn_st s) = None"
  shows "K (queue_link k (upd_lstn (\<lambda>q. q\<lparr>qs_state := NB_idle\<rparr>) s))"
proof -
  let ?t = "upd_lstn (\<lambda>q. q\<lparr>qs_state := NB_idle\<rparr>) s"
  have t: "K ?t" using assms(1) by (rule upd_lstn_K) (simp add: pending_channel_def)
  have q: "qs_channel (lstn_st ?t) = qs_channel (lstn_st s)" "listeners ?t = listeners s" "channels ?t = channels s"
    by (simp_all add: upd_lstn_def)
  show ?thesis
  proof (cases "qs_channel (lstn_st s)")
    case None
    then show ?thesis using t by (simp add: queue_link_def q)
  next
    case (Some c)
    let ?u = "?t\<lparr>listeners := (listeners s)[k := (listeners s ! k)\<lparr>ls_queue := ls_queue (listeners s ! k) @ [c],
                 ls_queue_size := ls_queue_size (listeners s ! k) + 1\<rparr>]\<rparr>"
    have e: "queue_link k ?t = c_assert (k < length (listeners s)) ?u"
      by (simp add: queue_link_def q Some)
    show ?thesis
    proof (cases "k < length (listeners s)")
      case True
      have pend: "pending_channels s = c # pending_channels ?t"
        using assms(2) Some by (simp add: pending_channels_def pending_channel_def upd_lstn_def)
      have "mset (all_channels ?u) = mset (c # all_channels s)"
        using mset_queue_update [OF True] by (simp add: all_channels_def q)
      moreover have "pending_channels ?u = pending_channels ?t" by (simp add: pending_channels_def)
      ultimately have "books_ok (all_channels ?u) (pending_channels ?u) (packets s)" if
        "books_ok (all_channels s) (pending_channels s) (packets s)"
        using that books_link pend books_perm [of "all_channels ?u" "c # all_channels s"] by metis
      then have "K ?u"
        by (intro K_same_rest [OF assms(1)]) (simp_all add: upd_lstn_def)
      then show ?thesis by (simp add: e True c_assert_def)
    next
      case False
      have "K (set_fault ?u)"
        using assms(1) by (auto simp: K_def calm_def has_st_def J_def set_fault_def upd_lstn_def)
      then show ?thesis by (simp add: e False c_assert_def)
    qed
  qed
qed

lemma link_session_J:
  assumes "J s" "fresh c s"
  shows "J (s\<lparr>channels := channels s @ [c]\<rparr>)"
proof (cases "fault s")
  case True
  then show ?thesis by (simp add: J_def)
next
  case False
  let ?t = "s\<lparr>channels := channels s @ [c]\<rparr>"
  have "mset (all_channels ?t) = mset (c # all_channels s)" by (simp add: all_channels_def)
  moreover have "books_ok (c # all_channels s) (pending_channels s) (packets s)" if
    "books_ok (all_channels s) (pending_channels s) (packets s)"
    using False assms(2) that by (intro books_link books_new) (auto simp: fresh_def used_ids_def)
  moreover have "pending_channels ?t = pending_channels s" by (simp add: pending_channels_def)
  ultimately show ?thesis
    using books_perm [of "all_channels ?t" "c # all_channels s"]
    by (intro J_same_rest [OF assms(1)]) (auto simp: has_st_def)
qed

lemma link_session_K: "K s \<Longrightarrow> fresh c s \<Longrightarrow> K (s\<lparr>channels := channels s @ [c]\<rparr>)"
  by (simp add: K_def link_session_J) (simp add: calm_def has_st_def)

lemma link_agent_K:
  assumes "K s" "qs_state (agent_st s) = NB_created" "qs_channel (agent_st s) = Some c"
  shows "K ((upd_agent (\<lambda>q. q\<lparr>qs_state := NB_idle\<rparr>) s)\<lparr>channels := channels s @ [c], fullpacket_state := fs\<rparr>)"
proof -
  let ?t = "(upd_agent (\<lambda>q. q\<lparr>qs_state := NB_idle\<rparr>) s)\<lparr>channels := channels s @ [c], fullpacket_state := fs\<rparr>"
  have "mset (all_channels ?t) = mset (c # all_channels s)" by (simp add: all_channels_def upd_agent_def)
  moreover have "mset (pending_channels s) = mset (c # pending_channels ?t)"
    using assms(2,3) by (simp add: pending_channels_def pending_channel_def upd_agent_def)
  ultimately have "books_ok (all_channels ?t) (pending_channels ?t) (packets s)" if
    "books_ok (all_channels s) (pending_channels s) (packets s)"
    using that books_link books_perm by metis
  then show ?thesis
    by (intro K_same_rest [OF assms(1)]) (simp_all add: upd_agent_def)
qed

subsection \<open>The packet handler\<close>

text \<open>While it runs, sending is not redirected, so it does not touch the books.\<close>

locale calm_sender =
  fixes tsend :: sender
  assumes tsend_frame: "calm s \<Longrightarrow> same_core s (snd (tsend p d d2 s))"

sublocale calm_sender \<subseteq> adjusting K tsend
proof unfold_locales
  show "K s \<Longrightarrow> K (snd (tsend p d d2 s))" for s p d d2
    by (rule same_core_K [OF tsend_frame]) (simp_all add: K_def)
qed (rule K_upd_chan)

context calm_sender begin

lemma send_fresh: "K s \<Longrightarrow> fresh c s \<Longrightarrow> fresh c (snd (tsend p d d2 s))"
  by (rule fresh_frame [OF tsend_frame]) (simp_all add: K_def)

lemma refuse_K: "K s \<Longrightarrow> K (snd (queue_refuse tsend code s))"
  unfolding queue_refuse_def Let_def
  by (intro K.I_intros tsend_keeps) (simp_all add: upd_lstn_K pending_channel_def)

lemma confirm_K:
  assumes "K s" "qs_state (lstn_st s) = NB_created \<or> qs_channel (lstn_st s) = None"
  shows "K (snd (queue_confirm tsend k s))"
proof -
  obtain rc t where e: "tsend (''Qlstn'', 0) (take 17 (qs_packet (lstn_st s))) [] s = (rc, t)" by fastforce
  have c: "same_core s t" using tsend_frame [of s] assms(1) e by (metis K_def snd_conv)
  then have t: "K t" using assms(1) by (rule same_core_K)
  have "lstn_st t = lstn_st s" using c by (simp add: same_core_def)
  then have "K (queue_link k (upd_lstn (\<lambda>q. q\<lparr>qs_state := NB_idle\<rparr>) t))"
    using assms(2) by (intro link_lstn_K t) simp
  then show ?thesis
    using t by (simp add: queue_confirm_def e upd_lstn_K pending_channel_def)
qed

lemma accept_K:
  assumes s: "K s"
  shows "K (snd (queue_accept tsend k s))"
proof -
  let ?s = "upd_lstn (\<lambda>q. q\<lparr>qs_channel := None\<rparr>) s"
  let ?sent = "upd_lstn (\<lambda>q. q\<lparr>qs_state := NB_sent\<rparr>)"
  have t: "K ?s" using s by (rule upd_lstn_K) (simp add: pending_channel_def)
  have f: "lstn_st ?s = (lstn_st s)\<lparr>qs_channel := None\<rparr>" by (simp add: upd_lstn_def)
  have sent: "K (?sent u)" if "K u" for u
    using that by (rule upd_lstn_K) (simp add: pending_channel_def)
  show ?thesis
  proof (cases "qs_state (lstn_st s) = NB_allocated")
    case True
    obtain r u where n: "new_channel (str ''forwarded-tcpip'') (lstn_st ?s) ?s = (r, u)" by fastforce
    have u: "K u" "\<And>c. r = Some c \<Longrightarrow> fresh c u" using new_channel_K [OF t n] by auto
    have same: "lstn_st u = lstn_st ?s"
      using n by (auto simp: new_channel_def ssh2_alloc_def ssh2_channel_nextid_def Let_def note_err_def c_assert_def set_fault_def
          split: list.splits if_splits)
    have "K (snd (queue_confirm tsend k (upd_lstn (\<lambda>q. q\<lparr>qs_channel := Some c, qs_packet := open_confirmation c,
        qs_state := NB_created\<rparr>) u)))" if "r = Some c" for c
    proof (rule confirm_K)
      show "K (upd_lstn (\<lambda>q. q\<lparr>qs_channel := Some c, qs_packet := open_confirmation c, qs_state := NB_created\<rparr>) u)"
        by (rule lstn_pending_K [OF u(1) u(2) [OF that]]) (simp_all add: pending_channel_def same f True)
    qed (simp add: upd_lstn_def)
    then show ?thesis
      using True u sent t f refuse_K n
      unfolding queue_accept_def Let_def
      by (auto split: option.split)
  next
    case False
    then show ?thesis
      using f by (simp add: queue_accept_def Let_def confirm_K t)
  qed
qed

end

end
