(* ===== verification/PacketInv.thy ===== *)
theory PacketInv
  imports ChanInv
begin

text \<open>The packet handler keeps the books.\<close>

unbundle bit_operations_syntax

subsection \<open>Channels opened by the peer\<close>

lemma get_field_rule:
  assumes "R s" "\<And>s. R s \<Longrightarrow> R (snd (fail s))" "\<And>v s. R s \<Longrightarrow> R (store v s)"
    "\<And>buf s. R s \<Longrightarrow> R (snd (k buf s))"
  shows "R (snd (get_field fail get store k buf s))"
  using assms by (auto simp: get_field_def split: option.split prod.split)

lemma field_rule:
  "R (snd a) \<Longrightarrow> (\<And>v buf. R (snd (b v buf))) \<Longrightarrow>
   R (snd (case e of (None, _) \<Rightarrow> a | (Some v, buf) \<Rightarrow> b v buf))"
  by (cases e; cases "fst e") auto

lemma fresh_upd_x11:
  assumes "K s" "\<And>q. qs_channel (f q) = qs_channel q"
  shows "fresh c (upd_x11 f s) = fresh c s"
proof (cases "fault s")
  case True
  then show ?thesis by (simp add: fresh_def upd_x11_def)
next
  case False
  then have "qs_channel (x11_st s) = None" using assms(1) by (simp add: K_def J_def chan_inv_def)
  then have "pending_channels (upd_x11 f s) = pending_channels s"
    using assms(2) by (simp add: upd_x11_def pending_channels_def pending_channel_def)
  then show ?thesis by (simp add: fresh_def used_ids_def all_channels_def upd_x11_def)
qed

lemma new_channel_rest:
  "new_channel ty q s = (r, s') \<Longrightarrow> agent_st s' = agent_st s"
  by (auto simp: new_channel_def ssh2_alloc_def ssh2_channel_nextid_def Let_def note_err_def c_assert_def set_fault_def
      split: list.splits if_splits)

context calm_sender begin

lemma queue_parse_K: "K s \<Longrightarrow> K (snd (queue_parse data n s))"
  unfolding queue_parse_def Let_def
  by (intro K.I_intros get_field_rule [where R = K]) (simp_all add: upd_lstn_K pending_channel_def)

lemma queue_listener_K: "K s \<Longrightarrow> K (snd (packet_queue_listener tsend data n s))"
  unfolding packet_queue_listener_def
  by (intro K.I_intros queue_parse_K refuse_K accept_K) (simp_all add: upd_lstn_K pending_channel_def)

subsubsection \<open>X11\<close>

lemma x11_parse_K: "K s \<Longrightarrow> K (snd (x11_parse data n s))"
  unfolding x11_parse_def Let_def
  by (intro K.I_intros get_field_rule [where R = K] field_rule [where R = K] K.alloc_I)
     (simp_all add: upd_x11_K)

lemma x11_exit_K: "K s \<Longrightarrow> K (snd (x11_exit tsend code s))"
  unfolding x11_exit_def Let_def by (intro K.I_intros tsend_keeps) (simp_all add: upd_x11_K)

lemma x11_confirm_K:
  assumes "K s" "\<And>c. ch = Some c \<Longrightarrow> fresh c s"
  shows "K (snd (x11_confirm tsend ch s))"
proof -
  obtain rc t where e: "tsend (''x11'', 0) (take 17 (qs_packet (x11_st s))) [] s = (rc, t)" by fastforce
  let ?u = "upd_x11 (\<lambda>q. q\<lparr>qs_shost := [], qs_state := NB_idle\<rparr>) t"
  have t: "K t" using tsend_keeps [OF assms(1)] e by (metis snd_conv)
  have u: "K ?u" using t by (simp add: upd_x11_K)
  have "fresh c t" if "ch = Some c" for c
    using send_fresh [OF assms(1) assms(2) [OF that]] e by (metis snd_conv)
  then have "fresh c ?u" if "ch = Some c" for c
    using that t by (subst fresh_upd_x11) simp_all
  then show ?thesis
    using u t link_session_K [OF u] by (auto simp: x11_confirm_def e Let_def split: option.split)
qed

lemma x11_open_K:
  assumes "K s"
  shows "K (snd (packet_x11_open tsend data n s))"
proof -
  obtain ok t where e: "(if qs_state (x11_st s) = NB_idle then x11_parse data n s else (True, s)) = (ok, t)"
    by fastforce
  have t: "K t" using x11_parse_K [OF assms] assms e by (metis snd_conv)
  obtain r u where n: "new_channel (str ''x11'') (x11_st t) t = (r, u)" by fastforce
  have u: "K u" "\<And>c. r = Some c \<Longrightarrow> fresh c u" using new_channel_K [OF t n] by auto
  have "qs_channel (x11_st t) = Some c \<Longrightarrow> fresh c t" for c
    using t by (auto simp: K_def J_def chan_inv_def fresh_def)
  then show ?thesis
    using t u by (auto simp: packet_x11_open_def e n x11_exit_K x11_confirm_K upd_x11_K fresh_upd_x11 split: option.split)
qed

subsubsection \<open>The agent\<close>

lemma authagent_parse_K: "K s \<Longrightarrow> K (snd (authagent_parse data n s))"
  unfolding authagent_parse_def Let_def
  by (intro get_field_rule [where R = K]) (simp_all add: upd_agent_K pending_channel_def)

lemma authagent_exit_K: "K s \<Longrightarrow> K (snd (authagent_exit tsend code s))"
  unfolding authagent_exit_def Let_def
  by (intro K.I_intros tsend_keeps) (simp_all add: upd_agent_K pending_channel_def)

lemma authagent_confirm_K:
  assumes "K s" "qs_state (agent_st s) = NB_created" "qs_channel (agent_st s) = ch"
  shows "K (snd (authagent_confirm tsend ch s))"
proof -
  obtain rc t where e: "tsend (''authagent'', 0) (take 17 (qs_packet (agent_st s))) [] s = (rc, t)" by fastforce
  have c: "same_core s t" using tsend_frame [of s] assms(1) e by (metis K_def snd_conv)
  then have t: "K t" using assms(1) by (rule same_core_K)
  have a: "agent_st t = agent_st s" using c by (simp add: same_core_def)
  have "K (upd_agent (\<lambda>q. q\<lparr>qs_state := NB_idle\<rparr>) t)" using t by (rule upd_agent_K) (simp add: pending_channel_def)
  moreover have "K ((upd_agent (\<lambda>q. q\<lparr>qs_state := NB_idle\<rparr>) t)\<lparr>channels := channels t @ [x], fullpacket_state := NB_idle\<rparr>)"
    if "ch = Some x" for x
    using link_agent_K [OF t] a assms(2,3) that by simp
  ultimately show ?thesis
    using t by (auto simp: authagent_confirm_def e Let_def upd_agent_def split: option.split)
qed

lemma authagent_open_K:
  assumes "K s"
  shows "K (snd (packet_authagent_open tsend data n s))"
proof -
  obtain rc t where e: "(if qs_state (agent_st s) = NB_idle then authagent_parse data n s else (0, s)) = (rc, t)"
    by fastforce
  have t: "K t" using authagent_parse_K [OF assms] assms e by (metis snd_conv)
  obtain r u where n: "new_channel (str ''auth agent'') (agent_st t) t = (r, u)" by fastforce
  have u: "K u" "\<And>c. r = Some c \<Longrightarrow> fresh c u" using new_channel_K [OF t n] by auto
  have a: "agent_st u = agent_st t" using n by (rule new_channel_rest)
  have "K (snd (authagent_confirm tsend (Some c) (upd_agent (\<lambda>q. q\<lparr>qs_channel := Some c,
      qs_packet := open_confirmation c, qs_state := NB_created\<rparr>) u)))"
    if "qs_state (agent_st t) = NB_allocated" "r = Some c" for c
  proof (rule authagent_confirm_K)
    show "K (upd_agent (\<lambda>q. q\<lparr>qs_channel := Some c, qs_packet := open_confirmation c, qs_state := NB_created\<rparr>) u)"
      using that by (intro agent_pending_K [OF u(1) u(2)]) (simp_all add: pending_channel_def a)
  qed (simp_all add: upd_agent_def)
  moreover have "K (upd_agent (\<lambda>q. q\<lparr>qs_channel := None\<rparr>) u)"
    using u(1) by (rule upd_agent_K) (simp add: pending_channel_def)
  ultimately show ?thesis
    using t u assms by (auto simp: packet_authagent_open_def e n authagent_exit_K authagent_confirm_K split: option.split)
qed

subsection \<open>Messages\<close>

lemma ext_info_K: "K s \<Longrightarrow> K (snd (ext_info_loop n buf s))"
proof (induction n arbitrary: buf s)
  case (Suc n)
  show ?case
    unfolding ext_info_loop.simps
    by (intro K.I_intros field_rule [where R = K] K.alloc_I) (simp_all add: Suc)
qed simp

lemma padd_ext_info_K: "K s \<Longrightarrow> K (snd (padd_ext_info data n s))"
  unfolding padd_ext_info_def
  by (intro K.I_intros field_rule [where R = K] ext_info_K) simp_all

lemma padd_jump5_K: "K s \<Longrightarrow> K (snd (padd_jump5 tsend s))"
  unfolding padd_jump5_def by (intro K.I_intros tsend_keeps) simp_all

lemma padd_global_K: "K s \<Longrightarrow> K (snd (padd_global_request tsend data n s))"
  by (simp add: padd_global_request_def padd_jump5_K)

lemma padd_eof_K: "K s \<Longrightarrow> K (snd (padd_eof data n s))"
  by (auto simp: padd_eof_def K_side side_update_def upd_cremote_def split: option.split)

lemma padd_close_K: "K s \<Longrightarrow> K (snd (padd_close data n s))"
  by (auto simp: padd_close_def K_side side_update_def upd_cremote_def split: option.split)

lemma padd_window_K: "K s \<Longrightarrow> K (snd (padd_window_adjust data n s))"
  by (auto simp: padd_window_adjust_def Let_def K_side side_update_def ssh2_err_def split: option.split)

lemma exit_status_K: "K s \<Longrightarrow> K (snd (request_exit_status n ch buf s))"
  by (auto simp: request_exit_status_def K_side side_update_def split: option.split prod.split)

lemma exit_signal_K: "K s \<Longrightarrow> K (snd (request_exit_signal n ch buf s))"
proof -
  assume s: "K s"
  have "K (snd (case ssh2_alloc s of (ok, s) \<Rightarrow>
      let s = upd_chan i (\<lambda>c. c\<lparr>exit_signal := (if ok then Some sg else None)\<rparr>) s
      in if ok then (rc, s) else ssh2_err LIBSSH2_ERROR_ALLOC s))" for i sg rc
    unfolding Let_def by (intro K.I_intros K.alloc_I s) (simp_all add: K_side side_update_def)
  then show ?thesis
    using s by (auto simp: request_exit_signal_def ssh2_err_def K_side side_update_def split: option.split prod.split)
qed

lemma padd_jump4_K: "K s \<Longrightarrow> K (snd (padd_jump4 tsend data s))"
  unfolding padd_jump4_def by (intro K.I_intros tsend_keeps) simp_all

lemma padd_request_K: "K s \<Longrightarrow> K (snd (padd_channel_request tsend data n s))"
  unfolding padd_channel_request_def Let_def
  by (intro K.I_intros field_rule [where R = K] exit_status_K exit_signal_K padd_jump4_K) simp_all

lemma padd_jump1_K: "K s \<Longrightarrow> K (snd (padd_jump1 tsend n s))"
  unfolding padd_jump1_def Let_def
  by (intro K.I_intros adjust_I) simp_all

lemma padd_opened_K: "K (snd r) \<Longrightarrow> K (snd (padd_opened r))"
  by (cases r) (simp add: padd_opened_def)

lemma padd_jump2_K: "K s \<Longrightarrow> K (snd (padd_jump2 tsend data n s))"
  unfolding padd_jump2_def by (intro padd_opened_K queue_listener_K) simp

lemma padd_jump3_K: "K s \<Longrightarrow> K (snd (padd_jump3 tsend data n s))"
  unfolding padd_jump3_def by (intro padd_opened_K x11_open_K) simp

lemma padd_jump_authagent_K: "K s \<Longrightarrow> K (snd (padd_jump_authagent tsend data n s))"
  unfolding padd_jump_authagent_def by (intro padd_opened_K authagent_open_K) simp

lemma reset_lstn_K: "K s \<Longrightarrow> K (s\<lparr>packAdd_Qlstn_state := listen_state_0\<rparr>)"
  using upd_lstn_K [of s "\<lambda>_. listen_state_0"] by (simp add: upd_lstn_def pending_channel_def listen_state_0_def)

lemma reset_agent_K: "K s \<Longrightarrow> K (s\<lparr>packAdd_authagent_state := listen_state_0\<rparr>)"
  using upd_agent_K [of s "\<lambda>_. listen_state_0"] by (simp add: upd_agent_def pending_channel_def listen_state_0_def)

lemma reset_x11_K: "K s \<Longrightarrow> K (s\<lparr>packAdd_x11open_state := listen_state_0\<rparr>)"
proof (cases "fault s")
  case False
  assume s: "K s"
  have q: "qs_channel (x11_st s) = None" using s False by (simp add: K_def J_def chan_inv_def)
  have "pending_channels (s\<lparr>packAdd_x11open_state := listen_state_0\<rparr>) = pending_channels s"
    using q by (simp add: pending_channels_def pending_channel_def listen_state_0_def)
  then show ?thesis
    by (intro K_same_rest [OF s]) (simp_all add: all_channels_def listen_state_0_def)
qed (simp add: K_def J_def calm_def has_st_def)

lemma padd_open_K: "K s \<Longrightarrow> K (snd (padd_channel_open tsend data n s))"
  unfolding padd_channel_open_def
  by (intro if2 [where R = K] padd_opened_K padd_jump2_K padd_jump3_K padd_jump_authagent_K reset_lstn_K reset_agent_K
      reset_x11_K) simp_all

end

subsection \<open>Data\<close>

lemma locate_in_id: "locate_in i cs = Some j \<Longrightarrow> j = i \<and> i \<in> ch_id ` set cs"
  by (induction cs) (auto split: if_splits)

lemma locate_queued_id: "locate_queued i ls = Some j \<Longrightarrow> j = i \<and> i \<in> ch_id ` set (concat (map ls_queue ls))"
  by (induction ls) (auto dest: locate_in_id split: option.splits)

lemma locate_id: "ssh2_channel_locate s i = Some j \<Longrightarrow> j = i \<and> i \<in> ch_id ` set (all_channels s)"
  by (auto simp: ssh2_channel_locate_def all_channels_def dest!: locate_in_id locate_queued_id split: option.splits)

lemma msg_channel_id: "msg_channel least data n s = Some i \<Longrightarrow>
    least \<le> n \<and> i = ssh2_ntohu32 (drop 1 data) \<and> i \<in> ch_id ` set (all_channels s)"
  by (auto simp: msg_channel_def dest!: locate_id split: if_splits)

lemma qbytes_snoc: "qbytes i (ps @ [p]) = qbytes i ps + (if data_for i p then pkt_len p - pkt_head p else 0)"
  by (simp add: qbytes_def)

text \<open>The packet that is about to be queued.\<close>

definition ready :: "bytes \<Rightarrow> nat \<Rightarrow> nat \<Rightarrow> session \<Rightarrow> bool" where
  "ready data n h s \<longleftrightarrow>
     K (s\<lparr>packets := packets s @ [\<lparr>pkt_data = data, pkt_len = n, pkt_head = h\<rparr>], packAdd_state := NB_sent1\<rparr>)"

lemma update_first_distinct: "distinct (map ch_id cs) \<Longrightarrow>
    update_first (\<lambda>c. ch_id c = i) f cs = map (\<lambda>c. if ch_id c = i then f c else c) cs"
proof (induction cs)
  case (Cons c cs)
  have "map (\<lambda>c. if ch_id c = i then f c else c) cs = cs" if "ch_id c = i"
    using Cons.prems that by (auto intro!: map_idI simp: image_iff)
  then show ?case using Cons by simp
qed simp

lemma books_change:
  assumes b: "books_ok cs pend ps" and p: "\<And>p. p \<in> set qs \<Longrightarrow> packet_ok (ch_id ` set cs) p"
    and f: "\<And>c. ch_id (f c) = ch_id c"
    and own: "\<And>c. c \<in> set cs \<Longrightarrow> ch_id c = i \<Longrightarrow> channel_ok ps c \<Longrightarrow> channel_ok qs (f c)"
    and other: "\<And>j. j \<noteq> i \<Longrightarrow> qbytes j qs = qbytes j ps"
    and i: "i \<in> ch_id ` set cs"
  shows "books_ok (update_first (\<lambda>c. ch_id c = i) f cs) pend qs"
proof -
  have dist: "distinct (map ch_id (cs @ pend))" using b by (simp add: books_ok_def)
  have ids: "map ch_id (update_first (\<lambda>c. ch_id c = i) f cs) = map ch_id cs"
    using f by (intro map_update_first) simp
  then have idset: "ch_id ` set (update_first (\<lambda>c. ch_id c = i) f cs) = ch_id ` set cs" by (metis list.set_map)
  have rest: "channel_ok qs c" if "channel_ok ps c" "ch_id c \<noteq> i" for c
    using that other by (simp add: channel_ok_def)
  have ok: "channel_ok ps c" if "c \<in> set (cs @ pend)" for c using b that unfolding books_ok_def by blast
  have "channel_ok qs c" if "c \<in> set (update_first (\<lambda>c. ch_id c = i) f cs)" for c
    using that dist ok own rest by (auto simp: update_first_distinct)
  moreover have "channel_ok qs c" if "c \<in> set pend" for c
    using that dist i by (intro rest ok) auto
  ultimately show ?thesis using dist ids idset p by (auto simp: books_ok_def)
qed

lemma books_packets: "books_ok cs pend ps \<Longrightarrow> (\<And>i. qbytes i qs = qbytes i ps) \<Longrightarrow>
    (\<And>p. p \<in> set qs \<Longrightarrow> packet_ok (ch_id ` set cs) p) \<Longrightarrow> books_ok cs pend qs"
proof -
  assume b: "books_ok cs pend ps" and q: "\<And>i. qbytes i qs = qbytes i ps"
    and p: "\<And>p. p \<in> set qs \<Longrightarrow> packet_ok (ch_id ` set cs) p"
  have "channel_ok qs c = channel_ok ps c" for c using q by (simp add: channel_ok_def)
  then show ?thesis using b p by (simp add: books_ok_def)
qed

lemma books_snoc:
  assumes b: "books_ok cs pend ps" and p: "packet_ok (ch_id ` set cs) p"
    and f: "\<And>c. ch_id (f c) = ch_id c"
    and own: "\<And>c. c \<in> set cs \<Longrightarrow> ch_id c = i \<Longrightarrow> channel_ok ps c \<Longrightarrow> channel_ok (ps @ [p]) (f c)"
    and d: "pkt_channel p = i" "i \<in> ch_id ` set cs"
  shows "books_ok (update_first (\<lambda>c. ch_id c = i) f cs) pend (ps @ [p])"
proof (rule books_change [OF b _ f own _ d(2)])
  show "q \<in> set (ps @ [p]) \<Longrightarrow> packet_ok (ch_id ` set cs) q" for q
    using b p by (auto simp: books_ok_def)
qed (use d(1) in \<open>auto simp: qbytes_snoc data_for_def\<close>)

lemma ready_data:
  assumes s: "K s" and i: "i \<in> ch_id ` set (all_channels s)" "pkt_channel \<lparr>pkt_data = data, pkt_len = n, pkt_head = h\<rparr> = i"
    and d: "is_data \<lparr>pkt_data = data, pkt_len = n, pkt_head = h\<rparr>" "n \<le> length data" "length data < 2 ^ 64" "h \<le> n"
      "h = (if chr_at data 0 = SSH_MSG_CHANNEL_EXTENDED_DATA then 13 else 9)"
    and m: "unat (read_avail (get_chan i s)) + (n - h) \<le> unat (rwin (get_chan i s))"
  shows "ready data n h (upd_chan i (\<lambda>c. c\<lparr>read_avail := read_avail c + of_nat (n - h)\<rparr>) s)"
proof (cases "fault s")
  case True
  then show ?thesis
    using s by (auto simp: ready_def K_def J_def calm_def has_st_def upd_chan_def set_fault_def)
next
  case False
  let ?p = "\<lparr>pkt_data = data, pkt_len = n, pkt_head = h\<rparr>"
  let ?f = "\<lambda>c. c\<lparr>read_avail := read_avail c + of_nat (n - h)\<rparr>"
  let ?u = "upd_chan i ?f s"
  let ?t = "?u\<lparr>packets := packets s @ [?p], packAdd_state := NB_sent1\<rparr>"
  have inv: "chan_inv s" using s False by (simp add: K_def J_def)
  have own: "channel_ok (packets s @ [?p]) (?f c)"
    if "c \<in> set (all_channels s)" "ch_id c = i" "channel_ok (packets s) c" for c
  proof -
    have g: "get_chan i s = c" using get_chan_of [OF inv that(1,2)] .
    have "unat (read_avail c) + (n - h) \<le> unat (rwin c)" using m g by simp
    moreover from this have "unat (read_avail c) + (n - h) < 18446744073709551616"
      using unat_u32_lt [of "rwin c"] by linarith
    then have "unat (read_avail c + of_nat (n - h)) = unat (read_avail c) + (n - h)"
      by (simp add: unat_word_ariths unat_of_nat take_bit_nat_eq_self)
    moreover have "data_for (ch_id c) ?p" using d i(2) that(2) by (auto simp: data_for_def split: if_splits)
    ultimately show ?thesis using that(3) by (simp add: channel_ok_def qbytes_snoc)
  qed
  have all: "all_channels ?t = update_first (\<lambda>c. ch_id c = i) ?f (all_channels s)"
    using all_channels_upd_chan [of i ?f s] by (simp add: all_channels_def)
  have "packet_ok (ch_id ` set (all_channels s)) ?p" using d i by (simp add: packet_ok_def)
  then have "books_ok (all_channels ?t) (pending_channels s) (packets s @ [?p])"
    unfolding all using inv i own by (intro books_snoc) (simp_all add: chan_inv_def)
  moreover have "pending_channels ?t = pending_channels s" by (simp add: pending_channels_def)
  ultimately show ?thesis
    using s False inv by (simp add: ready_def K_def J_def calm_def chan_inv_def has_st_def)
qed

lemma ready_other:
  assumes s: "K s" and d: "chr_at data 0 \<noteq> SSH_MSG_CHANNEL_EXTENDED_DATA" "chr_at data 0 \<noteq> SSH_MSG_CHANNEL_DATA"
    "fault s \<or> (n \<le> length data \<and> length data < 2 ^ 64)"
  shows "ready data n 0 s"
proof (cases "fault s")
  case False
  let ?p = "\<lparr>pkt_data = data, pkt_len = n, pkt_head = 0\<rparr>"
  have "\<not> is_data ?p" using d by (simp add: is_data_def)
  then have c: "channel_ok (ps @ [?p]) c = channel_ok ps c" and p: "packet_ok ids ?p" for ps c ids
    using d False by (auto simp: packet_ok_def channel_ok_def qbytes_snoc data_for_def)
  have "books_ok cs pend (ps @ [?p])" if "books_ok cs pend ps" for cs pend ps
    using that by (auto simp: books_ok_def c p)
  then show ?thesis
    using s by (auto simp: ready_def K_def J_def calm_def chan_inv_def has_st_def all_channels_def pending_channels_def)
qed (use s in \<open>simp add: ready_def K_def J_def calm_def has_st_def\<close>)

subsubsection \<open>Cutting data to the window\<close>

lemma ucast_u32_nat: "(ucast (w :: u32) :: u64) = of_nat (unat w)"
  by (simp add: unsigned_of_nat)

lemma of_nat_below: "n < 18446744073709551616 \<Longrightarrow> m < 18446744073709551616 \<Longrightarrow> (of_nat n :: u64) < of_nat m \<longleftrightarrow> n < m"
  by (simp add: word_less_nat_alt unat_of_nat_u64)

lemma clip_words:
  fixes ra :: u64 and rw :: u32
  assumes "h \<le> n" "n < 9223372036854775808" "h \<le> 13" "unat ra \<le> unat rw"
  shows clip_above: "ucast rw < ra + of_nat n - of_nat h \<longleftrightarrow> unat rw < unat ra + (n - h)"
    and clip_above_eq: "ucast rw \<le> ra + of_nat n - of_nat h \<longleftrightarrow> unat rw \<le> unat ra + (n - h)"
    and clip_len: "unat (ucast rw - ra + of_nat h) = unat rw - unat ra + h"
    and clip_diff: "ucast rw - ra + of_nat h - of_nat h = (of_nat (unat rw - unat ra) :: u64)"
    and keep_diff: "(of_nat n :: u64) - of_nat h = of_nat (n - h)"
proof -
  have ra: "ra = of_nat (unat ra)" by simp
  have b: "unat rw < 4294967296" by (rule unat_u32_lt)
  have sum: "ra + of_nat n - of_nat h = of_nat (unat ra + (n - h))"
    using assms(1) by (simp add: of_nat_diff)
  show "ucast rw < ra + of_nat n - of_nat h \<longleftrightarrow> unat rw < unat ra + (n - h)"
    unfolding sum ucast_u32_nat using assms b by (intro of_nat_below) linarith+
  have "\<not> of_nat (unat ra + (n - h)) < (of_nat (unat rw) :: u64) \<longleftrightarrow> \<not> unat ra + (n - h) < unat rw"
    using assms b by (subst of_nat_below) linarith+
  then show "ucast rw \<le> ra + of_nat n - of_nat h \<longleftrightarrow> unat rw \<le> unat ra + (n - h)"
    unfolding sum ucast_u32_nat by (simp add: not_less)
  have d: "ucast rw - ra = of_nat (unat rw - unat ra)"
    unfolding of_nat_diff [OF assms(4)] by simp
  have "unat rw - unat ra + h < 18446744073709551616" using assms b by linarith
  then show "unat (ucast rw - ra + of_nat h) = unat rw - unat ra + h"
    unfolding d of_nat_add [symmetric] by (simp add: unat_of_nat_u64 del: of_nat_add)
  show "ucast rw - ra + of_nat h - of_nat h = (of_nat (unat rw - unat ra) :: u64)"
    unfolding d by simp
  show "(of_nat n :: u64) - of_nat h = of_nat (n - h)" using assms(1) by (simp add: of_nat_diff)
qed

lemma calm_upd_chan [simp]: "calm (upd_chan i f s) = calm s"
  by (simp add: calm_def)

lemma K_faulty: "fault s \<Longrightarrow> calm s \<Longrightarrow> K s"
  by (simp add: K_def J_def)

lemma ready_faulty: "fault s \<Longrightarrow> calm s \<Longrightarrow> ready data n h s"
  by (simp add: ready_def K_def J_def calm_def has_st_def)

definition handled :: "bytes \<Rightarrow> (rc \<times> session) + (nat \<times> nat \<times> session) \<Rightarrow> bool" where
  "handled data r \<longleftrightarrow> (case r of Inl q \<Rightarrow> K (snd q) | Inr (n, h, s) \<Rightarrow> ready data n h s)"

lemma handled_simps [simp]: "handled data (Inl q) = K (snd q)" "handled data (Inr (n, h, s)) = ready data n h s"
  by (simp_all add: handled_def)

lemma get_chan_note [simp]: "get_chan i (note_err e s) = get_chan i s"
  by (simp add: note_err_def get_chan_def find_chan_def all_channels_def)

lemma note_fields [simp]: "fault (note_err e s) = fault s" "calm (note_err e s) = calm s"
  "all_channels (note_err e s) = all_channels s" "packets (note_err e s) = packets s"
  by (simp_all add: note_err_def calm_def has_st_def all_channels_def)

lemma found: "i \<in> ch_id ` set (all_channels s) \<Longrightarrow> find_chan i s \<noteq> None"
  by (auto simp: find_chan_def find_None_iff)

lemma found_ok: "K s \<Longrightarrow> \<not> fault s \<Longrightarrow> i \<in> ch_id ` set (all_channels s) \<Longrightarrow> channel_ok (packets s) (get_chan i s)"
proof -
  assume s: "K s" "\<not> fault s" and i: "i \<in> ch_id ` set (all_channels s)"
  obtain c where c: "find_chan i s = Some c" using found [OF i] by blast
  show ?thesis unfolding get_chan_found [OF c] using J_found [OF K_J [OF s(1)] c s(2)] .
qed

lemma channel_ids_upd: "(\<And>c. ch_id (f c) = ch_id c) \<Longrightarrow> ch_id ` set (all_channels (upd_chan i f s)) = ch_id ` set (all_channels s)"
proof -
  assume f: "\<And>c. ch_id (f c) = ch_id c"
  have "map ch_id (all_channels (upd_chan i f s)) = map ch_id (all_channels s)"
    unfolding all_channels_upd_chan using f by (intro map_update_first) simp
  then show ?thesis by (metis list.set_map)
qed

lemma fault_upd_chan: "i \<in> ch_id ` set (all_channels s) \<Longrightarrow> fault (upd_chan i f s) = fault s"
  by (auto simp: upd_chan_def all_channels_def)

lemma queue_entry:
  assumes s: "K s" and f: "\<not> fault s" and i: "i \<in> ch_id ` set (all_channels s)" "i = ssh2_ntohu32 (drop 1 data)"
    and d: "chr_at data 0 = SSH_MSG_CHANNEL_EXTENDED_DATA \<or> chr_at data 0 = SSH_MSG_CHANNEL_DATA"
      "h = (if chr_at data 0 = SSH_MSG_CHANNEL_EXTENDED_DATA then 13 else 9)"
      "h \<le> n" "n \<le> length data" "length data < 2 ^ 64"
    and m: "unat (read_avail (get_chan i s)) + (n - h) \<le> unat (rwin (get_chan i s))"
    and x: "x = of_nat (n - h)"
  shows "ready data n h (upd_chan i (\<lambda>c. c\<lparr>read_avail := read_avail c + x\<rparr>) s)"
  unfolding x
  by (rule ready_data [OF s i(1)]) (use d i(2) m in \<open>simp_all add: pkt_channel_def is_data_def disj_commute\<close>)

lemma data_queued_handled:
  assumes s: "K s" and i: "i \<in> ch_id ` set (all_channels s)" "i = ssh2_ntohu32 (drop 1 data)"
    and d: "chr_at data 0 = SSH_MSG_CHANNEL_EXTENDED_DATA \<or> chr_at data 0 = SSH_MSG_CHANNEL_DATA"
      "h = (if chr_at data 0 = SSH_MSG_CHANNEL_EXTENDED_DATA then 13 else 9)" "h \<le> n"
      "fault s \<or> (n \<le> length data \<and> length data < 2 ^ 63)"
  shows "handled data (data_queued i h n s)"
proof -
  let ?c = "get_chan i s"
  define n1 where "n1 = (if unat (packet_size (ch_remote ?c)) < n - h then unat (packet_size (ch_remote ?c)) + h else n)"
  define t where "t = (if unat (packet_size (ch_remote ?c)) < n - h
    then note_err LIBSSH2_ERROR_CHANNEL_PACKET_EXCEEDED s else s)"
  define u where "u = upd_chan i (upd_cremote (\<lambda>r. r\<lparr>cd_eof := False\<rparr>)) t"
  define big where "big \<longleftrightarrow> read_avail ?c + of_nat n1 - of_nat h > ucast (rwin ?c)"
  define dl :: u64 where "dl = (if big then ucast (rwin ?c) - read_avail ?c + of_nat h else of_nat n1)"
  define v where "v = (if big then note_err LIBSSH2_ERROR_CHANNEL_WINDOW_EXCEEDED u else u)"
  have t: "K t" "fault t = fault s" "all_channels t = all_channels s" "get_chan i t = ?c"
    using s by (simp_all add: t_def)
  have u: "K u" using t(1) by (simp add: u_def K_side side_update_def upd_cremote_def)
  have uc: "read_avail (get_chan i u) = read_avail ?c" "rwin (get_chan i u) = rwin ?c"
    using found [of i t] i(1) t by (simp_all add: u_def get_chan_upd upd_cremote_def)
  have v: "K v" "fault v = fault s" "calm v" "get_chan i v = get_chan i u" "i \<in> ch_id ` set (all_channels v)"
    using u i(1) t by (simp_all add: v_def K_def u_def fault_upd_chan channel_ids_upd upd_cremote_def)
  have e: "data_queued i h n s =
      (if (ucast (rwin ?c) :: u64) \<le> read_avail ?c
       then Inl (padd_done 0 (note_err LIBSSH2_ERROR_CHANNEL_WINDOW_EXCEEDED t))
       else Inr (unat dl, h, upd_chan i (\<lambda>c. c\<lparr>read_avail := read_avail c + (dl - of_nat h)\<rparr>) v))"
    unfolding data_queued_def Let_def n1_def t_def u_def v_def dl_def big_def
    by (simp split: if_split)
  show ?thesis
  proof (cases "fault s")
    case True
    then show ?thesis
      using t v by (simp add: e ready_faulty)
  next
    case False
    have ok: "unat (read_avail ?c) \<le> unat (rwin ?c)"
      using found_ok [OF s False i(1)] by (simp add: channel_ok_def)
    have n1: "h \<le> n1" "n1 < 9223372036854775808" "n1 \<le> length data" "h \<le> 13" "n1 \<le> n"
      using d False by (auto simp: n1_def)
    have b: "big \<longleftrightarrow> unat (rwin ?c) < unat (read_avail ?c) + (n1 - h)"
      unfolding big_def using clip_above [OF n1(1,2,4) ok] .
    define k where "k = (if big then unat (rwin ?c) - unat (read_avail ?c) else n1 - h)"
    have dl: "unat dl = k + h" "dl - of_nat h = of_nat k"
      using clip_len [OF n1(1,2,4) ok] clip_diff [OF n1(1,2,4) ok] keep_diff [OF n1(1,2,4) ok] n1
      by (simp_all add: dl_def k_def unat_of_nat_u64)
    have "ready data (k + h) h (upd_chan i (\<lambda>c. c\<lparr>read_avail := read_avail c + of_nat k\<rparr>) v)"
    proof (rule queue_entry [OF v(1) _ v(5) i(2) d(1,2)])
      show "unat (read_avail (get_chan i v)) + (k + h - h) \<le> unat (rwin (get_chan i v))"
        using ok b by (simp add: v(4) uc k_def)
      show "k + h \<le> length data" using n1 b ok by (auto simp: k_def)
    qed (use False v d in auto)
    then show ?thesis using t by (simp add: e dl)
  qed
qed

subsection \<open>\<open>ssh2_packet_add\<close>\<close>

locale packet_clients = calm_sender tsend for tsend :: sender +
  fixes kex :: reader and disc :: "bytes \<Rightarrow> session \<Rightarrow> rc \<times> session"
  assumes kex_keeps: "J s \<Longrightarrow> J (snd (kex s))"
    and disc_fault: "fault s \<Longrightarrow> fault (snd (disc d s))"
begin

lemma data_ignored_K:
  assumes s: "K s" and i: "i \<in> ch_id ` set (all_channels s)" and n: "13 \<le> n" "fault s \<or> n < 2 ^ 63"
  shows "K (snd (data_ignored tsend i n s))"
proof -
  let ?c = "get_chan i s"
  define big where "big \<longleftrightarrow> ucast (rwin ?c) \<le> read_avail ?c + of_nat n - of_nat 13"
  define dl :: u64 where "dl = (if big then ucast (rwin ?c) - read_avail ?c + of_nat 13 else of_nat n)"
  define t where "t = upd_chan i (upd_rwin (\<lambda>w. w - ucast (dl - of_nat 13))) s"
  have e: "data_ignored tsend i n s = padd_jump1 tsend (unat dl) (t\<lparr>packAdd_channelp := Some i\<rparr>)"
    by (simp add: data_ignored_def Let_def dl_def big_def t_def)
  have "K t"
  proof (cases "fault s")
    case True
    then show ?thesis using s unfolding t_def by (intro K_faulty) (simp_all add: K_def)
  next
    case False
    have ok: "channel_ok (packets s) ?c" by (rule found_ok [OF s False i])
    then have le: "unat (read_avail ?c) \<le> unat (rwin ?c)" by (simp add: channel_ok_def)
    have n1: "n < 9223372036854775808" using n False by simp
    note clip = n(1) n1 order.refl le
    have b: "big \<longleftrightarrow> unat (rwin ?c) \<le> unat (read_avail ?c) + (n - 13)"
      unfolding big_def by (rule clip_above_eq [OF clip])
    define k where "k = (if big then unat (rwin ?c) - unat (read_avail ?c) else n - 13)"
    have dl: "dl - of_nat 13 = of_nat k"
      unfolding dl_def k_def by (simp only: if_distrib [of "\<lambda>x. x - of_nat 13"] clip_diff [OF clip] keep_diff [OF clip] if_distrib [of of_nat])
    have k: "unat (read_avail ?c) + k \<le> unat (rwin ?c)" using b le by (auto simp: k_def)
    then have "k < 4294967296" using unat_u32_lt [of "rwin ?c"] by linarith
    then have "unat (ucast (of_nat k :: u64) :: u32) = k"
      by (simp add: unsigned_ucast_eq unat_of_nat take_bit_nat_eq_self)
    then have "unat (rwin ?c - ucast (dl - of_nat 13)) = unat (rwin ?c) - k"
      unfolding dl using k by (subst unat_sub) (simp_all add: word_le_nat_alt)
    then show ?thesis
      unfolding t_def using ok k by (intro K_upd_chan [OF s]) (simp_all add: upd_rwin_def channel_ok_def)
  qed
  then show ?thesis by (simp add: e padd_jump1_K)
qed

lemma channel_data_handled:
  assumes s: "K s" and d: "chr_at data 0 = SSH_MSG_CHANNEL_EXTENDED_DATA \<or> chr_at data 0 = SSH_MSG_CHANNEL_DATA"
    "fault s \<or> (n \<le> length data \<and> length data < 2 ^ 63)"
  shows "handled data (padd_channel_data tsend data n s)"
proof -
  let ?h = "if chr_at data 0 = SSH_MSG_CHANNEL_EXTENDED_DATA then 13 else 9 :: nat"
  show ?thesis
  proof (cases "msg_channel ?h data n s")
    case None
    then show ?thesis using s by (simp add: padd_channel_data_def Let_def)
  next
    case (Some i)
    note i = msg_channel_id [OF Some]
    have "K (snd (data_ignored tsend i n s))" if "chr_at data 0 = SSH_MSG_CHANNEL_EXTENDED_DATA"
      using i that d by (intro data_ignored_K [OF s]) auto
    moreover have "handled data (data_queued i ?h n s)"
      using i d by (intro data_queued_handled [OF s]) (blast | rule refl)+
    ultimately show ?thesis using Some by (simp add: padd_channel_data_def Let_def)
  qed
qed

lemma switch_handled:
  assumes "K s" "fault s \<or> (n \<le> length data \<and> length data < 2 ^ 63)"
  shows "handled data (padd_switch tsend data n s)"
proof -
  have "K (snd (padd_disconnect s))"
    using assms(1) by (simp add: padd_disconnect_def)
  moreover have "ready data n 0 s"
    if "chr_at data 0 \<noteq> SSH_MSG_CHANNEL_EXTENDED_DATA" "chr_at data 0 \<noteq> SSH_MSG_CHANNEL_DATA"
    using assms that by (intro ready_other) auto
  ultimately show ?thesis
    using assms unfolding padd_switch_def Let_def
    by (intro all_if [where W = "handled data"] channel_data_handled)
       (simp_all add: padd_ext_info_K padd_global_K padd_eof_K padd_request_K padd_close_K padd_open_K padd_window_K)
qed

lemma enqueue_K:
  assumes "ready data n h s"
  shows "J (snd (padd_enqueue data n h (s\<lparr>packAdd_state := NB_sent\<rparr>)))"
proof -
  obtain ok t where a: "ssh2_alloc (s\<lparr>packAdd_state := NB_sent\<rparr>) = (ok, t)" by fastforce
  let ?q = "\<lambda>s. s\<lparr>packets := packets s @ [\<lparr>pkt_data = data, pkt_len = n, pkt_head = h\<rparr>], packAdd_state := NB_sent1\<rparr>"
  have r: "J (?q s)" using assms by (simp add: ready_def K_def)
  have t: "same_core (s\<lparr>packAdd_state := NB_sent\<rparr>) t" using a by (rule alloc_core)
  then have "same_core (?q s) (?q t)" by (auto simp: same_core_def)
  then have "J (?q t)" using r by (rule same_core_J)
  moreover have "ok \<or> fault t"
    using a r by (auto simp: J_def ssh2_alloc_def split: list.splits)
  ultimately show ?thesis
    by (auto simp: padd_enqueue_def a padd_done_def J_def)
qed

lemma padd_rekey_J: "J s \<Longrightarrow> J (snd (padd_rekey kex s))"
  unfolding padd_rekey_def by (intro J.I_intros kex_keeps) (simp_all add: padd_done_def)

lemma done_J: "J s \<Longrightarrow> J (snd (padd_done rc s))"
  by (simp add: padd_done_def)

lemma finish_J: "J s \<Longrightarrow> J (snd (padd_finish kex data n h s))"
proof (cases "packAdd_state s = NB_sent")
  case True
  assume "J s"
  then have f: "fault s" using True by (simp add: J_def)
  obtain rc t where e: "padd_enqueue data n h s = (rc, t)" by fastforce
  have "fault t" using e f by (auto simp: padd_enqueue_def padd_done_def ssh2_alloc_def split: list.splits if_splits)
  then have "J t" by (simp add: J_def)
  then show ?thesis using True by (simp add: padd_finish_def e padd_rekey_J done_J)
qed (simp add: padd_finish_def padd_rekey_J done_J)

lemma ready_finish_J: "ready data n h s \<Longrightarrow> J (snd (padd_finish kex data n h (s\<lparr>packAdd_state := NB_sent\<rparr>)))"
  using enqueue_K [of data n h s]
  by (cases "padd_enqueue data n h (s\<lparr>packAdd_state := NB_sent\<rparr>)") (simp add: padd_finish_def padd_rekey_J done_J)

text \<open>Strict key exchange is over before the books are kept.\<close>

lemma strict_fault: "fault s \<Longrightarrow> strict_violation disc what s = (rc, t) \<Longrightarrow> fault t"
  using disc_fault [of "s\<lparr>socket_st := SOCKET_DISCONNECTED, packAdd_state := NB_idle\<rparr>"
      "str ''strict KEX violation: '' @ str what"]
  by (auto simp: strict_violation_def ssh2_err_def split: prod.splits)

lemma kexinit_fault:
  assumes "fault s" "calm s" "padd_kexinit disc data n seq s = (r, t)"
  shows "fault t \<and> (r = None \<longrightarrow> calm t)"
  using assms unfolding padd_kexinit_def Let_def
  by (auto simp: ssh2_err_def calm_def has_st_def intro: strict_fault [rotated] split: if_splits option.splits prod.splits)

lemma padd_strict_K:
  assumes s: "K s" and e: "padd_strict disc data n seq s = (r, t)"
  shows "(r = None \<longrightarrow> K t) \<and> (r \<noteq> None \<longrightarrow> J t) \<and> (fault s \<longrightarrow> fault t)"
proof (cases "has_st SSH2_STATE_INITIAL_KEX s")
  case False
  then show ?thesis using e s by (simp add: padd_strict_def)
next
  case True
  then have f: "fault s" "calm s" using s by (auto simp: K_def J_def)
  obtain q u where k: "(if chr_at data 0 = SSH_MSG_KEXINIT then padd_kexinit disc data n seq s else (None, s)) = (q, u)"
    by fastforce
  have u: "fault u \<and> (q = None \<longrightarrow> calm u)" using k f kexinit_fault [OF f] by (auto split: if_splits)
  have "fault t \<and> (r = None \<longrightarrow> calm t)"
    using e u True unfolding padd_strict_def Let_def k
    by (auto intro: strict_fault [rotated] split: if_splits option.splits prod.splits)
  then show ?thesis by (auto simp: K_faulty J_def)
qed

lemma start_J:
  assumes s: "K s" and d: "fault s \<or> (n \<le> length data \<and> length data < 2 ^ 63)"
  shows "J (snd (padd_start tsend kex disc data n seq s))"
proof -
  obtain r t where e: "padd_strict disc data n seq s = (r, t)" by fastforce
  note t = padd_strict_K [OF s e]
  show ?thesis
  proof (cases r)
    case (Some rc)
    then show ?thesis using t by (simp add: padd_start_def e)
  next
    case None
    then have kt: "K t" and "fault t \<or> (n \<le> length data \<and> length data < 2 ^ 63)" using t d by auto
    then have "handled data (padd_switch tsend data n t)" by (rule switch_handled)
    then show ?thesis
      using kt None by (auto simp: padd_start_def e handled_def K_J finish_J ready_finish_J split: sum.splits)
  qed
qed

lemma add_J:
  assumes "K s"
  shows "J (snd (ssh2_packet_add tsend kex disc data n macstate seq s))"
proof -
  let ?s = "c_assert (data \<noteq> [] \<and> n \<le> length data \<and> length data < 2 ^ 63) s"
  have k: "K ?s" using assms by simp
  have d: "fault ?s \<or> (n \<le> length data \<and> length data < 2 ^ 63)" by (auto simp: c_assert_def set_fault_def)
  have "J (snd (padd_start tsend kex disc data n seq (?s\<lparr>packAdd_state := NB_allocated\<rparr>)))"
    using k d by (intro start_J) simp_all
  moreover have "J (snd (padd_start tsend kex disc data n seq ?s))" by (rule start_J [OF k d])
  ultimately show ?thesis
    using k by (auto simp: ssh2_packet_add_def Let_def K_J padd_jump1_K padd_jump2_K padd_jump3_K padd_jump4_K
        padd_jump5_K padd_jump_authagent_K simp del: c_assert_def split: nb_state.split)
qed

end

end
