(* ===== verification/ApiInv.thy ===== *)
theory ApiInv
  imports PacketInv
begin

text \<open>The operations on channels and the key exchange keep the books.\<close>

unbundle bit_operations_syntax

subsection \<open>The packet queue\<close>

lemma ask_loop_found: "ask_loop ok strict bef qs = Some (Inl (p, ps)) \<Longrightarrow>
    \<exists>a b. qs = a @ p # b \<and> ps = bef @ a @ b \<and> ok p \<and> (\<forall>q \<in> set a. \<not> ok q)"
proof (induction ok strict bef qs rule: ask_loop.induct)
  case (2 ok strict bef q r)
  show ?case
  proof (cases "ok q")
    case True
    then show ?thesis using 2(2) by (intro exI [of _ "[]"] exI [of _ r]) auto
  next
    case False
    then have "ask_loop ok strict (bef @ [q]) r = Some (Inl (p, ps))" "\<not> strict"
      using 2(2) by (auto split: if_splits)
    then obtain a b where "r = a @ p # b" "ps = (bef @ [q]) @ a @ b" "ok p" "\<forall>q \<in> set a. \<not> ok q"
      using 2(1) False by blast
    then show ?thesis using False by (intro exI [of _ "q # a"] exI [of _ b]) auto
  qed
qed simp

lemma ask_loop_none: "ask_loop ok strict bef qs = None \<Longrightarrow> \<forall>q \<in> set qs. \<not> ok q"
  by (induction ok strict bef qs rule: ask_loop.induct) (auto split: if_splits)

lemma ask_loop_strict: "ask_loop ok strict bef qs = Some (Inr u) \<Longrightarrow> strict"
  by (induction ok strict bef qs rule: ask_loop.induct) (auto split: if_splits)

lemma books_drop_packet: "books_ok cs pend (a @ p # b) \<Longrightarrow> \<not> is_data p \<Longrightarrow> books_ok cs pend (a @ b)"
  by (rule books_packets, assumption) (auto simp: qbytes_def data_for_def books_ok_def)

locale packet_queue =
  fixes disc :: disconnector
  assumes disc_fault: "fault s \<Longrightarrow> fault (snd (disc d s))"
begin

lemma ask_fault: "fault s \<Longrightarrow> fault (snd (snd (ssh2_packet_ask disc t ofs m s)))"
  using disc_fault [of s "str ''strict KEX violation: unexpected packet type''"]
  by (auto simp: ssh2_packet_ask_def ssh2_err_def split: option.split sum.split prod.split)

lemma ask_J:
  assumes "J s" "t \<noteq> SSH_MSG_CHANNEL_DATA" "t \<noteq> SSH_MSG_CHANNEL_EXTENDED_DATA"
  shows "J (snd (snd (ssh2_packet_ask disc t ofs m s)))"
proof (cases "fault s")
  case True
  then show ?thesis using ask_fault by (simp add: J_def)
next
  case False
  let ?l = "ask_loop (packet_matches t ofs m) (kex_strict s \<and> has_st SSH2_STATE_INITIAL_KEX s) [] (packets s)"
  have init: "\<not> has_st SSH2_STATE_INITIAL_KEX s" using assms(1) False by (simp add: J_def)
  show ?thesis
  proof (cases "?l")
    case None
    then show ?thesis using assms(1) by (simp add: ssh2_packet_ask_def)
  next
    case (Some r)
    show ?thesis
    proof (cases r)
      case (Inl q)
      obtain p ps where q: "q = (p, ps)" by fastforce
      obtain a b where ab: "packets s = a @ p # b" "ps = a @ b" "packet_matches t ofs m p"
        using ask_loop_found Some Inl q by fastforce
      have "\<not> is_data p" using ab(3) assms(2,3) by (auto simp: packet_matches_def is_data_def)
      then have "J (s\<lparr>packets := ps\<rparr>)"
        using ab books_drop_packet
        by (intro J_same_rest [OF assms(1)]) (simp_all add: all_channels_def pending_channels_def has_st_def)
      then show ?thesis using Some Inl q by (simp add: ssh2_packet_ask_def)
    next
      case (Inr u)
      then show ?thesis using ask_loop_strict Some init by blast
    qed
  qed
qed

lemma askv_J: "J s \<Longrightarrow> SSH_MSG_CHANNEL_DATA \<notin> set ts \<Longrightarrow> SSH_MSG_CHANNEL_EXTENDED_DATA \<notin> set ts \<Longrightarrow>
    J (snd (snd (packet_askv disc ts ofs m s)))"
proof (induction ts arbitrary: s)
  case (Cons t ts)
  then show ?case
    using ask_J [of s t ofs m]
    by (cases "ssh2_packet_ask disc t ofs m s" rule: prod_cases3) simp
qed simp

end

subsection \<open>Removing a channel\<close>

lemma all_channels_unlink: "all_channels (unlink_chan i s) = filter (\<lambda>c. ch_id c \<noteq> i) (all_channels s)"
proof -
  have "concat (map ls_queue (map (\<lambda>l. l\<lparr>ls_queue := filter P (ls_queue l)\<rparr>) ls)) =
      filter P (concat (map ls_queue ls))" for P and ls :: "listener list"
    by (induction ls) simp_all
  then show ?thesis by (simp add: all_channels_def unlink_chan_def)
qed

lemma qbytes_filter: "j \<noteq> i \<Longrightarrow> qbytes j (filter (\<lambda>p. \<not> data_for i p) ps) = qbytes j ps"
  by (induction ps) (auto simp: qbytes_def data_for_def)

lemma books_remove:
  assumes "books_ok cs pend ps" "i \<in> ch_id ` set cs"
  shows "books_ok (filter (\<lambda>c. ch_id c \<noteq> i) cs) pend (filter (\<lambda>p. \<not> data_for i p) ps)"
proof -
  let ?cs = "filter (\<lambda>c. ch_id c \<noteq> i) cs" and ?ps = "filter (\<lambda>p. \<not> data_for i p) ps"
  have dist: "distinct (map ch_id (?cs @ pend))"
    using assms(1) by (auto simp: books_ok_def distinct_map_filter)
  have "channel_ok ?ps c = channel_ok ps c" if "c \<in> set (?cs @ pend)" for c
  proof -
    have "ch_id c \<noteq> i" using assms that by (auto simp: books_ok_def)
    then show ?thesis by (simp add: channel_ok_def qbytes_filter)
  qed
  moreover have "channel_ok ps c" if "c \<in> set (?cs @ pend)" for c
    using assms(1) that by (auto simp: books_ok_def)
  ultimately have "channel_ok ?ps c" if "c \<in> set (?cs @ pend)" for c using that by blast
  moreover have "packet_ok (ch_id ` set ?cs) p" if "p \<in> set ?ps" for p
  proof -
    have "packet_ok (ch_id ` set cs) p" "\<not> data_for i p" using assms(1) that by (auto simp: books_ok_def)
    then show ?thesis by (auto simp: packet_ok_def data_for_def split: if_splits)
  qed
  ultimately show ?thesis using dist unfolding books_ok_def by blast
qed

lemma match_channel:
  assumes "5 \<le> length d"
  shows "slice 1 4 d = ssh2_htonu32 i \<longleftrightarrow> ssh2_ntohu32 (drop 1 d) = i"
proof -
  have l: "length (slice 1 4 d) = 4" using assms by (simp add: slice_def)
  have "drop 4 (drop 1 d) = drop 5 d" by simp
  then have "drop 1 d = slice 1 4 d @ drop 5 d" unfolding slice_def by (metis append_take_drop_id)
  then have "ssh2_ntohu32 (drop 1 d) = ssh2_ntohu32 (slice 1 4 d)" using l by (metis ntohu32_append)
  then show ?thesis using l htonu32_ntohu32 [OF l] by (metis ntohu32_htonu32)
qed

abbreviation "data_match i p \<equiv> packet_matches SSH_MSG_CHANNEL_DATA 1 (ssh2_htonu32 i) p \<or>
  packet_matches SSH_MSG_CHANNEL_EXTENDED_DATA 1 (ssh2_htonu32 i) p"

lemma data_match_iff: "packet_ok ids p \<Longrightarrow> data_match i p \<longleftrightarrow> data_for i p"
  using match_channel [of "pkt_data p" i]
  by (auto simp: packet_matches_def data_for_def is_data_def pkt_channel_def packet_ok_def)

context packet_queue begin

lemma ask_found:
  assumes "\<not> has_st SSH2_STATE_INITIAL_KEX s"
  obtains "\<forall>p \<in> set (packets s). \<not> packet_matches t ofs m p" "ssh2_packet_ask disc t ofs m s = (- 1, [], s)"
  | a p b d where "packets s = a @ p # b" "packet_matches t ofs m p"
      "ssh2_packet_ask disc t ofs m s = (0, d, s\<lparr>packets := a @ b\<rparr>)"
proof -
  let ?l = "ask_loop (packet_matches t ofs m) (kex_strict s \<and> has_st SSH2_STATE_INITIAL_KEX s) [] (packets s)"
  consider "?l = None" | p ps where "?l = Some (Inl (p, ps))" | u where "?l = Some (Inr u)"
    by (metis not_None_eq obj_sumE surj_pair)
  then show thesis
  proof cases
    case 1
    then show thesis using ask_loop_none [OF 1] by (intro that(1)) (auto simp: ssh2_packet_ask_def)
  next
    case 2
    then show thesis using ask_loop_found [OF 2] by (auto simp: ssh2_packet_ask_def intro: that(2))
  next
    case 3
    then show thesis using ask_loop_strict [OF 3] assms by blast
  qed
qed

lemma purge_filter:
  "\<not> has_st SSH2_STATE_INITIAL_KEX s \<Longrightarrow> length (packets s) < n \<Longrightarrow>
   purge_loop disc i n s = s\<lparr>packets := filter (\<lambda>p. \<not> data_match i p) (packets s)\<rparr>"
proof (induction n arbitrary: s)
  case (Suc n)
  have again: "purge_loop disc i n (s\<lparr>packets := a @ b\<rparr>) =
      s\<lparr>packets := filter (\<lambda>p. \<not> data_match i p) (packets s)\<rparr>"
    if "packets s = a @ p # b" "data_match i p" for a p b
    using Suc that by (simp add: has_st_def)
  show ?case
  proof (cases rule: ask_found [OF Suc.prems(1), of SSH_MSG_CHANNEL_DATA 1 "ssh2_htonu32 i"])
    case 1
    note none = 1
    show ?thesis
    proof (cases rule: ask_found [OF Suc.prems(1), of SSH_MSG_CHANNEL_EXTENDED_DATA 1 "ssh2_htonu32 i"])
      case 1
      then have "filter (\<lambda>p. \<not> data_match i p) (packets s) = packets s"
        using none by (intro filter_True) blast
      then show ?thesis using 1 none by simp
    next
      case (2 a p b d)
      then show ?thesis using none again by simp
    qed
  next
    case (2 a p b d)
    then show ?thesis using again by simp
  qed
qed simp

lemma purge_fault: "fault s \<Longrightarrow> fault (purge_loop disc i n s)"
proof (induction n arbitrary: s)
  case (Suc n)
  then show ?case
    using ask_fault [of s] ask_fault
    by (auto split: prod.splits)
       (metis snd_conv ask_fault)+
qed (simp add: set_fault_def)

lemma books_remove_any:
  assumes "books_ok cs pend ps"
  shows "books_ok (filter (\<lambda>c. ch_id c \<noteq> i) cs) pend (filter (\<lambda>p. \<not> data_match i p) ps)"
proof -
  have p: "packet_ok (ch_id ` set cs) p" if "p \<in> set ps" for p using assms that by (simp add: books_ok_def)
  then have e: "filter (\<lambda>p. \<not> data_match i p) ps = filter (\<lambda>p. \<not> data_for i p) ps"
    using data_match_iff by (intro filter_cong) blast+
  show ?thesis
  proof (cases "i \<in> ch_id ` set cs")
    case True
    then show ?thesis unfolding e using assms by (rule books_remove [rotated])
  next
    case False
    then have "filter (\<lambda>c. ch_id c \<noteq> i) cs = cs" by (intro filter_True) blast
    moreover have "filter (\<lambda>p. \<not> data_for i p) ps = ps"
      using p False by (intro filter_True) (auto simp: packet_ok_def data_for_def)
    ultimately show ?thesis using assms e by simp
  qed
qed

lemma remove_J:
  assumes "J s"
  shows "J (purge_packets disc i (unlink_chan i s))" "J (unlink_chan i (purge_packets disc i s))"
proof -
  let ?t = "(unlink_chan i s)\<lparr>packets := filter (\<lambda>p. \<not> data_match i p) (packets s)\<rparr>"
  have "J (purge_packets disc i (unlink_chan i s)) \<and> J (unlink_chan i (purge_packets disc i s))"
  proof (cases "fault s")
    case True
    then show ?thesis
      using purge_fault [of "unlink_chan i s"] purge_fault [of s]
      by (simp add: J_def purge_packets_def unlink_chan_def del: purge_loop.simps)
  next
    case False
    then have init: "\<not> has_st SSH2_STATE_INITIAL_KEX s" using assms by (simp add: J_def)
    have "purge_packets disc i (unlink_chan i s) = ?t" "unlink_chan i (purge_packets disc i s) = ?t"
      using init by (simp_all add: purge_packets_def purge_filter unlink_chan_def has_st_def del: purge_loop.simps)
    moreover have "all_channels ?t = filter (\<lambda>c. ch_id c \<noteq> i) (all_channels s)"
      using all_channels_unlink [of i s] by (simp add: all_channels_def)
    then have "J ?t"
      using books_remove_any [of "all_channels s" "pending_channels s" "packets s" i]
      by (intro J_same_rest [OF assms]) (simp_all add: unlink_chan_def pending_channels_def has_st_def)
    ultimately show ?thesis by simp
  qed
  then show "J (purge_packets disc i (unlink_chan i s))" "J (unlink_chan i (purge_packets disc i s))" by auto
qed

end

subsection \<open>Waiting for packets\<close>

locale channel_clients = packet_queue disc for disc :: disconnector +
  fixes tsend :: sender and tread :: reader
  assumes tsend_J: "J s \<Longrightarrow> J (snd (tsend p d d2 s))"
    and tread_J: "J s \<Longrightarrow> J (snd (tread s))"

sublocale channel_clients \<subseteq> adjusting J tsend
  by unfold_locales (rule tsend_J J_upd_chan; assumption)+

context channel_clients begin

lemma require_loop_J:
  assumes "t \<noteq> SSH_MSG_CHANNEL_DATA" "t \<noteq> SSH_MSG_CHANNEL_EXTENDED_DATA"
  shows "J s \<Longrightarrow> J (snd (snd (snd (require_loop tread disc t ofs m n start s))))"
proof (induction n arbitrary: start s)
  case (Suc n)
  show ?case
    unfolding require_loop.simps Let_def
    by (intro J.I_intros tread_J ask_J J.now_I Suc.IH assms) (simp_all add: Suc.prems)
qed simp

lemma require_J:
  assumes "t \<noteq> SSH_MSG_CHANNEL_DATA" "t \<noteq> SSH_MSG_CHANNEL_EXTENDED_DATA" "J s"
  shows "J (snd (snd (snd (ssh2_packet_require tread disc t ofs m start s))))"
  unfolding ssh2_packet_require_def
  by (intro J.I_intros require_loop_J ask_J J.now_I assms) (simp_all add: assms)

lemma requirev_loop_J:
  assumes "SSH_MSG_CHANNEL_DATA \<notin> set ts" "SSH_MSG_CHANNEL_EXTENDED_DATA \<notin> set ts"
  shows "J s \<Longrightarrow> J (snd (snd (snd (requirev_loop tread disc ts ofs m n start s))))"
proof (induction n arbitrary: start s)
  case (Suc n)
  show ?case
    unfolding requirev_loop.simps Let_def
    by (intro J.I_intros tread_J askv_J J.now_I Suc.IH assms) (simp_all add: Suc.prems)
qed simp

lemma requirev_J:
  assumes "SSH_MSG_CHANNEL_DATA \<notin> set ts" "SSH_MSG_CHANNEL_EXTENDED_DATA \<notin> set ts" "J s"
  shows "J (snd (snd (snd (ssh2_packet_requirev tread disc ts ofs m start s))))"
  unfolding ssh2_packet_requirev_def
  by (intro J.I_intros requirev_loop_J askv_J J.now_I assms) (simp_all add: assms)

subsection \<open>Opening a channel\<close>

lemma open_begin_J: "J s \<Longrightarrow> J (snd (open_begin ty window psize s))"
proof -
  assume s: "J s"
  let ?s = "s\<lparr>open_channel := None, open_packet := [], open_data := []\<rparr>"
  obtain i t where n: "ssh2_channel_nextid ?s = (i, t)" by fastforce
  have t: "J t" "fault t \<or> i \<notin> set (used_ids t)" using nextid_J [OF n] s by simp_all
  let ?t = "t\<lparr>open_local_channel := i, open_requirev_start := 0\<rparr>"
  let ?c = "channel_0\<lparr>channel_type := ty, ch_local := channel_data_0\<lparr>cd_id := i\<rparr>,
     ch_remote := channel_data_0\<lparr>window_size := window, window_size_initial := window, packet_size := psize\<rparr>\<rparr>"
  obtain a u where a: "ssh2_alloc ?t = (a, u)" by fastforce
  obtain a' v where a': "ssh2_alloc u = (a', v)" by fastforce
  have u: "J u" "same_core ?t u" using J.alloc_I [of ?t] t a alloc_core [OF a] by simp_all
  have v: "J v" "same_core ?t v" using J.alloc_I [OF u(1)] a' alloc_core [OF a'] u(2) same_core_trans by auto
  have "fresh ?c ?t"
    using t(2) by (simp add: fresh_def used_ids_def all_channels_def pending_channels_def channel_0_def)
  then have "fresh ?c v" by (rule fresh_frame [OF v(2)])
  then have "J (v\<lparr>channels := channels v @ [?c]\<rparr>)" by (rule link_session_J [OF v(1)])
  then have w: "J (v\<lparr>open_channel := Some i, channels := channels v @ [?c]\<rparr>)"
    by (simp add: J_def chan_inv_def all_channels_def pending_channels_def has_st_def)
  then have "J (snd (ssh2_alloc (v\<lparr>open_channel := Some i, channels := channels v @ [?c]\<rparr>)))" by (rule J.alloc_I)
  then show ?thesis
    using u v n a a' by (auto simp: open_begin_def Let_def split: prod.split)
qed

lemma open_send_J: "J s \<Longrightarrow> J (snd (open_send tsend m s))"
  unfolding open_send_def by (intro J.I_intros tsend_J) simp_all

lemma open_reply_J: "J s \<Longrightarrow> J (snd (open_reply tread disc ty s))"
  unfolding open_reply_def Let_def
  by (intro J.I_intros requirev_J) (simp_all add: side_keeps side_update_def open_confirmed_def)

lemma open_error_J: "J s \<Longrightarrow> J (open_error disc s)"
  by (auto simp: open_error_def Let_def remove_J split: option.split)

lemma open_then_J: "(\<And>s. J s \<Longrightarrow> J (snd (f s))) \<Longrightarrow> J (snd r) \<Longrightarrow> J (snd (open_then f stage r))"
  by (auto simp: open_then_def split: prod.split)

lemma channel_open_J: "J s \<Longrightarrow> J (snd (ssh2_channel_open tsend tread disc ty w ps m s))"
  unfolding ssh2_channel_open_def
  by (intro J.I_intros open_then_J open_begin_J open_send_J open_reply_J) (simp_all add: open_error_J)

subsection \<open>Starting a program\<close>

lemma process_begin_J: "J s \<Longrightarrow> J (snd (process_begin i r m s))"
  unfolding process_begin_def
  by (intro J.I_intros J.alloc_I) (simp_all add: side_keeps side_update_def)

lemma process_send_J: "J s \<Longrightarrow> J (snd (process_send tsend i m s))"
  unfolding process_send_def
  by (intro J.I_intros tsend_J) (simp_all add: side_keeps side_update_def)

lemma process_reply_J: "J s \<Longrightarrow> J (snd (process_reply tread disc i s))"
  unfolding process_reply_def Let_def
  by (intro J.I_intros requirev_J) (simp_all add: side_keeps side_update_def)

lemma process_startup_J: "J s \<Longrightarrow> J (snd (ssh2_channel_process_startup tsend tread disc i r m s))"
  unfolding ssh2_channel_process_startup_def
  by (intro J.I_intros process_begin_J process_send_J process_reply_J) simp_all

subsection \<open>Flushing and reading\<close>

end

text \<open>Bytes leave the queue, and the books of the channel follow.\<close>

definition taken :: "u32 \<Rightarrow> nat \<Rightarrow> u32 set \<Rightarrow> packet list \<Rightarrow> packet list \<Rightarrow> bool" where
  "taken i n ids ps qs \<longleftrightarrow> qbytes i qs + n = qbytes i ps \<and> (\<forall>j. j \<noteq> i \<longrightarrow> qbytes j qs = qbytes j ps) \<and>
     (\<forall>p \<in> set qs. packet_ok ids p)"

lemma qbytes_Cons: "qbytes i (p # ps) = (if data_for i p then pkt_len p - pkt_head p else 0) + qbytes i ps"
  by (simp add: qbytes_def)

lemma qbytes_Nil [simp]: "qbytes i [] = 0"
  by (simp add: qbytes_def)

lemma data_for_head [simp]: "data_for i (p\<lparr>pkt_head := h\<rparr>) = data_for i p"
  by (simp add: data_for_def is_data_def pkt_channel_def)

lemma packet_ok_head: "packet_ok ids p \<Longrightarrow> h \<le> pkt_len p \<Longrightarrow> packet_ok ids (p\<lparr>pkt_head := h\<rparr>)"
  by (simp add: packet_ok_def is_data_def pkt_channel_def)

lemma unat_pkt_left: "packet_ok ids p \<Longrightarrow> unat (pkt_left p) = pkt_len p - pkt_head p"
proof -
  assume p: "packet_ok ids p"
  then have l: "pkt_head p \<le> pkt_len p" "pkt_len p < 2 ^ 64" by (auto simp: packet_ok_def)
  then have "pkt_left p = of_nat (pkt_len p - pkt_head p)" by (simp add: pkt_left_def of_nat_diff)
  then show ?thesis using l by (simp add: unat_of_nat_u64 del: of_nat_diff)
qed

lemma wanted_data: "wanted c sid p \<Longrightarrow> data_for (ch_id c) p"
  by (auto simp: wanted_def data_for_def is_data_def Let_def)

lemma read_queue_taken:
  "\<forall>p \<in> set ps. packet_ok ids p \<Longrightarrow> read_queue (wanted c sid) n ps = (bs, qs) \<Longrightarrow> taken (ch_id c) (length bs) ids ps qs"
proof (induction ps arbitrary: n bs qs)
  case (Cons p r)
  have p: "packet_ok ids p" and r: "\<forall>p \<in> set r. packet_ok ids p" using Cons.prems(1) by simp_all
  have l: "pkt_head p \<le> pkt_len p" "pkt_len p \<le> length (pkt_data p)" using p by (simp_all add: packet_ok_def)
  obtain b q where rec: "read_queue (wanted c sid) n r = (b, q)" by fastforce
  obtain b' q' where rec': "read_queue (wanted c sid) (n - (pkt_len p - pkt_head p)) r = (b', q')" by fastforce
  note ih = Cons.IH [OF r rec] Cons.IH [OF r rec']
  consider "n = 0" | "n \<noteq> 0" "\<not> wanted c sid p"
    | "n \<noteq> 0" "wanted c sid p" "pkt_len p - pkt_head p \<le> n" | "n \<noteq> 0" "wanted c sid p" "n < pkt_len p - pkt_head p"
    by linarith
  then show ?case
  proof cases
    case 1
    then show ?thesis using Cons.prems by (auto simp: taken_def)
  next
    case 2
    then show ?thesis using Cons.prems rec ih(1) by (auto simp: taken_def qbytes_Cons)
  next
    case 3
    then have "bs = slice (pkt_head p) (pkt_len p - pkt_head p) (pkt_data p) @ b'" "qs = q'"
      using Cons.prems(2) rec' unat_pkt_left [OF p] by simp_all
    then show ?thesis
      using ih(2) l wanted_data [OF 3(2)] by (auto simp: taken_def qbytes_Cons slice_def data_for_def)
  next
    case 4
    then have "bs = slice (pkt_head p) n (pkt_data p)" "qs = p\<lparr>pkt_head := pkt_head p + n\<rparr> # r"
      using Cons.prems(2) unat_pkt_left [OF p] by simp_all
    moreover have "\<not> data_for j p" if "j \<noteq> ch_id c" for j
      using wanted_data [OF 4(2)] that by (auto simp: data_for_def)
    ultimately show ?thesis
      using 4 p r l wanted_data [OF 4(2)] packet_ok_head [OF p, of "pkt_head p + n"]
      by (auto simp: taken_def qbytes_Cons slice_def)
  qed
qed (simp add: taken_def)

lemma flush_taken:
  "\<forall>p \<in> set ps. packet_ok ids p \<Longrightarrow> qbytes i ps < 2 ^ 64 \<Longrightarrow> flush_loop i sid ps = (qs, n, e) \<Longrightarrow>
   taken i (unat n) ids ps qs \<and> \<not> e"
proof (induction ps arbitrary: qs n e)
  case (Cons p r)
  have p: "packet_ok ids p" and r: "\<forall>p \<in> set r. packet_ok ids p" using Cons.prems(1) by simp_all
  obtain q m e' where rec: "flush_loop i sid r = (q, m, e')" using prod_cases3 by blast
  have q: "qbytes i r < 2 ^ 64" using Cons.prems(2) by (simp add: qbytes_Cons split: if_splits)
  have ih: "taken i (unat m) ids r q" "\<not> e'" using Cons.IH [OF r q rec] by simp_all
  have short: "\<not> (data_for i p \<and> chr_at (pkt_data p) 0 = SSH_MSG_CHANNEL_EXTENDED_DATA \<and> pkt_len p < 9)"
    using p by (auto simp: packet_ok_def data_for_def)
  then consider "qs = p # q" "n = m" "e = e'" | "data_for i p" "qs = q" "n = m + pkt_left p" "e = e'"
    using Cons.prems(3) rec by (auto simp: Let_def split: if_splits)
  then show ?case
  proof cases
    case 1
    then show ?thesis using ih p by (auto simp: taken_def qbytes_Cons)
  next
    case 2
    have t: "qbytes i (p # r) = (pkt_len p - pkt_head p) + qbytes i r" using 2 by (simp add: qbytes_Cons)
    have "unat m + unat (pkt_left p) < 18446744073709551616"
      using Cons.prems(2) ih(1) unfolding t unat_pkt_left [OF p] taken_def by simp
    then have "unat (m + pkt_left p) = unat m + (pkt_len p - pkt_head p)"
      using unat_pkt_left [OF p] by (simp add: unat_word_ariths)
    then show ?thesis
      using 2 ih t by (auto simp: taken_def qbytes_Cons data_for_def)
  qed
qed (simp add: taken_def)

context channel_clients begin

lemma take_out_J:
  assumes s: "J s"
    and t: "\<And>c ids. \<not> fault s \<Longrightarrow> find_chan i s = Some c \<Longrightarrow> channel_ok (packets s) c \<Longrightarrow>
      \<forall>p \<in> set (packets s). packet_ok ids p \<Longrightarrow> taken i (unat n) ids (packets s) ps"
    and f: "\<And>c. ch_id (f c) = ch_id c" "\<And>c. read_avail (f c) = read_avail c - n"
      "\<And>c. rwin (f c) = rwin c - ucast n"
  shows "J (upd_chan i f (s\<lparr>packets := ps\<rparr>))"
proof (cases "fault s \<or> find_chan i s = None")
  case True
  then have "fault (upd_chan i f (s\<lparr>packets := ps\<rparr>))"
    using upd_chan_missing [of i "s\<lparr>packets := ps\<rparr>" f]
    by (auto simp: find_chan_def all_channels_def set_fault_def)
  then show ?thesis by (simp add: J_def)
next
  case False
  then have inv: "chan_inv s" using s by (simp add: J_def)
  obtain c0 where c0: "find_chan i s = Some c0" using False by blast
  have i: "i \<in> ch_id ` set (all_channels s)" using c0 by (auto simp: find_chan_def find_Some_iff)
  have b: "books_ok (all_channels s) (pending_channels s) (packets s)" using inv by (simp add: chan_inv_def)
  then have tk: "taken i (unat n) (ch_id ` set (all_channels s)) (packets s) ps"
    using False by (intro t [OF _ c0] J_found [OF s c0]) (auto simp: books_ok_def)
  have own: "channel_ok ps (f c)" if c: "ch_id c = i" "channel_ok (packets s) c" for c
  proof -
    have q: "qbytes i ps + unat n = qbytes i (packets s)" using tk by (simp add: taken_def)
    have le: "unat n \<le> unat (read_avail c)" "unat (read_avail c) \<le> unat (rwin c)"
      using c q by (simp_all add: channel_ok_def)
    then have l: "unat n < 4294967296" using unat_u32_lt [of "rwin c"] by linarith
    then have u: "unat (ucast n :: u32) = unat n" by (simp add: unsigned_ucast_eq take_bit_nat_eq_self)
    have "unat (read_avail c - n) = unat (read_avail c) - unat n"
      using le by (simp add: unat_sub word_le_nat_alt)
    moreover have "unat (rwin c - ucast n) = unat (rwin c) - unat n"
      using le u by (simp add: unat_sub word_le_nat_alt)
    moreover have "unat (read_avail c) = qbytes i (packets s)" using c by (simp add: channel_ok_def)
    ultimately show ?thesis using c(1) q le(2) unfolding channel_ok_def f by (simp, linarith)
  qed
  let ?t = "upd_chan i f (s\<lparr>packets := ps\<rparr>)"
  have all: "all_channels ?t = update_first (\<lambda>c. ch_id c = i) f (all_channels s)"
    unfolding all_channels_upd_chan by (simp add: all_channels_def)
  have "books_ok (all_channels ?t) (pending_channels s) ps"
    unfolding all using tk by (intro books_change [OF b _ f(1) own _ i]) (auto simp: taken_def)
  moreover have "pending_channels ?t = pending_channels s" by (simp add: pending_channels_def)
  ultimately show ?thesis by (intro J_same_rest [OF s]) (auto simp: has_st_def)
qed

end

lemma update_first_comp: "(\<And>x. P x \<Longrightarrow> P (f x)) \<Longrightarrow> update_first P g (update_first P f xs) = update_first P (\<lambda>x. g (f x)) xs"
  by (induction xs) auto

lemma update_first_holds: "(\<And>x. P x \<Longrightarrow> P (f x)) \<Longrightarrow> (\<exists>c \<in> set (update_first P f xs). P c) = (\<exists>c \<in> set xs. P c)"
  by (induction xs) auto

lemma upd_queues_comp: "(\<And>x. P x \<Longrightarrow> P (f x)) \<Longrightarrow> upd_queues P g (upd_queues P f ls) = upd_queues P (\<lambda>x. g (f x)) ls"
proof (induction ls)
  case (Cons l ls)
  then show ?case
    using update_first_holds [of P f "ls_queue l"] update_first_comp [of P f g "ls_queue l"] by simp
qed simp

lemma upd_chan_comp:
  assumes "\<And>c. ch_id (f c) = ch_id c"
  shows "upd_chan i g (upd_chan i f s) = upd_chan i (\<lambda>c. g (f c)) s"
proof -
  let ?P = "\<lambda>c. ch_id c = i"
  have f: "\<And>c. ?P c \<Longrightarrow> ?P (f c)" using assms by simp
  show ?thesis
    using update_first_holds [of ?P f, OF f] update_first_comp [of ?P f g, OF f] upd_queues_comp [of ?P f g, OF f]
    by (simp add: upd_chan_def set_fault_def upd_queues_concat del: set_concat)
qed

context channel_clients begin

lemma flush_J:
  assumes s: "J s" and idle: "flush_state (get_chan i s) = NB_idle"
  shows "J (snd (ssh2_channel_flush tsend i sid s))"
proof -
  obtain ps n e where l: "flush_loop i sid (packets s) = (ps, n, e)" using prod_cases3 by blast
  let ?s = "s\<lparr>packets := ps\<rparr>"
  let ?f = "\<lambda>c. c\<lparr>flush_refund_bytes := n, flush_flush_bytes := n\<rparr>"
  let ?g = "\<lambda>c. c\<lparr>flush_state := NB_created\<rparr>"
  let ?h = "\<lambda>c. (upd_rwin (\<lambda>w. w - ucast (flush_flush_bytes c)) c)\<lparr>read_avail := read_avail c - flush_flush_bytes c\<rparr>"
  have tk: "taken i (unat n) ids (packets s) ps \<and> \<not> e"
    if "channel_ok (packets s) c" "find_chan i s = Some c" "\<forall>p \<in> set (packets s). packet_ok ids p" for c ids
  proof (rule flush_taken [OF that(3) _ l])
    have "qbytes i (packets s) = unat (read_avail c)"
      using that(1) find_chan_id [OF that(2)] by (simp add: channel_ok_def)
    then show "qbytes i (packets s) < 2 ^ 64" using unsigned_less [of "read_avail c"] by simp
  qed
  have "J (upd_chan i (\<lambda>c. ?h (?g (?f c))) ?s)"
    using tk by (intro take_out_J [where n = n, OF s]) (auto simp: upd_rwin_def)
  then have h: "J (upd_chan i ?h (upd_chan i ?g (upd_chan i ?f ?s)))"
    by (simp add: upd_chan_comp)
  have e: "J (upd_chan i ?f ?s)" if "e"
  proof (cases "fault s \<or> find_chan i s = None")
    case True
    then have "fault (upd_chan i ?f ?s)"
      using upd_chan_missing [of i ?s ?f] by (auto simp: find_chan_def all_channels_def set_fault_def)
    then show ?thesis by (simp add: J_def)
  next
    case False
    then obtain c where c: "find_chan i s = Some c" by blast
    have "\<forall>p \<in> set (packets s). packet_ok (ch_id ` set (all_channels s)) p"
      using s False by (simp add: J_def chan_inv_def books_ok_def)
    then show ?thesis using tk [OF J_found [OF s c] c] False that by blast
  qed
  have rest: "J (snd (case (if flush_refund_bytes (get_chan i u) \<noteq> 0
        then ssh2_channel_receive_window_adjust tsend i (ucast (flush_refund_bytes (get_chan i u))) True u
        else (0, u)) of (rc, s) \<Rightarrow>
      if rc = LIBSSH2_ERROR_EAGAIN then (rc, s)
      else (sint (ucast (flush_flush_bytes (get_chan i (upd_chan i (\<lambda>c. c\<lparr>flush_state := NB_idle\<rparr>) s))) :: u32),
            upd_chan i (\<lambda>c. c\<lparr>flush_state := NB_idle\<rparr>) s)))" if "J u" for u
    by (intro J.I_intros adjust_I that) (simp_all add: side_keeps side_update_def)
  show ?thesis
    unfolding ssh2_channel_flush_def flush_begin_def Let_def
    using idle h e rest by (cases e) (simp_all add: l ssh2_err_def)
qed

lemma extended_data_J:
  assumes s: "J s" and idle: "flush_state (get_chan i s) = NB_idle"
  shows "J (snd (ssh2_channel_extended_data tsend i mode s))"
proof -
  let ?f = "\<lambda>c. (upd_cremote (\<lambda>r. r\<lparr>extended_data_ignore_mode := sint (of_int mode :: 8 word)\<rparr>) c)\<lparr>extData2_state := NB_created\<rparr>"
  define t where "t = (if extData2_state (get_chan i s) = NB_idle then upd_chan i ?f s else s)"
  have t: "J t" using s by (simp add: t_def side_keeps side_update_def upd_cremote_def)
  have "flush_state (get_chan i t) = NB_idle"
  proof (cases "find_chan i s")
    case None
    then have "upd_chan i ?f s = set_fault s" by (rule upd_chan_missing)
    then show ?thesis using idle by (simp add: t_def set_fault_def get_chan_def find_chan_def all_channels_def)
  next
    case (Some c)
    then show ?thesis using idle by (simp add: t_def get_chan_upd upd_cremote_def)
  qed
  note fl = flush_J [OF t this]
  show ?thesis
    unfolding ssh2_channel_extended_data_def Let_def t_def [symmetric]
    by (intro J.I_intros fl) (simp_all add: t side_keeps side_update_def)
qed

subsubsection \<open>Reading\<close>

lemma read_window_J: "J s \<Longrightarrow> J (snd (read_window tsend i n s))"
  unfolding read_window_def Let_def
  by (intro J.I_intros adjust_I) (simp_all add: side_keeps side_update_def)

lemma drain_loop_J: "J s \<Longrightarrow> J (snd (drain_loop tread n s))"
proof (induction n arbitrary: s)
  case (Suc n)
  show ?case unfolding drain_loop.simps by (intro J.I_intros tread_J Suc.IH Suc.prems)
qed simp

lemma drain_J: "J s \<Longrightarrow> J (snd (drain tread s))"
  unfolding drain_def by (rule drain_loop_J)

lemma take_nothing_J:
  assumes s: "J s" and t: "\<And>ids. \<forall>p \<in> set (packets s). packet_ok ids p \<Longrightarrow> taken i 0 ids (packets s) ps"
  shows "J (s\<lparr>packets := ps\<rparr>)"
proof (rule J_same_rest [OF s])
  assume b: "books_ok (all_channels s) (pending_channels s) (packets s)"
  then have tk: "taken i 0 (ch_id ` set (all_channels s)) (packets s) ps"
    by (intro t) (simp add: books_ok_def)
  then have "qbytes j ps = qbytes j (packets s)" for j by (cases "j = i") (simp_all add: taken_def)
  then have "books_ok (all_channels s) (pending_channels s) ps"
    using tk by (intro books_packets [OF b]) (auto simp: taken_def)
  then show "books_ok (all_channels (s\<lparr>packets := ps\<rparr>)) (pending_channels (s\<lparr>packets := ps\<rparr>)) (packets (s\<lparr>packets := ps\<rparr>))"
    by (simp add: all_channels_def pending_channels_def)
qed (simp_all add: has_st_def)

lemma ucast_of_nat_u64_u32: "(ucast (of_nat n :: u64) :: u32) = of_nat n"
  by (simp add: unsigned_of_nat word_of_nat_eq_iff)

lemma read_take_J:
  assumes s: "J s"
  shows "J (snd (snd (read_take i sid n rc s)))"
proof -
  obtain bs ps where r: "read_queue (wanted (get_chan i s) sid) n (packets s) = (bs, ps)" by fastforce
  let ?f = "\<lambda>c. (upd_rwin (\<lambda>w. w - of_nat (length bs)) c)\<lparr>read_avail := read_avail c - of_nat (length bs)\<rparr>"
  have "J (upd_chan i ?f (s\<lparr>packets := ps\<rparr>))"
  proof (rule take_out_J [where n = "of_nat (length bs)", OF s])
    fix c ids
    assume c: "find_chan i s = Some c" "channel_ok (packets s) c" "\<forall>p \<in> set (packets s). packet_ok ids p"
    have tk: "taken i (length bs) ids (packets s) ps"
      using read_queue_taken [OF c(3) r] find_chan_id [OF c(1)] by (simp add: get_chan_found [OF c(1)])
    then have "length bs \<le> unat (read_avail c)"
      using c(2) find_chan_id [OF c(1)] by (simp add: taken_def channel_ok_def)
    moreover have "unat (read_avail c) < 18446744073709551616" using unsigned_less [of "read_avail c"] by simp
    ultimately have "unat (of_nat (length bs) :: u64) = length bs" by (intro unat_of_nat_u64) simp
    then show "taken i (unat (of_nat (length bs) :: u64)) ids (packets s) ps" using tk by simp
  qed (simp_all add: upd_rwin_def ucast_of_nat_u64_u32)
  moreover have "J (s\<lparr>packets := ps\<rparr>)" if "bs = []"
    using read_queue_taken [OF _ r] that by (intro take_nothing_J [OF s]) simp
  ultimately show ?thesis by (auto simp: read_take_def r Let_def ssh2_err_def)
qed

lemma channel_read_J: "J s \<Longrightarrow> J (snd (snd (ssh2_channel_read tsend tread i sid n s)))"
  unfolding ssh2_channel_read_def
  by (intro J.I_intros read_window_J drain_J read_take_J) (simp_all add: ssh2_err_def)

lemma read_ex_J: "J s \<Longrightarrow> J (snd (snd (libssh2_channel_read_ex tsend tread i sid n s)))"
  unfolding libssh2_channel_read_ex_def Let_def
  by (intro block_out_I channel_read_J) (simp_all add: block_I adjust_I)

subsection \<open>Writing, end of file, closing\<close>

lemma write_begin_J: "J s \<Longrightarrow> J (snd (write_begin tread i sid n s))"
proof -
  assume s: "J s"
  obtain rc t where d: "drain tread s = (rc, t)" by fastforce
  have "J t" using drain_J [OF s] d by simp
  then show ?thesis
    using s by (simp add: write_begin_def Let_def d ssh2_err_def side_keeps side_update_def)
qed

lemma write_send_J: "J s \<Longrightarrow> J (snd (write_send tsend i buf s))"
  unfolding write_send_def Let_def
  by (intro J.I_intros tsend_J) (simp_all add: side_keeps side_update_def)

lemma channel_write_J: "J s \<Longrightarrow> J (snd (ssh2_channel_write tsend tread i sid buf s))"
  unfolding ssh2_channel_write_def Let_def
  by (intro J.I_stops J.I_intros write_begin_J write_send_J) simp_all

lemma send_eof_J: "J s \<Longrightarrow> J (snd (channel_send_eof tsend i s))"
  unfolding channel_send_eof_def
  by (intro J.I_intros tsend_J) (simp_all add: side_keeps side_update_def)

lemma wait_eof_loop_J: "J s \<Longrightarrow> J (snd (wait_eof_loop tread i n s))"
proof (induction n arbitrary: s)
  case (Suc n)
  show ?case
    unfolding wait_eof_loop.simps Let_def
    by (intro J.I_intros tread_J Suc.IH Suc.prems) (simp_all add: Suc.prems side_keeps side_update_def)
qed simp

lemma wait_eof_J: "J s \<Longrightarrow> J (snd (channel_wait_eof tread i s))"
  unfolding channel_wait_eof_def
  by (rule wait_eof_loop_J) (simp add: side_keeps side_update_def)

lemma close_wait_J: "J s \<Longrightarrow> J (snd (close_wait tread i n rc s))"
proof (induction n arbitrary: rc s)
  case (Suc n)
  show ?case unfolding close_wait.simps by (intro J.I_intros tread_J Suc.IH Suc.prems)
qed simp

lemma close_send_J: "J s \<Longrightarrow> J (snd (close_send tsend i rc s))"
  unfolding close_send_def Let_def
  by (intro J.I_intros tsend_J) (simp_all add: side_keeps side_update_def)

lemma close_finish_J: "J s \<Longrightarrow> J (snd (close_finish i rc s))"
  by (simp add: close_finish_def side_keeps side_update_def)

lemma channel_close_J: "J s \<Longrightarrow> J (snd (ssh2_channel_close tsend tread i s))"
  unfolding ssh2_channel_close_def Let_def
  by (intro J.I_intros send_eof_J close_send_J close_wait_J close_finish_J)
     (simp_all add: side_keeps side_update_def)

lemma wait_closed_loop_J: "J s \<Longrightarrow> J (snd (wait_closed_loop tread i n s))"
proof (induction n arbitrary: s)
  case (Suc n)
  show ?case unfolding wait_closed_loop.simps by (intro J.I_intros tread_J Suc.IH Suc.prems)
qed simp

lemma wait_closed_J: "J s \<Longrightarrow> J (snd (channel_wait_closed tread i s))"
  unfolding channel_wait_closed_def Let_def
  by (intro J.I_intros wait_closed_loop_J) (simp_all add: side_keeps side_update_def)

lemma forget_J: "J s \<Longrightarrow> J (forget_chan i s)"
  by (simp add: forget_chan_def Let_def)

lemma channel_free_J: "J s \<Longrightarrow> J (snd (ssh2_channel_free tsend tread disc i s))"
  unfolding ssh2_channel_free_def Let_def
  by (intro J.I_intros channel_close_J) (simp_all add: side_keeps side_update_def remove_J forget_J)

lemma signal_J: "J s \<Longrightarrow> J (snd (channel_signal tsend i n s))"
  unfolding channel_signal_def Let_def
  by (intro J.I_intros tsend_J J.alloc_I) (simp_all add: side_keeps side_update_def)

lemma clr_st_J: "J s \<Longrightarrow> J (clr_st b s)"
proof -
  have "(st s AND NOT b) AND SSH2_STATE_INITIAL_KEX = (st s AND SSH2_STATE_INITIAL_KEX) AND NOT b"
    by (simp only: and.assoc and.commute [of "NOT b"])
  then have "(st s AND NOT b) AND SSH2_STATE_INITIAL_KEX = 0" if "st s AND SSH2_STATE_INITIAL_KEX = 0"
    using that by simp
  then show "J s \<Longrightarrow> J (clr_st b s)"
    by (auto simp: J_def chan_inv_def all_channels_def pending_channels_def has_st_def clr_st_def)
qed

lemma disconnect_ex_J: "J s \<Longrightarrow> J (snd (libssh2_session_disconnect_ex tsend r d l s))"
  unfolding libssh2_session_disconnect_ex_def
  by (intro block_I session_disconnect_I clr_st_J)

end

end
