(* ===== verification/Books.thy ===== *)
theory Books
  imports ApiInv
begin

text \<open>
  The invariant of channels and packets for the whole stack: every call of the modelled API keeps it, key
  exchanges that are redirected into included.
\<close>

unbundle bit_operations_syntax

subsection \<open>Sending while the session is calm\<close>

lemma framed_core: "framed (same_core s0)"
  by unfold_locales (rule same_core_trans)

lemma send_calm:
  assumes "calm s"
  shows "same_core s (snd (ssh2_transport_send kx p d d2 s))"
proof -
  have "same_core s (snd (rekey_redirect kx t))" if "same_core s t" for t
    using assms that by (auto simp: rekey_redirect_def same_core_def calm_def has_st_def)
  then show ?thesis
    unfolding ssh2_transport_send_def Let_def
    by (intro binds [where P = "same_core s" and R = "same_core s"] shapes [where R = "same_core s"]
        framed.send_existing_I [OF framed_core] framed.send_new_I [OF framed_core]) simp_all
qed

lemma calm_sender_transport: "calm_sender (ssh2_transport_send kx)"
  by unfold_locales (rule send_calm)

text \<open>Disconnecting never takes a fault back.\<close>

lemma framed_fault: "framed (\<lambda>s. fault s \<and> calm s)"
  by unfold_locales (auto simp: same_core_def calm_def has_st_def)

lemma blocking_fault: "blocking (\<lambda>s. fault s \<and> calm s) (ssh2_transport_send kx)"
proof (intro blocking.intro framed_fault blocking_axioms.intro)
  show "fault s \<and> calm s \<Longrightarrow> fault (snd (ssh2_transport_send kx p d d2 s)) \<and> calm (snd (ssh2_transport_send kx p d d2 s))"
    for s p d d2
    using send_calm [of s kx p d d2] by (auto simp: same_core_def calm_def has_st_def)
qed

lemma disconnect_fault: "fault s \<Longrightarrow> fault (snd (libssh2_session_disconnect (ssh2_transport_send kx) d s))"
proof -
  assume f: "fault s"
  let ?s = "clr_st SSH2_STATE_EXCHANGING_KEYS (clr_st SSH2_STATE_INITIAL_KEX s)"
  have "fault ?s \<and> calm ?s" using f by (simp add: calm_def) (simp add: clr_st_def)
  then show ?thesis
    unfolding libssh2_session_disconnect_def libssh2_session_disconnect_ex_def
    by (intro conjunct1 [OF blocking.block_I [OF blocking_fault]] blocking.session_disconnect_I [OF blocking_fault])
qed

subsection \<open>The transport of a key exchange\<close>

interpretation kex_packets: packet_clients kex_send no_kex "libssh2_session_disconnect kex_send"
proof (unfold kex_send_def, intro packet_clients.intro calm_sender_transport packet_clients_axioms.intro)
  show "J s \<Longrightarrow> J (snd (no_kex s))" for s by (simp add: no_kex_def)
qed (rule disconnect_fault)

interpretation kex_transport: transport_clients no_kex
  "ssh2_packet_add kex_send no_kex (libssh2_session_disconnect kex_send)"
  by unfold_locales (simp_all add: no_kex_def kex_packets.add_J)

interpretation kex_clients: channel_clients "libssh2_session_disconnect kex_send" kex_send kex_read
proof
  show "fault s \<Longrightarrow> fault (snd (libssh2_session_disconnect kex_send d s))" for s d
    unfolding kex_send_def by (rule disconnect_fault)
  show "J s \<Longrightarrow> J (snd (kex_send p d d2 s))" for s p d d2
    unfolding kex_send_def by (rule kex_transport.send_keeps)
  show "J s \<Longrightarrow> J (snd (kex_read s))" for s
    unfolding kex_read_def by (rule kex_transport.read_keeps)
qed

subsection \<open>The key exchange\<close>

lemma kex_init_J: "J s \<Longrightarrow> J (snd (kex_init b no_kex s))"
proof -
  have send: "J s \<Longrightarrow> J (snd (kex_init_send no_kex data s))" for data s
    unfolding kex_init_send_def by (intro J.I_intros kex_transport.send_keeps) simp_all
  have rnd: "J s \<Longrightarrow> J (snd (ssh2_random n s))" for n s
    by (cases "ssh2_random n s") (auto dest: random_core same_core_J)
  assume s: "J s"
  obtain ok t where a: "ssh2_alloc s = (ok, t)" by fastforce
  have t: "J t" using J.alloc_I [OF s] a by simp
  obtain r u where c: "ssh2_random 16 t = (r, u)" by fastforce
  have u: "J u" using rnd [OF t] c by (metis snd_conv)
  have sent: "J (snd (kex_init_send no_kex d (u\<lparr>kexinit_state := NB_created\<rparr>)))"
    "J (snd (kex_init_send no_kex d (s\<lparr>kexinit_data := None\<rparr>)))" for d
    using s u by (auto intro: send)
  show "J (snd (kex_init b no_kex s))"
    using s t u sent by (auto simp: kex_init_def a c split: option.split)
qed

text \<open>Agreeing on methods touches neither channels nor packets.\<close>

lemma agree_prefs_some: "agree_prefs server pick p = Some r \<Longrightarrow> \<exists>n q. pick n q = Some (Some r)"
proof (induction server pick p rule: agree_prefs.induct)
  case (1 server pick s)
  show ?case
    using 1(2) 1(1) [OF _ refl refl] by (subst (asm) agree_prefs.simps) (auto simp: Let_def split: if_splits option.splits)
qed

lemma agree_table_some: "agree_table server nm pick ms = Some r \<Longrightarrow> \<exists>m q. pick m q = Some r"
  by (induction server nm pick ms rule: agree_table.induct) (auto split: option.splits)

lemma agree_hostkey_core: "same_core s (snd (kex_agree_hostkey b fl server s))"
  by (auto simp: kex_agree_hostkey_def Let_def split: option.split)

lemma take_kex_core: "take_kex b sh s m q = Some t \<Longrightarrow> same_core s t"
  using agree_hostkey_core [of s b "km_flags m" sh] by (auto simp: take_kex_def split: prod.splits if_splits)

lemma agree_kex_hostkey_core: "same_core s (snd (kex_agree_kex_hostkey b sv sh s))"
proof -
  define t where "t = (if ssh2_kex_agree_instr sv (str ''kex-strict-s-v00@openssh.com'') \<noteq> None
    then s\<lparr>kex_strict := True\<rparr> else s)"
  define r where "r = (case kex_prefs t of
     Some prefs \<Rightarrow> agree_prefs sv (\<lambda>name q. map_option (\<lambda>m. take_kex b sh t m q)
         (kex_get_method_by_name km_name name (kex_methods b))) prefs
   | None \<Rightarrow> agree_table sv km_name (take_kex b sh t) (kex_methods b))"
  have t: "same_core s t" by (simp add: t_def)
  have "same_core t u" if "r = Some u" for u
    using that unfolding r_def
    by (auto split: option.splits dest!: agree_prefs_some agree_table_some dest: take_kex_core)
  moreover have "kex_agree_kex_hostkey b sv sh s = (case r of Some u \<Rightarrow> (0, u) | None \<Rightarrow> (- 1, t))"
    unfolding kex_agree_kex_hostkey_def Let_def r_def t_def ..
  ultimately show ?thesis using t same_core_trans by (auto split: option.split)
qed

lemma agree_steps_core:
  "(\<And>f s. f \<in> set fs \<Longrightarrow> same_core s (snd (f s))) \<Longrightarrow> same_core s (snd (agree_steps fs s))"
proof (induction fs arbitrary: s)
  case (Cons f fs)
  have f: "same_core s (snd (f s))" using Cons.prems [of f s] by simp
  have "same_core t (snd (agree_steps fs t))" for t using Cons.prems by (intro Cons.IH) simp
  then show ?case using f same_core_trans by (auto split: prod.split)
qed simp

lemma agree_local_core: "same_core s (snd (agree_local f s))" "same_core s (snd (agree_remote f s))"
  by (auto simp: agree_local_def agree_remote_def split: prod.split)

lemma agree_methods_core: "same_core s (snd (kex_agree_methods b data s))"
proof (cases "read_lists data")
  case (Some p)
  obtain ls ff where p: "p = (ls, ff)" by fastforce
  have "same_core t (snd (agree_steps
            [kex_agree_kex_hostkey b (ls ! 0) (ls ! 1),
             agree_local (kex_agree_crypt b (ls ! 2)), agree_remote (kex_agree_crypt b (ls ! 3)),
             agree_local (kex_agree_mac b (ls ! 4)), agree_remote (kex_agree_mac b (ls ! 5)),
             \<lambda>s. agree_local (kex_agree_comp b s (ls ! 6)) s,
             \<lambda>s. agree_remote (kex_agree_comp b s (ls ! 7)) s] t))" for t
    by (rule agree_steps_core) (auto simp: agree_kex_hostkey_core agree_local_core)
  from this [of "s\<lparr>burn_optimistic_kexinit := ucast ff\<rparr>"] show ?thesis
    by (simp add: kex_agree_methods_def Some p del: agree_steps.simps)
qed (simp add: kex_agree_methods_def)

lemma agree_methods_J: "J s \<Longrightarrow> J (snd (kex_agree_methods b data s))"
  using agree_methods_core by (rule same_core_J)

lemma init_bits: "SSH2_STATE_KEX_ACTIVE AND SSH2_STATE_INITIAL_KEX = 0"
  "SSH2_STATE_EXCHANGING_KEYS AND SSH2_STATE_INITIAL_KEX = 0" "SSH2_STATE_NEWKEYS AND SSH2_STATE_INITIAL_KEX = 0"
  by (simp_all add: state_bits)

lemma set_st_J: "b AND SSH2_STATE_INITIAL_KEX = 0 \<Longrightarrow> J s \<Longrightarrow> J (set_st b s)"
  using has_st_set_other [of b SSH2_STATE_INITIAL_KEX s]
  by (auto simp: J_def chan_inv_def all_channels_def pending_channels_def set_st_def has_st_def)

lemma set_ks_J [simp]: "J (set_ks x s) = J s"
  by (simp add: set_ks_def)

lemma kex_forget_J: "J s \<Longrightarrow> J (kex_forget s)"
  by (simp add: kex_forget_def Let_def split: option.split)

lemma kex_begin_J: "J s \<Longrightarrow> J (kex_begin r s)"
  by (simp add: kex_begin_def Let_def set_st_J init_bits kex_forget_J)

lemma kex_oldlocal_J: "J s \<Longrightarrow> J (kex_oldlocal s)"
  by (simp add: kex_oldlocal_def)

lemma bits_off_J: "J s \<Longrightarrow> J (kex_bits_off s)"
  by (simp add: kex_bits_off_def kex_clients.clr_st_J)

lemma kex_fail_J: "J s \<Longrightarrow> J (snd (kex_fail s))"
  by (simp add: kex_fail_def bits_off_J)

lemma kex_eagain_J: "J s \<Longrightarrow> J (snd (kex_eagain s))"
  by (simp add: kex_eagain_def kex_clients.clr_st_J)

lemma kex_exchange_end_J: "J s \<Longrightarrow> J (snd (kex_exchange_end rc s))"
  by (simp add: kex_exchange_end_def bits_off_J)

lemma kex_require_J: "J s \<Longrightarrow> J (snd (snd (kex_require s)))"
  unfolding kex_require_def
  by (intro J.I_intros kex_clients.require_J) simp_all

definition kexinit_J :: "(rc \<times> session) + (rc \<times> session) \<Rightarrow> bool" where
  "kexinit_J r \<longleftrightarrow> (case r of Inl q \<Rightarrow> J (snd q) \<and> fst q \<noteq> 0 | Inr q \<Rightarrow> J (snd q))"

lemma kex_kexinit_J:
  assumes "J s"
  shows "kexinit_J (kex_kexinit b no_kex kex_require s)"
proof -
  define t where "t = kex_oldlocal s"
  have t: "J t" using assms by (simp add: t_def kex_oldlocal_J)
  obtain rc u where u: "(if ks t = NB_sent then case kex_init b no_kex t of (rc, s) \<Rightarrow> (rc, if rc = 0 then set_ks NB_sent1 s else s)
      else (0, t)) = (rc, u)" by fastforce
  have ju: "J u" using u t kex_init_J [OF t, of b] by (auto split: if_splits prod.splits)
  obtain rc' d v where v: "kex_require u = (rc', d, v)" using prod_cases3 by blast
  have jv: "J v" using kex_require_J [OF ju] v by simp
  have fail: "J (snd (kex_fail x)) \<and> fst (kex_fail x) \<noteq> 0" if "J x" for x
    using that by (simp add: kex_fail_J) (simp add: kex_fail_def)
  have again: "J (snd (kex_eagain x)) \<and> fst (kex_eagain x) \<noteq> 0" if "J x" for x
    using that by (simp add: kex_eagain_J) (simp add: kex_eagain_def)
  obtain rc'' w where w: "kex_agree_methods b d (upd_remote (\<lambda>e. e\<lparr>kexinit := Some d\<rparr>) v) = (rc'', w)" by fastforce
  have jw: "J w" using agree_methods_J [of "upd_remote (\<lambda>e. e\<lparr>kexinit := Some d\<rparr>) v" b d] jv w by simp
  show ?thesis
    unfolding kex_kexinit_def Let_def t_def [symmetric] u
    using ju jv jw fail again by (auto simp: kexinit_J_def v w)
qed

lemma finish_calm: "calm (snd (kex_exchange_end rc s))"
  by (simp add: kex_exchange_end_def kex_bits_off_def set_ks_def calm_def has_st_def clr_st_def and.assoc)

text \<open>The exchange, for a method that keeps the books.\<close>

lemma kex_exchange_J:
  assumes xk: "\<And>m s. J s \<Longrightarrow> J (snd (xk m s))" and s: "J s"
  shows "J (snd (ssh2_kex_exchange b no_kex kex_require xk r s))"
    and "fst (ssh2_kex_exchange b no_kex kex_require xk r s) = 0 \<Longrightarrow>
      calm (snd (ssh2_kex_exchange b no_kex kex_require xk r s))"
proof -
  let ?t = "kex_begin r s"
  let ?k = "if kex ?t = None \<or> hostkey ?t = None then kex_kexinit b no_kex kex_require ?t else Inr (0, set_ks NB_sent2 ?t)"
  have k: "kexinit_J ?k" using s by (simp add: kex_kexinit_J kex_begin_J) (simp add: kexinit_J_def kex_begin_J)
  have "J (snd (ssh2_kex_exchange b no_kex kex_require xk r s)) \<and>
    (fst (ssh2_kex_exchange b no_kex kex_require xk r s) = 0 \<longrightarrow> calm (snd (ssh2_kex_exchange b no_kex kex_require xk r s)))"
  proof (cases ?k)
    case (Inl q)
    then show ?thesis using k by (simp add: ssh2_kex_exchange_def Let_def kexinit_J_def)
  next
    case (Inr q)
    obtain rc u where q: "q = (rc, u)" by fastforce
    have u: "J u" using k Inr q by (simp add: kexinit_J_def)
    have m: "J (snd (xk m u))" for m using xk u .
    show ?thesis
      unfolding ssh2_kex_exchange_def Let_def Inr q sum.case prod.case
      using u m kex_eagain_J
      by (auto simp: kex_exchange_end_J finish_calm ssh2_err_def kex_eagain_def split: option.split prod.split)
         (metis kex_eagain_J kex_eagain_def kex_exchange_end_J snd_conv J.I_upd)+
  qed
  then show "J (snd (ssh2_kex_exchange b no_kex kex_require xk r s))"
    "fst (ssh2_kex_exchange b no_kex kex_require xk r s) = 0 \<Longrightarrow>
      calm (snd (ssh2_kex_exchange b no_kex kex_require xk r s))" by auto
qed

subsection \<open>What an \<open>exchange_keys\<close> function does to the session\<close>

text \<open>
  The functions themselves are a parameter.  They send, wait for the messages of the exchange and change what
  belongs to the keys; the only packets they take out of the queue are those they wait for.  A function that
  burns a wrongly guessed packet is not of this kind: \<open>ssh2_packet_burn\<close> may take channel data.
\<close>

inductive exchange_run :: "session \<Rightarrow> session \<Rightarrow> bool" where
  run_done: "exchange_run s s"
| run_keys: "exchange_run s t \<Longrightarrow> same_core t u \<Longrightarrow> exchange_run s u"
| run_newkeys: "exchange_run s t \<Longrightarrow> exchange_run s (set_st SSH2_STATE_NEWKEYS t)"
| run_send: "exchange_run s t \<Longrightarrow> exchange_run s (snd (kex_send p d d2 t))"
| run_wait: "exchange_run s t \<Longrightarrow> ty \<noteq> SSH_MSG_CHANNEL_DATA \<Longrightarrow> ty \<noteq> SSH_MSG_CHANNEL_EXTENDED_DATA \<Longrightarrow>
    exchange_run s (snd (snd (snd
      (ssh2_packet_require kex_read (libssh2_session_disconnect kex_send) ty ofs m start t))))"

lemma exchange_run_J: "exchange_run s t \<Longrightarrow> J s \<Longrightarrow> J t"
proof (induction rule: exchange_run.induct)
  case (run_keys s t u)
  then show ?case by (blast intro: same_core_J)
next
  case (run_wait s t ty ofs m start)
  then show ?case by (intro kex_clients.require_J) auto
qed (simp_all add: set_st_J init_bits kex_clients.tsend_keeps)

definition proper_exchange :: "exchange \<Rightarrow> bool" where
  "proper_exchange xk \<longleftrightarrow> (\<forall>m s. exchange_run s (snd (xk m s)))"

lemma rekey_J:
  assumes "proper_exchange xk" "J s"
  shows "J (snd (rekey b xk s))" "fst (rekey b xk s) = 0 \<Longrightarrow> calm (snd (rekey b xk s))"
proof -
  have "J (snd (xk m s))" if "J s" for m s
    using assms(1) exchange_run_J that unfolding proper_exchange_def by blast
  note k = kex_exchange_J [of xk, OF this assms(2)]
  show "J (snd (rekey b xk s))" unfolding rekey_def by (rule k(1))
  show "fst (rekey b xk s) = 0 \<Longrightarrow> calm (snd (rekey b xk s))" unfolding rekey_def by (rule k(2))
qed

subsection \<open>The stack\<close>

lemma rekey_calm: "fst (rekey b xk s) = 0 \<Longrightarrow> calm (snd (rekey b xk s))"
proof -
  have "kex_kexinit b no_kex kex_require t = Inl q \<Longrightarrow> fst q \<noteq> 0" for t q
    by (auto simp: kex_kexinit_def Let_def kex_eagain_def kex_fail_def split: if_splits prod.splits)
  then show "fst (rekey b xk s) = 0 \<Longrightarrow> calm (snd (rekey b xk s))"
    unfolding rekey_def ssh2_kex_exchange_def Let_def
    by (auto simp: finish_calm ssh2_err_def kex_eagain_def split: if_splits sum.splits option.splits prod.splits)
qed

lemma rekey_calm_after: "rekey b xk s = (0, t) \<Longrightarrow> calm t"
  using rekey_calm [of b xk s] by simp

lemma stack_packets: "proper_exchange xk \<Longrightarrow> packet_clients (t_send b xk) (rekey b xk) (t_disconnect b xk)"
  unfolding t_send_def t_disconnect_def
  by (intro packet_clients.intro calm_sender_transport packet_clients_axioms.intro rekey_J disconnect_fault)

lemma stack_transport: "proper_exchange xk \<Longrightarrow> transport_clients (rekey b xk) (t_add b xk)"
  unfolding t_add_def
  by (intro transport_clients.intro rekey_J(1) packet_clients.add_J stack_packets)
     (auto dest: rekey_calm_after)

lemma stack_clients: "proper_exchange xk \<Longrightarrow> channel_clients (t_disconnect b xk) (t_send b xk) (t_read b xk)"
  unfolding t_send_def t_disconnect_def t_read_def
  by (intro channel_clients.intro packet_queue.intro channel_clients_axioms.intro disconnect_fault
      transport_clients.send_keeps [OF stack_transport] transport_clients.read_keeps [OF stack_transport])

text \<open>The same for the layer below, law by law.\<close>

interpretation kex_calm: calm_sender kex_send
  unfolding kex_send_def by (rule calm_sender_transport)

interpretation kex_blocking: blocking J kex_send
  by unfold_locales (rule kex_clients.tsend_keeps)

interpretation kex_adjusting: adjusting J kex_send
  by unfold_locales (rule J_upd_chan)

interpretation kex_queue: packet_queue "libssh2_session_disconnect kex_send"
  by unfold_locales

subsection \<open>The API\<close>

text \<open>
  One call of the API, or new input from the world: what the socket will do next.  Two calls are left out
  where the code breaks the books: flushing again after \<open>LIBSSH2_ERROR_EAGAIN\<close> (see
  \<open>BooksProps\<close>), which setting the mode of extended data may do as well.
\<close>

inductive api_step :: "build \<Rightarrow> exchange \<Rightarrow> session \<Rightarrow> session \<Rightarrow> bool" for b xk where
  step_world: "api_step b xk s (s\<lparr>sock_in := i, sock_out := out, polls := ps\<rparr>)"
| step_open: "api_step b xk s (snd (ssh2_channel_open (t_send b xk) (t_read b xk) (t_disconnect b xk) ty w psize m s))"
| step_startup: "api_step b xk s
    (snd (ssh2_channel_process_startup (t_send b xk) (t_read b xk) (t_disconnect b xk) i r msg s))"
| step_read: "api_step b xk s (snd (snd (libssh2_channel_read_ex (t_send b xk) (t_read b xk) i sid n s)))"
| step_write: "api_step b xk s (snd (libssh2_channel_write_ex (t_send b xk) (t_read b xk) i sid buf s))"
| step_adjust: "api_step b xk s (snd (libssh2_channel_receive_window_adjust2 (t_send b xk) i a force s))"
| step_flush: "flush_state (get_chan i s) = NB_idle \<Longrightarrow> api_step b xk s (snd (ssh2_channel_flush (t_send b xk) i sid s))"
| step_extended: "flush_state (get_chan i s) = NB_idle \<Longrightarrow>
    api_step b xk s (snd (ssh2_channel_extended_data (t_send b xk) i mode s))"
| step_send_eof: "api_step b xk s (snd (libssh2_channel_send_eof (t_send b xk) i s))"
| step_wait_eof: "api_step b xk s (snd (libssh2_channel_wait_eof (t_send b xk) (t_read b xk) i s))"
| step_close: "api_step b xk s (snd (libssh2_channel_close (t_send b xk) (t_read b xk) i s))"
| step_wait_closed: "api_step b xk s (snd (libssh2_channel_wait_closed (t_send b xk) (t_read b xk) i s))"
| step_free: "api_step b xk s (snd (libssh2_channel_free (t_send b xk) (t_read b xk) (t_disconnect b xk) i s))"
| step_signal: "api_step b xk s (snd (libssh2_channel_signal_ex (t_send b xk) i sig s))"
| step_keepalive: "api_step b xk s (snd (snd (libssh2_keepalive_send (t_send b xk) s)))"
| step_disconnect: "api_step b xk s (snd (libssh2_session_disconnect_ex (t_send b xk) reason d lang s))"

lemma world_core: "same_core s (s\<lparr>sock_in := i, sock_out := out, polls := ps\<rparr>)"
  by (simp add: same_core_def)

lemma api_step_J:
  assumes "proper_exchange xk"
  shows "api_step b xk s s' \<Longrightarrow> J s \<Longrightarrow> J s'"
proof (induction rule: api_step.induct)
  note c = stack_clients [OF assms]
  note blk = channel_clients.axioms
  have bl: "blocking J (t_send b xk)"
    by (intro blocking.intro J.framed_axioms blocking_axioms.intro channel_clients.tsend_J [OF c])
  have ad: "adjusting J (t_send b xk)"
    by (intro adjusting.intro bl adjusting_axioms.intro J_upd_chan)
  {
    case (step_world s i out ps)
    then show ?case using world_core by (blast intro: same_core_J)
  next
    case step_open
    then show ?case by (rule channel_clients.channel_open_J [OF c])
  next
    case step_startup
    then show ?case by (rule channel_clients.process_startup_J [OF c])
  next
    case step_read
    then show ?case by (rule channel_clients.read_ex_J [OF c])
  next
    case step_write
    then show ?case
      unfolding libssh2_channel_write_ex_def by (intro blocking.block_I [OF bl] channel_clients.channel_write_J [OF c])
  next
    case step_adjust
    then show ?case
      unfolding libssh2_channel_receive_window_adjust2_def by (intro blocking.block_I [OF bl] adjusting.adjust_I [OF ad])
  next
    case step_flush
    then show ?case by (intro channel_clients.flush_J [OF c])
  next
    case step_extended
    then show ?case by (intro channel_clients.extended_data_J [OF c])
  next
    case step_send_eof
    then show ?case
      unfolding libssh2_channel_send_eof_def by (intro blocking.block_I [OF bl] channel_clients.send_eof_J [OF c])
  next
    case step_wait_eof
    then show ?case
      unfolding libssh2_channel_wait_eof_def by (intro blocking.block_I [OF bl] channel_clients.wait_eof_J [OF c])
  next
    case step_close
    then show ?case
      unfolding libssh2_channel_close_def by (intro blocking.block_I [OF bl] channel_clients.channel_close_J [OF c])
  next
    case step_wait_closed
    then show ?case
      unfolding libssh2_channel_wait_closed_def by (intro blocking.block_I [OF bl] channel_clients.wait_closed_J [OF c])
  next
    case step_free
    then show ?case
      unfolding libssh2_channel_free_def by (intro blocking.block_I [OF bl] channel_clients.channel_free_J [OF c])
  next
    case step_signal
    then show ?case
      unfolding libssh2_channel_signal_ex_def by (intro blocking.block_I [OF bl] channel_clients.signal_J [OF c])
  next
    case step_keepalive
    then show ?case by (rule blocking.keepalive_I [OF bl])
  next
    case step_disconnect
    then show ?case by (rule channel_clients.disconnect_ex_J [OF c])
  }
qed

text \<open>A run of the API, and the session it starts from: after the handshake, before the first channel.\<close>

inductive api_run :: "build \<Rightarrow> exchange \<Rightarrow> session \<Rightarrow> session \<Rightarrow> bool" for b xk where
  api_start: "api_run b xk s s"
| api_more: "api_run b xk s t \<Longrightarrow> api_step b xk t u \<Longrightarrow> api_run b xk s u"

definition no_channels_yet :: "session \<Rightarrow> bool" where
  "no_channels_yet s \<longleftrightarrow> \<not> has_st SSH2_STATE_INITIAL_KEX s \<and> False \<notin> set (allocs s) \<and> packAdd_state s = NB_idle \<and>
     all_channels s = [] \<and> packets s = [] \<and> pending_channels s = [] \<and> qs_channel (packAdd_x11open_state s) = None"

lemma no_channels_J: "no_channels_yet s \<Longrightarrow> J s"
  by (simp add: no_channels_yet_def J_def chan_inv_def books_ok_def)

lemma api_run_J: "proper_exchange xk \<Longrightarrow> api_run b xk s t \<Longrightarrow> J s \<Longrightarrow> J t"
  by (rotate_tac 1, induction rule: api_run.induct) (simp_all add: api_step_J)

end
