(* ===== verification/ChannelProps.thy ===== *)
theory ChannelProps
  imports Books KexNegProps
begin

text \<open>
  What reading, writing and receiving do to the byte streams of a channel.
\<close>

unbundle bit_operations_syntax

subsection \<open>The stream that is queued\<close>

text \<open>The bytes a program will get from stream \<open>sid\<close> of the channel \<open>c\<close>.\<close>

definition stream_of :: "channel \<Rightarrow> int \<Rightarrow> packet list \<Rightarrow> bytes" where
  "stream_of c sid ps =
     concat (map (\<lambda>p. slice (pkt_head p) (pkt_len p - pkt_head p) (pkt_data p)) (filter (wanted c sid) ps))"

lemma stream_of_Cons: "stream_of c sid (p # ps) =
    (if wanted c sid p then slice (pkt_head p) (pkt_len p - pkt_head p) (pkt_data p) else []) @ stream_of c sid ps"
  by (simp add: stream_of_def)

lemma stream_of_append: "stream_of c sid (ps @ qs) = stream_of c sid ps @ stream_of c sid qs"
  by (simp add: stream_of_def)

lemma wanted_head [simp]: "wanted c sid (p\<lparr>pkt_head := h\<rparr>) = wanted c sid p"
  by (simp add: wanted_def pkt_channel_def pkt_stream_def)

lemma wanted_id: "wanted c sid p \<Longrightarrow> wanted c' sid' p \<Longrightarrow> ch_id c' = ch_id c"
  by (simp add: wanted_def)

lemma slice_parts: "n \<le> k \<Longrightarrow> take n (slice h k d) = slice h n d \<and> drop n (slice h k d) = slice (h + n) (k - n) d"
  by (simp add: slice_def drop_take add.commute)

text \<open>The loop over the queue takes a prefix of the stream and leaves the rest.\<close>

lemma read_queue_prefix:
  "\<forall>p \<in> set ps. packet_ok ids p \<Longrightarrow> read_queue (wanted c sid) n ps = (bs, qs) \<Longrightarrow>
    bs = take n (stream_of c sid ps) \<and> stream_of c sid qs = drop n (stream_of c sid ps) \<and>
    (\<forall>c' sid'. ch_id c' \<noteq> ch_id c \<longrightarrow> stream_of c' sid' qs = stream_of c' sid' ps)"
proof (induction ps arbitrary: n bs qs)
  case (Cons p r)
  have p: "packet_ok ids p" and r: "\<forall>p \<in> set r. packet_ok ids p" using Cons.prems(1) by simp_all
  have l: "pkt_head p \<le> pkt_len p" "pkt_len p \<le> length (pkt_data p)" using p by (simp_all add: packet_ok_def)
  let ?k = "pkt_len p - pkt_head p"
  obtain b q where rec: "read_queue (wanted c sid) n r = (b, q)" by fastforce
  obtain b' q' where rec': "read_queue (wanted c sid) (n - ?k) r = (b', q')" by fastforce
  note ih = Cons.IH [OF r rec] Cons.IH [OF r rec']
  have k: "length (slice (pkt_head p) ?k (pkt_data p)) = ?k" using l by (simp add: slice_def)
  have other: "\<not> wanted c' sid' p" if "wanted c sid p" "ch_id c' \<noteq> ch_id c" for c' sid'
    using wanted_id [OF that(1)] that(2) by blast
  consider "n = 0" | "n \<noteq> 0" "\<not> wanted c sid p" | "n \<noteq> 0" "wanted c sid p" "?k \<le> n" | "n \<noteq> 0" "wanted c sid p" "n < ?k"
    by linarith
  then show ?case
  proof cases
    case 1
    then show ?thesis using Cons.prems by auto
  next
    case 2
    then show ?thesis using Cons.prems rec ih(1) by (auto simp: stream_of_Cons)
  next
    case 3
    then have "bs = slice (pkt_head p) ?k (pkt_data p) @ b'" "qs = q'"
      using Cons.prems(2) rec' unat_pkt_left [OF p] by simp_all
    then show ?thesis using 3 ih(2) k other by (simp add: stream_of_Cons)
  next
    case 4
    then have "bs = slice (pkt_head p) n (pkt_data p)" "qs = p\<lparr>pkt_head := pkt_head p + n\<rparr> # r"
      using Cons.prems(2) unat_pkt_left [OF p] by simp_all
    moreover have "stream_of c sid (p # r) = slice (pkt_head p) ?k (pkt_data p) @ stream_of c sid r"
      "stream_of c sid (p\<lparr>pkt_head := pkt_head p + n\<rparr> # r) = slice (pkt_head p + n) (?k - n) (pkt_data p) @ stream_of c sid r"
      using 4(2) by (simp_all add: stream_of_Cons)
    ultimately show ?thesis
      using slice_parts [of n ?k "pkt_head p" "pkt_data p"] 4 k other by (simp add: stream_of_Cons)
  qed
qed (simp add: stream_of_def)

lemma stream_of_same: "ch_id c' = ch_id c \<Longrightarrow> extended_data_ignore_mode (ch_remote c') = extended_data_ignore_mode (ch_remote c) \<Longrightarrow>
    stream_of c' sid ps = stream_of c sid ps"
proof -
  assume "ch_id c' = ch_id c" "extended_data_ignore_mode (ch_remote c') = extended_data_ignore_mode (ch_remote c)"
  then have "wanted c' sid = wanted c sid" by (simp add: wanted_def fun_eq_iff)
  then show ?thesis by (simp add: stream_of_def)
qed

lemma read_take_prefix:
  assumes "J t" "\<not> fault t" "i \<in> ch_id ` set (all_channels t)" "read_take i sid n rc t = (r, bs, s')"
  shows "bs = take n (stream_of (get_chan i t) sid (packets t))"
    and "stream_of (get_chan i t) sid (packets s') = drop n (stream_of (get_chan i t) sid (packets t))"
    and "ch_id c' \<noteq> i \<Longrightarrow> stream_of c' sid' (packets s') = stream_of c' sid' (packets t)"
    and "bs \<noteq> [] \<Longrightarrow> r = int (length bs)"
    and "r = LIBSSH2_ERROR_EAGAIN \<Longrightarrow> bs = []"
proof -
  have ok: "\<forall>p \<in> set (packets t). packet_ok (ch_id ` set (all_channels t)) p"
    using assms(1,2) by (simp add: J_def chan_inv_def books_ok_def)
  obtain c where c: "find_chan i t = Some c" using found [OF assms(3)] by blast
  have i: "get_chan i t = c" "ch_id c = i" using c by (simp_all add: get_chan_found find_chan_id)
  obtain b q where q: "read_queue (wanted c sid) n (packets t) = (b, q)" by fastforce
  note pre = read_queue_prefix [OF ok q]
  have s: "bs = b" "packets s' = q" "bs \<noteq> [] \<Longrightarrow> r = int (length bs)" "r = LIBSSH2_ERROR_EAGAIN \<Longrightarrow> bs = []"
    using assms(4) by (auto simp: read_take_def i q Let_def ssh2_err_def note_err_def split: if_splits)
  show "bs = take n (stream_of (get_chan i t) sid (packets t))"
    "stream_of (get_chan i t) sid (packets s') = drop n (stream_of (get_chan i t) sid (packets t))"
    using pre s i by simp_all
  show "ch_id c' \<noteq> i \<Longrightarrow> stream_of c' sid' (packets s') = stream_of c' sid' (packets t)"
    using pre s i by simp
  show "bs \<noteq> [] \<Longrightarrow> r = int (length bs)" "r = LIBSSH2_ERROR_EAGAIN \<Longrightarrow> bs = []" using s by simp_all
qed

subsection \<open>A session with data for the examples\<close>

definition hello :: packet where
  "hello = \<lparr>pkt_data = [94, 0, 0, 0, 0, 0, 0, 0, 5, 104, 101, 108, 108, 111], pkt_len = 14, pkt_head = 9\<rparr>"

definition one_channel :: "packet list \<Rightarrow> session" where
  "one_channel ps = libssh2_session_init_ex\<lparr>st := 0, api_block_mode := False,
     channels := [channel_0\<lparr>ch_remote := channel_data_0\<lparr>window_size := 64, window_size_initial := 64,
       packet_size := 32\<rparr>, ch_local := channel_data_0\<lparr>window_size := 3, packet_size := 32\<rparr>,
       read_avail := of_nat (qbytes 0 ps)\<rparr>], packets := ps\<rparr>"

text \<open>Exchanging keys changes nothing.\<close>

definition same_keys :: exchange where
  "same_keys m s = (0, s)"

lemma same_keys_proper: "proper_exchange same_keys"
  by (simp add: proper_exchange_def same_keys_def run_done)

lemma one_channel_J: "J (one_channel [hello])" "J (one_channel [])"
  by (simp_all add: one_channel_def J_def chan_inv_def session_init_defs has_st_def state_bits books_ok_def
      all_channels_def pending_channels_def pending_channel_def listen_state_0_def channel_0_def channel_data_0_def
      channel_ok_def qbytes_def hello_def packet_ok_def is_data_def pkt_channel_def ssh2_ntohu32_def data_for_def chr_at_def)

text \<open>Nothing has arrived on the socket.\<close>

lemma one_channel_idle:
  "drain (t_read b xk) (one_channel ps) =
     (LIBSSH2_ERROR_EAGAIN, (one_channel ps)\<lparr>block_directions := LIBSSH2_SESSION_BLOCK_INBOUND\<rparr>)"
proof -
  have "t_read b xk (one_channel ps) =
      (LIBSSH2_ERROR_EAGAIN, (one_channel ps)\<lparr>block_directions := LIBSSH2_SESSION_BLOCK_INBOUND\<rparr>)"
    by (simp add: t_read_def ssh2_transport_read_def Let_def one_channel_def session_init_defs rekey_redirect_def
        has_st_def state_bits read_iter_def read_setup_def read_refill_def remainbuf_def c_assert_def block_in_def
        ssh2_recv_def PACKETBUFSIZE_def upd_defs read_vars_0_def)
  then show ?thesis by (simp add: drain_def)
qed

text \<open>
  C9. What \<open>ssh2_channel_read\<close> returns is a prefix of the stream that is queued once everything the socket has is
  taken in, at most as long as the buffer; the rest stays queued in order, and the streams of other channels
  stay as they are.
\<close>

theorem read_is_prefix:
  assumes "proper_exchange xk" "J s"
    and t: "t = snd (drain (t_read b xk) (snd (read_window (t_send b xk) i (of_nat n) s)))"
    and r: "ssh2_channel_read (t_send b xk) (t_read b xk) i sid n s = (r, bs, s')"
    and "bs \<noteq> []" "\<not> fault s'"
  shows "bs = take n (stream_of (get_chan i t) sid (packets t)) \<and> r = int (length bs) \<and>
    stream_of (get_chan i t) sid (packets s') = drop n (stream_of (get_chan i t) sid (packets t)) \<and>
    (\<forall>c' sid'. ch_id c' \<noteq> i \<longrightarrow> stream_of c' sid' (packets s') = stream_of c' sid' (packets t))"
proof (intro conjI)
  note c = stack_clients [OF assms(1), of b]
  obtain rc u where u: "read_window (t_send b xk) i (of_nat n) s = (rc, u)" by fastforce
  obtain rc' where t': "drain (t_read b xk) u = (rc', t)" using t u by (metis prod.collapse snd_conv)
  have e: "read_take i sid n rc' t = (r, bs, s')"
    using r assms(5) by (auto simp: ssh2_channel_read_def u t' ssh2_err_def split: if_splits)
  have "J u" using channel_clients.read_window_J [OF c assms(2), where i = i and n = "of_nat n"] u by simp
  then have "J t" using channel_clients.drain_J [OF c, where s = u] t' by simp
  moreover have "\<not> fault t" "i \<in> ch_id ` set (all_channels t)"
    using e assms(5,6) by (auto simp: read_take_def Let_def ssh2_err_def note_err_def upd_chan_def all_channels_def
        set_fault_def split: if_splits prod.splits)
  ultimately show "bs = take n (stream_of (get_chan i t) sid (packets t))" "r = int (length bs)"
    "stream_of (get_chan i t) sid (packets s') = drop n (stream_of (get_chan i t) sid (packets t))"
    "\<forall>c' sid'. ch_id c' \<noteq> i \<longrightarrow> stream_of c' sid' (packets s') = stream_of c' sid' (packets t)"
    using read_take_prefix [OF _ _ _ e] assms(5) by blast+
qed

theorem read_is_prefix_witness:
  "fst (snd (ssh2_channel_read (t_send small_build same_keys) (t_read small_build same_keys) 0 0 2
     (one_channel [hello]))) = [104, 101]"
proof -
  let ?s = "one_channel [hello]" and ?b = "small_build" and ?x = same_keys
  let ?t = "?s\<lparr>block_directions := LIBSSH2_SESSION_BLOCK_INBOUND\<rparr>"
  have c: "get_chan 0 ?t = hd (channels ?s)" "get_chan 0 ?s = hd (channels ?s)"
    by (simp_all add: one_channel_def get_chan_def find_chan_def all_channels_def channel_0_def channel_data_0_def)
  have w: "read_window (t_send ?b ?x) 0 (of_nat 2) ?s = (0, ?s)"
    by (simp add: read_window_def c(2)) (simp add: one_channel_def channel_0_def)
  have st: "stream_of (get_chan 0 ?t) 0 (packets ?t) = [104, 101, 108, 108, 111]"
    unfolding c
    by (simp add: stream_of_def one_channel_def hello_def wanted_def pkt_channel_def ssh2_ntohu32_def chr_at_def
        channel_0_def channel_data_0_def slice_def)
  obtain r bs s' where r: "ssh2_channel_read (t_send ?b ?x) (t_read ?b ?x) 0 0 2 ?s = (r, bs, s')"
    using prod_cases3 by blast
  have t: "?t = snd (drain (t_read ?b ?x) (snd (read_window (t_send ?b ?x) 0 (of_nat 2) ?s)))"
    unfolding w one_channel_idle snd_conv ..
  have "bs \<noteq> [] \<and> \<not> fault s'"
    using r unfolding ssh2_channel_read_def w prod.case one_channel_idle
    by (auto simp: read_take_def c(1)) (auto simp: one_channel_def hello_def wanted_def pkt_channel_def
        ssh2_ntohu32_def chr_at_def channel_0_def channel_data_0_def slice_def pkt_left_def upd_chan_def session_init_defs)
  then have "bs \<noteq> []" "\<not> fault s'" by simp_all
  from conjunct1 [OF read_is_prefix [OF same_keys_proper one_channel_J(1) t r this]] show ?thesis
    using st r by simp
qed

subsection \<open>Writing\<close>



subsection \<open>Receiving\<close>

lemma data_queued_takes:
  fixes c :: channel and m :: nat
  assumes c: "find_chan i s = Some c" "channel_ok ps c" "read_avail c < ucast (rwin c)"
    and h: "h \<le> n" "n < 2 ^ 63" "h \<le> 13"
    and m: "m = min (min (n - h) (unat (packet_size (ch_remote c)))) (unat (rwin c) - unat (read_avail c))"
  obtains s' where "data_queued i h n s = Inr (m + h, h, s')" "packets s' = packets s" "packAdd_state s' = packAdd_state s"
    "allocs s' = allocs s" "st s' = st s" "find_chan i s' =
       Some (c\<lparr>ch_remote := (ch_remote c)\<lparr>cd_eof := False\<rparr>, read_avail := read_avail c + of_nat m\<rparr>)"
proof -
  have g: "get_chan i s = c" using c(1) by (rule get_chan_found)
  let ?psize = "unat (packet_size (ch_remote c))" and ?room = "unat (rwin c) - unat (read_avail c)"
  define n1 where "n1 = (if ?psize < n - h then ?psize + h else n)"
  define t where "t = (if ?psize < n - h then note_err LIBSSH2_ERROR_CHANNEL_PACKET_EXCEEDED s else s)"
  define u where "u = upd_chan i (upd_cremote (\<lambda>r. r\<lparr>cd_eof := False\<rparr>)) t"
  define big where "big \<longleftrightarrow> read_avail c + of_nat n1 - of_nat h > ucast (rwin c)"
  define dl :: u64 where "dl = (if big then ucast (rwin c) - read_avail c + of_nat h else of_nat n1)"
  define v where "v = (if big then note_err LIBSSH2_ERROR_CHANNEL_WINDOW_EXCEEDED u else u)"
  define s' where "s' = upd_chan i (\<lambda>c. c\<lparr>read_avail := read_avail c + (dl - of_nat h)\<rparr>) v"
  have ok: "unat (read_avail c) \<le> unat (rwin c)" using c(2) by (simp add: channel_ok_def)
  have n1: "h \<le> n1" "n1 < 9223372036854775808" "n1 - h = min (n - h) ?psize" using h by (auto simp: n1_def)
  note clip = n1(1,2) h(3) ok
  have b: "big \<longleftrightarrow> unat (rwin c) < unat (read_avail c) + (n1 - h)"
    unfolding big_def using clip_above [OF clip] .
  have m': "m = (if big then ?room else n1 - h)" unfolding m n1(3) [symmetric] using b ok by auto
  have dl: "unat dl = m + h" "dl - of_nat h = of_nat m"
    using clip_len [OF clip] clip_diff [OF clip] keep_diff [OF clip] n1(1,2)
    by (simp_all add: dl_def m' unat_of_nat_u64)
  have "data_queued i h n s = Inr (unat dl, h, s')"
    using c(3) unfolding data_queued_def Let_def g s'_def v_def u_def t_def dl_def big_def n1_def
    by (simp add: not_le)
  moreover have fx: "find_chan i (note_err e x) = find_chan i x" "allocs (note_err e x) = allocs x"
    "st (note_err e x) = st x" "packAdd_state (note_err e x) = packAdd_state x" for e x
    by (simp_all add: note_err_def find_chan_def all_channels_def)
  moreover have "find_chan i s' = Some (c\<lparr>ch_remote := (ch_remote c)\<lparr>cd_eof := False\<rparr>, read_avail := read_avail c + of_nat m\<rparr>)"
    using c(1) by (simp add: s'_def v_def u_def t_def find_chan_upd upd_cremote_def fx dl)
  ultimately show thesis using that dl(1) by (simp add: s'_def v_def u_def t_def)
qed

lemma locate_found: "find_chan i s = Some c \<Longrightarrow> ssh2_channel_locate s i = Some i"
proof -
  have l: "locate_in i cs = (if i \<in> ch_id ` set cs then Some i else None)" for cs
    by (induction cs) auto
  have "locate_queued i ls = (if i \<in> ch_id ` set (concat (map ls_queue ls)) then Some i else None)" for ls
    by (induction ls) (auto simp: l)
  moreover assume "find_chan i s = Some c"
  then have "i \<in> ch_id ` set (all_channels s)" by (auto simp: find_chan_def find_Some_iff)
  ultimately show ?thesis by (auto simp: ssh2_channel_locate_def l all_channels_def)
qed

text \<open>
  C10. A message with data for a known channel whose window is not used up adds exactly its bytes, cut to the
  packet size and to what is left of the window, to the end of that channel's stream, whatever else is queued.
\<close>

theorem data_extends_stream:
  fixes c :: channel and m :: nat
  assumes s: "J s" "\<not> fault s" "packAdd_state s = NB_idle" "padd_mac_ok data n ms s"
    and d: "chr_at data 0 = SSH_MSG_CHANNEL_DATA" "9 \<le> n" "n \<le> length data" "length data < 2 ^ 63"
    and c: "find_chan (ssh2_ntohu32 (drop 1 data)) s = Some c" "unat (read_avail c) < unat (rwin c)"
    and m: "m = min (min (n - 9) (unat (packet_size (ch_remote c)))) (unat (rwin c) - unat (read_avail c))"
  shows "\<exists>s'. ssh2_packet_add tsend kx disc data n ms seq s = (0, s') \<and>
    stream_of c 0 (packets s') = stream_of c 0 (packets s) @ slice 9 m data \<and>
    unat (read_avail (get_chan (ch_id c) s')) = unat (read_avail c) + m \<and>
    (\<forall>c' sid. ch_id c' \<noteq> ch_id c \<or> sid \<noteq> 0 \<longrightarrow> stream_of c' sid (packets s') = stream_of c' sid (packets s))"
proof -
  let ?i = "ssh2_ntohu32 (drop 1 data)" and ?s = "s\<lparr>packAdd_state := NB_allocated\<rparr>"
  let ?p = "\<lparr>pkt_data = data, pkt_len = m + 9, pkt_head = 9\<rparr>"
  have i: "ch_id c = ?i" using c(1) by (rule find_chan_id)
  have J: "\<not> has_st SSH2_STATE_INITIAL_KEX s" "False \<notin> set (allocs s)" "channel_ok (packets s) c"
    using s(1,2) J_found [OF s(1) c(1) s(2)] by (simp_all add: J_def)
  have fc: "find_chan ?i ?s = Some c" using c(1) by (simp add: find_chan_def all_channels_def)
  have av: "read_avail c < ucast (rwin c)" 
  proof -
    have "unat (rwin c) < 2 ^ 64" by (rule less_trans [OF unat_u32_lt]) simp
    note unat_of_nat_u64 [OF this]
    then show ?thesis using c(2) unfolding ucast_u32_nat word_less_nat_alt by metis
  qed
  obtain t where t: "data_queued ?i 9 n ?s = Inr (m + 9, 9, t)" "packets t = packets s" "packAdd_state t = NB_allocated"
    "allocs t = allocs s" "st t = st s"
    "find_chan ?i t = Some (c\<lparr>ch_remote := (ch_remote c)\<lparr>cd_eof := False\<rparr>, read_avail := read_avail c + of_nat m\<rparr>)"
    using data_queued_takes [OF fc J(3) av d(2) _ _ m] d by auto
  have sw: "padd_switch tsend data n ?s = Inr (m + 9, 9, t)"
    using d locate_found [OF fc] t(1) by (simp add: padd_switch_def padd_channel_data_def msg_channel_def)
  obtain ok u where a: "ssh2_alloc (t\<lparr>packAdd_state := NB_sent\<rparr>) = (ok, u)" by fastforce
  have u: "ok" "packets u = packets s" "find_chan j u = find_chan j t" for j
    using a J(2) t(2,4) by (auto simp: ssh2_alloc_def find_chan_def all_channels_def split: list.splits)
  let ?v = "u\<lparr>packets := packets s @ [?p], packAdd_state := NB_idle\<rparr>"
  have "padd_finish kx data (m + 9) 9 (t\<lparr>packAdd_state := NB_sent\<rparr>) = (0, ?v)"
    using d(1) by (simp add: padd_finish_def padd_enqueue_def a u padd_done_def)
  then have "ssh2_packet_add tsend kx disc data n ms seq s = (0, ?v)"
    using s(3,4) d J(1) by (auto simp: ssh2_packet_add_def c_assert_def padd_start_def padd_strict_def has_st_def sw chr_at_def)
  moreover have "stream_of c' sid (packets ?v) =
      stream_of c' sid (packets s) @ (if ch_id c' = ch_id c \<and> sid = 0 then slice 9 m data else [])" for c' sid
    using d(1) i by (auto simp: stream_of_append stream_of_def wanted_def pkt_channel_def)
  moreover have "get_chan (ch_id c) ?v = c\<lparr>ch_remote := (ch_remote c)\<lparr>cd_eof := False\<rparr>, read_avail := read_avail c + of_nat m\<rparr>"
    using u(3) [of ?i] t(6) i by (simp add: get_chan_def find_chan_def all_channels_def)
  moreover have "unat (read_avail c + of_nat m) = unat (read_avail c) + m"
  proof -
    have "unat (read_avail c) + m \<le> unat (rwin c)" using m c(2) by linarith
    also have "\<dots> < 2 ^ 64" by (rule less_trans [OF unat_u32_lt]) simp
    finally have "unat (read_avail c) + m < 2 ^ 64" .
    then show ?thesis by (simp add: unat_word_ariths unat_of_nat take_bit_nat_eq_self)
  qed
  ultimately show ?thesis by (intro exI [of _ ?v]) auto
qed

text \<open>Two more bytes for the channel of the examples.\<close>

theorem data_extends_stream_witness:
  "\<exists>s'. ssh2_packet_add (t_send small_build same_keys) (rekey small_build same_keys) (t_disconnect small_build same_keys)
     [94, 0, 0, 0, 0, 0, 0, 0, 2, 33, 33] 11 SSH2_MAC_CONFIRMED 7 (one_channel [hello]) = (0, s') \<and>
   stream_of (hd (channels (one_channel [hello]))) 0 (packets s') = [104, 101, 108, 108, 111, 33, 33]"
proof -
  let ?s = "one_channel [hello]" and ?d = "[94, 0, 0, 0, 0, 0, 0, 0, 2, 33, 33] :: bytes"
  let ?c = "hd (channels ?s)"
  have s: "\<not> fault ?s" "packAdd_state ?s = NB_idle" "padd_mac_ok ?d 11 SSH2_MAC_CONFIRMED ?s"
    by (simp_all add: one_channel_def session_init_defs padd_mac_ok_def)
  have d: "chr_at ?d 0 = SSH_MSG_CHANNEL_DATA" "9 \<le> (11 :: nat)" "11 \<le> length ?d" "length ?d < 2 ^ 63"
    by (simp_all add: chr_at_def)
  have c: "find_chan (ssh2_ntohu32 (drop 1 ?d)) ?s = Some ?c"
    by (simp add: one_channel_def find_chan_def all_channels_def channel_0_def channel_data_0_def ssh2_ntohu32_def)
  have q: "qbytes 0 [hello] = 5"
    by (simp add: qbytes_def hello_def data_for_def is_data_def pkt_channel_def ssh2_ntohu32_def chr_at_def)
  then have a: "unat (read_avail ?c) < unat (rwin ?c)"
    and m: "2 = min (min (11 - 9) (unat (packet_size (ch_remote ?c)))) (unat (rwin ?c) - unat (read_avail ?c))"
    by (simp_all add: one_channel_def channel_data_0_def)
  have "stream_of ?c 0 (packets ?s) = [104, 101, 108, 108, 111]"
    by (simp add: stream_of_def one_channel_def hello_def wanted_def pkt_channel_def ssh2_ntohu32_def chr_at_def
        channel_0_def channel_data_0_def slice_def)
  moreover have "slice 9 2 ?d = [33, 33]" by (simp add: slice_def)
  ultimately show ?thesis
    using data_extends_stream [OF one_channel_J(1) s d c a m, of "t_send small_build same_keys"
        "rekey small_build same_keys" "t_disconnect small_build same_keys" 7] by auto
qed

subsection \<open>Strict key exchange\<close>

lemma framed_queue: "framed (\<lambda>s. calm s \<and> packets s = ps)"
  by unfold_locales (auto simp: same_core_def calm_def has_st_def)

lemma blocking_queue: "blocking (\<lambda>s. calm s \<and> packets s = ps) (ssh2_transport_send kx)"
proof (intro blocking.intro framed_queue blocking_axioms.intro)
  show "calm s \<and> packets s = ps \<Longrightarrow>
      calm (snd (ssh2_transport_send kx p d d2 s)) \<and> packets (snd (ssh2_transport_send kx p d d2 s)) = ps" for s p d d2
    using send_calm [of s kx p d d2] by (auto simp: same_core_def calm_def has_st_def)
qed

lemma disconnect_queue: "packets (snd (libssh2_session_disconnect (ssh2_transport_send kx) d s)) = packets s"
proof -
  let ?s = "clr_st SSH2_STATE_EXCHANGING_KEYS (clr_st SSH2_STATE_INITIAL_KEX s)"
  have "calm ?s \<and> packets ?s = packets s" by (simp add: calm_def) (simp add: clr_st_def)
  then show ?thesis
    unfolding libssh2_session_disconnect_def libssh2_session_disconnect_ex_def
    by (intro conjunct2 [OF blocking.block_I [OF blocking_queue]] blocking.session_disconnect_I [OF blocking_queue])
qed



end
