(* ===== verification/BooksProps.thy ===== *)
theory BooksProps
  imports ChannelProps
begin

text \<open>What the invariant of channels and packets means for a program that uses the library.\<close>

subsection \<open>A session for the examples\<close>

text \<open>After the handshake, non-blocking; the first \<open>send\<close> would block.\<close>

definition ready_session :: session where
  "ready_session = libssh2_session_init_ex\<lparr>st := 0, api_block_mode := False, sock_out := [Send_err (- EAGAIN)]\<rparr>"

definition half_open :: session where
  "half_open = snd (ssh2_channel_open (t_send small_build same_keys) (t_read small_build same_keys)
     (t_disconnect small_build same_keys) (str ''session'') 64 32 [] ready_session)"

lemma half_open_state: "\<not> fault half_open \<and> map ch_id (channels half_open) = [0] \<and> listeners half_open = []"
  by (simp add: half_open_def ready_session_def ssh2_channel_open_def open_then_def open_begin_def ssh2_channel_nextid_def used_ids_def all_channels_def pending_channels_def pending_channel_def listen_state_0_def note_err_def
      ssh2_alloc_def channel_0_def channel_data_0_def open_send_def t_send_def
      ssh2_transport_send_def transport_send_existing_def session_init_defs
        has_st_def state_bits c_assert_def rekey_redirect_def transport_send_new_def send_payload_def
        comp_active_def MAX_SSH_PACKET_LEN_def send_padding_def send_crypt_offset_def send_frame_def
        ssh2_random_def send_out_def upd_defs ssh2_send_def 
        mem_put_def ssh2_htonu32_def slice_def block_out_def Let_def open_packet_of_def ssh2_store_str_def ssh2_store_u32_def)

lemma half_open_run: "api_run small_build same_keys ready_session half_open" "no_channels_yet ready_session"
proof -
  show "api_run small_build same_keys ready_session half_open"
    unfolding half_open_def by (rule api_more [OF api_start step_open])
  show "no_channels_yet ready_session"
    by (simp add: no_channels_yet_def ready_session_def session_init_defs has_st_def all_channels_def
        pending_channels_def pending_channel_def listen_state_0_def)
qed

subsection \<open>The books\<close>





subsection \<open>Flushing twice\<close>

definition count_is :: "u32 \<Rightarrow> packet list \<Rightarrow> u64 \<Rightarrow> session \<Rightarrow> bool" where
  "count_is i ps n s \<longleftrightarrow> calm s \<and> packets s = ps \<and> (\<exists>c. find_chan i s = Some c \<and> read_avail c = n)"

lemma count_is_upd:
  "count_is i ps n s \<Longrightarrow> (\<And>c. ch_id (f c) = ch_id c \<and> read_avail (f c) = read_avail c) \<Longrightarrow> count_is i ps n (upd_chan i f s)"
  by (auto simp: count_is_def find_chan_upd)

lemma count_is_core: "count_is i ps n s \<Longrightarrow> same_core s s' \<Longrightarrow> count_is i ps n s'"
  by (auto simp: count_is_def same_core_def calm_def has_st_def find_chan_def all_channels_def)

interpretation count: framed "count_is i ps n" for i ps n
  by unfold_locales (rule count_is_core)

lemma count_is_adjust:
  assumes "count_is i ps n s"
  shows "count_is i ps n (snd (ssh2_channel_receive_window_adjust (ssh2_transport_send kx) i a force s))"
proof -
  have send: "count_is i ps n t \<Longrightarrow> count_is i ps n (snd (ssh2_transport_send kx p d d2 t))" for t p d d2
    using count_is_core send_calm by (metis count_is_def)
  have b: "count_is i ps n t \<Longrightarrow> count_is i ps n (snd (adjust_begin i a force t))" for t
    unfolding adjust_begin_def Let_def by (intro count.I_intros) (simp_all add: count_is_upd)
  show ?thesis
    unfolding ssh2_channel_receive_window_adjust_def
    by (intro count.I_intros count.I_stops send b assms) (simp_all add: count_is_upd upd_rwin_def)
qed


definition flushing :: session where
  "flushing = ready_session\<lparr>channels := [channel_0\<lparr>flush_state := NB_created, flush_flush_bytes := 5\<rparr>]\<rparr>"


end
