(* ===== verification/KnownHost.thy ===== *)
theory KnownHost
  imports Base64 Methods SessionIO
begin

text \<open>
  \<open>knownhost.c\<close>: the collection of known hosts, its file format and the check of a host's key.

  The collection is a list, as \<open>DList\<close> justifies.  An entry is named by \<open>kh_node\<close>, its address; the
  allocator hands out an address that is not in use.  A C string that a caller passes is a byte list whose end
  reads as NUL, so only its part up to the first NUL counts (\<open>c_str\<close>); a pointer with a length is the list of
  that many bytes; NULL is \<open>None\<close>.  The collection itself exists (the code returns
  \<open>LIBSSH2_ERROR_BAD_USE\<close> otherwise).
\<close>

unbundle bit_operations_syntax

subsection \<open>Constants\<close>

abbreviation (input) LIBSSH2_ERROR_FILE :: int where "LIBSSH2_ERROR_FILE \<equiv> - 16"

definition LIBSSH2_KNOWNHOST_TYPE_MASK :: u32 where "LIBSSH2_KNOWNHOST_TYPE_MASK = 0xFFFF"
abbreviation (input) LIBSSH2_KNOWNHOST_TYPE_PLAIN :: u32 where "LIBSSH2_KNOWNHOST_TYPE_PLAIN \<equiv> 1"
abbreviation (input) LIBSSH2_KNOWNHOST_TYPE_SHA1 :: u32 where "LIBSSH2_KNOWNHOST_TYPE_SHA1 \<equiv> 2"
abbreviation (input) LIBSSH2_KNOWNHOST_TYPE_CUSTOM :: u32 where "LIBSSH2_KNOWNHOST_TYPE_CUSTOM \<equiv> 3"

definition LIBSSH2_KNOWNHOST_KEYENC_BASE64 :: u32 where "LIBSSH2_KNOWNHOST_KEYENC_BASE64 = push_bit 16 2"
definition LIBSSH2_KNOWNHOST_KEY_MASK :: u32 where "LIBSSH2_KNOWNHOST_KEY_MASK = push_bit 18 15"
definition LIBSSH2_KNOWNHOST_KEY_RSA1 :: u32 where "LIBSSH2_KNOWNHOST_KEY_RSA1 = push_bit 18 1"
definition LIBSSH2_KNOWNHOST_KEY_SSHRSA :: u32 where "LIBSSH2_KNOWNHOST_KEY_SSHRSA = push_bit 18 2"
definition LIBSSH2_KNOWNHOST_KEY_SSHDSS :: u32 where "LIBSSH2_KNOWNHOST_KEY_SSHDSS = push_bit 18 3"
definition LIBSSH2_KNOWNHOST_KEY_ECDSA_256 :: u32 where "LIBSSH2_KNOWNHOST_KEY_ECDSA_256 = push_bit 18 4"
definition LIBSSH2_KNOWNHOST_KEY_ECDSA_384 :: u32 where "LIBSSH2_KNOWNHOST_KEY_ECDSA_384 = push_bit 18 5"
definition LIBSSH2_KNOWNHOST_KEY_ECDSA_521 :: u32 where "LIBSSH2_KNOWNHOST_KEY_ECDSA_521 = push_bit 18 6"
definition LIBSSH2_KNOWNHOST_KEY_ED25519 :: u32 where "LIBSSH2_KNOWNHOST_KEY_ED25519 = push_bit 18 7"
definition LIBSSH2_KNOWNHOST_KEY_UNKNOWN :: u32 where "LIBSSH2_KNOWNHOST_KEY_UNKNOWN = push_bit 18 15"

lemmas kh_masks = LIBSSH2_KNOWNHOST_TYPE_MASK_def LIBSSH2_KNOWNHOST_KEYENC_BASE64_def LIBSSH2_KNOWNHOST_KEY_MASK_def
  LIBSSH2_KNOWNHOST_KEY_RSA1_def LIBSSH2_KNOWNHOST_KEY_SSHRSA_def LIBSSH2_KNOWNHOST_KEY_SSHDSS_def
  LIBSSH2_KNOWNHOST_KEY_ECDSA_256_def LIBSSH2_KNOWNHOST_KEY_ECDSA_384_def LIBSSH2_KNOWNHOST_KEY_ECDSA_521_def
  LIBSSH2_KNOWNHOST_KEY_ED25519_def LIBSSH2_KNOWNHOST_KEY_UNKNOWN_def

definition KNOWNHOST_MAX_LEN :: nat where "KNOWNHOST_MAX_LEN = 1024 * 1024"

subsection \<open>Entries\<close>

record known_host =
  kh_node :: nat
  kh_name :: bytes
  kh_typemask :: u32
  kh_salt :: "bytes option"
  kh_key :: bytes
  kh_key_type_name :: "bytes option"
  kh_comment :: "bytes option"

type_synonym known_hosts = "known_host list"

definition c_str :: "bytes \<Rightarrow> bytes" where
  "c_str s = takeWhile (\<lambda>c. c \<noteq> 0) s"

definition kh_type :: "u32 \<Rightarrow> u32" where
  "kh_type typemask = typemask AND LIBSSH2_KNOWNHOST_TYPE_MASK"

definition kh_key_type :: "u32 \<Rightarrow> u32" where
  "kh_key_type typemask = typemask AND LIBSSH2_KNOWNHOST_KEY_MASK"

text \<open>An address that no entry of the collection has.\<close>

definition kh_fresh :: "known_hosts \<Rightarrow> nat" where
  "kh_fresh hosts = Suc (fold max (map kh_node hosts) 0)"

subsection \<open>Errors\<close>

text \<open>A step that may fail with a status code.\<close>

type_synonym 'a attempt = "session \<Rightarrow> (rc + 'a) \<times> session"

definition and_then :: "'a attempt \<Rightarrow> ('a \<Rightarrow> 'b attempt) \<Rightarrow> 'b attempt" where
  "and_then f g s = (case f s of (Inl rc, s) \<Rightarrow> (Inl rc, s) | (Inr x, s) \<Rightarrow> g x s)"

definition fail_with :: "rc \<Rightarrow> 'a attempt" where
  "fail_with rc s = (case ssh2_err rc s of (rc, s) \<Rightarrow> (Inl rc, s))"

definition fail_quietly :: "rc \<Rightarrow> 'a attempt" where
  "fail_quietly rc s = (Inl rc, s)"

definition give :: "'a \<Rightarrow> 'a attempt" where
  "give x s = (Inr x, s)"

definition allocated :: "'a \<Rightarrow> 'a attempt" where
  "allocated x s = (case ssh2_alloc s of (ok, s) \<Rightarrow> if ok then (Inr x, s) else fail_with LIBSSH2_ERROR_ALLOC s)"

lemmas attempt_defs = and_then_def fail_with_def fail_quietly_def give_def allocated_def

text \<open>Decoding into a new block; what the block holds at first does not matter, since all that is used is written.\<close>

definition b64_decoded :: "bytes \<Rightarrow> bytes attempt" where
  "b64_decoded src s =
     (case ssh2_alloc s of (ok, s) \<Rightarrow>
        case ssh2_base64_decode (if ok then Some (replicate (length src) 0) else None) src of
          None \<Rightarrow> (Inr [], set_fault s)
        | Some (Inl rc) \<Rightarrow> fail_with rc s
        | Some (Inr (d, len)) \<Rightarrow> (Inr (take len d), s))"

definition b64_encoded :: "bytes \<Rightarrow> bytes attempt" where
  "b64_encoded inp s =
     (case (if inp = [] then (True, s) else ssh2_alloc s) of (ok, s) \<Rightarrow>
        case ssh2_base64_encode ok inp of
          (_, None) \<Rightarrow> fail_with LIBSSH2_ERROR_ALLOC s
        | (nlen, Some txt) \<Rightarrow> if nlen = 0 then fail_with LIBSSH2_ERROR_ALLOC s else (Inr (take nlen txt), s))"

subsection \<open>Adding\<close>

text \<open>The name as it is kept, and the salt.\<close>

definition add_name :: "bytes \<Rightarrow> bytes option \<Rightarrow> u32 \<Rightarrow> (bytes \<times> bytes option) attempt" where
  "add_name host salt typemask =
     (if kh_type typemask = LIBSSH2_KNOWNHOST_TYPE_PLAIN \<or> kh_type typemask = LIBSSH2_KNOWNHOST_TYPE_CUSTOM
      then allocated (c_str host, None)
      else if kh_type typemask = LIBSSH2_KNOWNHOST_TYPE_SHA1 then
        and_then (b64_decoded (c_str host)) (\<lambda>name.
          if name = [] then fail_with LIBSSH2_ERROR_INVAL
          else case salt of
            None \<Rightarrow> fail_with LIBSSH2_ERROR_INVAL
          | Some salt \<Rightarrow>
              if c_strlen salt > KNOWNHOST_MAX_LEN then fail_with LIBSSH2_ERROR_OUT_OF_BOUNDARY
              else and_then (b64_decoded (c_str salt)) (\<lambda>salt.
                if salt = [] then fail_with LIBSSH2_ERROR_INVAL else give (name, Some salt)))
      else fail_with LIBSSH2_ERROR_METHOD_NOT_SUPPORTED)"

definition add_key :: "bytes \<Rightarrow> u32 \<Rightarrow> bytes attempt" where
  "add_key key typemask =
     (if typemask AND LIBSSH2_KNOWNHOST_KEYENC_BASE64 \<noteq> 0 then allocated key else b64_encoded key)"

text \<open>A bounded copy of an optional block.\<close>

definition add_copy :: "bytes option \<Rightarrow> bytes option attempt" where
  "add_copy block =
     (case block of
        None \<Rightarrow> give None
      | Some x \<Rightarrow> if length x > KNOWNHOST_MAX_LEN then fail_with LIBSSH2_ERROR_OUT_OF_BOUNDARY else allocated (Some x))"

definition add_key_type :: "bytes option \<Rightarrow> u32 \<Rightarrow> bytes option attempt" where
  "add_key_type key_type_name typemask =
     (if kh_key_type typemask = LIBSSH2_KNOWNHOST_KEY_UNKNOWN then add_copy key_type_name else give None)"

text \<open>The new entry, if nothing fails.\<close>

definition new_entry :: "nat \<Rightarrow> bytes \<Rightarrow> bytes option \<Rightarrow> bytes option \<Rightarrow> bytes \<Rightarrow> bytes option \<Rightarrow> u32 \<Rightarrow> known_host attempt" where
  "new_entry node host salt key_type_name key comment typemask =
     and_then (allocated ()) (\<lambda>_.
     and_then (add_name host salt typemask) (\<lambda>(name, salt).
     and_then (add_key key typemask) (\<lambda>key.
     and_then (add_key_type key_type_name typemask) (\<lambda>key_type_name.
     and_then (add_copy comment) (\<lambda>comment.
       give \<lparr>kh_node = node, kh_name = name, kh_typemask = typemask, kh_salt = salt, kh_key = key,
             kh_key_type_name = key_type_name, kh_comment = comment\<rparr>)))))"

definition knownhost_add :: "bytes option \<Rightarrow> bytes option \<Rightarrow> bytes option \<Rightarrow> bytes option \<Rightarrow> bytes option \<Rightarrow> u32 \<Rightarrow>
    known_hosts \<Rightarrow> (nat \<times> known_hosts) attempt" where
  "knownhost_add host salt key_type_name key comment typemask hosts =
     (case (host, key) of
        (Some host, Some key) \<Rightarrow>
          if key = [] then fail_with LIBSSH2_ERROR_BAD_USE
          else if c_strlen host > KNOWNHOST_MAX_LEN \<or> length key > KNOWNHOST_MAX_LEN
          then fail_quietly LIBSSH2_ERROR_OUT_OF_BOUNDARY
          else if kh_key_type typemask = 0 then fail_with LIBSSH2_ERROR_INVAL
          else and_then (new_entry (kh_fresh hosts) host salt key_type_name key comment typemask)
                 (\<lambda>e. give (kh_node e, hosts @ [e]))
      | _ \<Rightarrow> fail_quietly LIBSSH2_ERROR_BAD_USE)"

text \<open>
  The status, what is stored through \<open>store\<close> (the entry's address), the collection, and the session; a failed
  call leaves the collection as it was.
\<close>

definition run_add :: "(nat \<times> known_hosts) attempt \<Rightarrow> known_hosts \<Rightarrow> session \<Rightarrow> rc \<times> nat option \<times> known_hosts \<times> session" where
  "run_add f hosts s =
     (case f s of (Inl rc, s) \<Rightarrow> (rc, None, hosts, s) | (Inr (node, hosts), s) \<Rightarrow> (LIBSSH2_ERROR_NONE, Some node, hosts, s))"

definition libssh2_knownhost_add :: "bytes option \<Rightarrow> bytes option \<Rightarrow> bytes option \<Rightarrow> u32 \<Rightarrow> known_hosts \<Rightarrow> session \<Rightarrow>
    rc \<times> nat option \<times> known_hosts \<times> session" where
  "libssh2_knownhost_add host salt key typemask hosts =
     run_add (knownhost_add host salt None key None typemask hosts) hosts"

definition libssh2_knownhost_addc :: "bytes option \<Rightarrow> bytes option \<Rightarrow> bytes option \<Rightarrow> bytes option \<Rightarrow> u32 \<Rightarrow>
    known_hosts \<Rightarrow> session \<Rightarrow> rc \<times> nat option \<times> known_hosts \<times> session" where
  "libssh2_knownhost_addc host salt key comment typemask hosts =
     run_add (knownhost_add host salt None key comment typemask hosts) hosts"

subsection \<open>Checking\<close>

datatype kh_check = CHECK_MATCH | CHECK_MISMATCH | CHECK_NOTFOUND | CHECK_FAILURE

text \<open>\<open>%d\<close> of a number that is not negative.\<close>

fun dec :: "nat \<Rightarrow> bytes" where
  "dec n = (if n < 10 then [of_nat (48 + n)] else dec (n div 10) @ [of_nat (48 + n mod 10)])"

declare dec.simps [simp del]

definition host_port :: "bytes \<Rightarrow> nat \<Rightarrow> bytes" where
  "host_port host port = [91] @ host @ [93, 58] @ dec port"

text \<open>Does the entry stand for the host?  A hashed name is compared with the HMAC of the host under its salt.\<close>

definition host_match :: "build \<Rightarrow> u32 \<Rightarrow> bytes \<Rightarrow> known_host \<Rightarrow> bool" where
  "host_match b type host node =
     (let t = kh_type (kh_typemask node)
      in if t = LIBSSH2_KNOWNHOST_TYPE_PLAIN
         then type = LIBSSH2_KNOWNHOST_TYPE_PLAIN \<and> host = kh_name node
         else if t = LIBSSH2_KNOWNHOST_TYPE_CUSTOM
         then type = LIBSSH2_KNOWNHOST_TYPE_CUSTOM \<and> host = kh_name node
         else if t = LIBSSH2_KNOWNHOST_TYPE_SHA1
         then type = LIBSSH2_KNOWNHOST_TYPE_PLAIN \<and> length (kh_name node) = 20 \<and>
              (case b_hmac b ''SSH2_SHA1_HMAC'' (case kh_salt node of Some x \<Rightarrow> x | None \<Rightarrow> []) host of
                 None \<Rightarrow> False
               | Some hash \<Rightarrow> pad_to 20 hash = kh_name node)
         else False)"

definition key_type_match :: "u32 \<Rightarrow> known_host \<Rightarrow> bool" where
  "key_type_match typemask node \<longleftrightarrow>
     (let host_key_type = kh_key_type typemask
      in host_key_type \<noteq> LIBSSH2_KNOWNHOST_KEY_UNKNOWN \<and>
         (host_key_type = 0 \<or> host_key_type = kh_key_type (kh_typemask node)))"

text \<open>One pass over the entries: the entry with the key, or the first one for the host with another key.\<close>

fun check_nodes :: "(known_host \<Rightarrow> bool) \<Rightarrow> bytes \<Rightarrow> known_hosts \<Rightarrow> known_host option \<Rightarrow>
    known_host option \<times> known_host option" where
  "check_nodes ok key [] badkey = (None, badkey)"
| "check_nodes ok key (node # r) badkey =
     (if ok node then
        if key = c_str (kh_key node) then (Some node, None)
        else check_nodes ok key r (case badkey of None \<Rightarrow> Some node | Some k \<Rightarrow> Some k)
      else check_nodes ok key r badkey)"

fun check_hosts :: "(bytes \<Rightarrow> known_host \<Rightarrow> bool) \<Rightarrow> bytes \<Rightarrow> bytes list \<Rightarrow> known_hosts \<Rightarrow> known_host option \<Rightarrow>
    known_host option \<times> known_host option" where
  "check_hosts ok key [] nodes badkey = (None, badkey)"
| "check_hosts ok key (host # r) nodes badkey =
     (case check_nodes (ok host) key nodes badkey of
        (Some node, badkey) \<Rightarrow> (Some node, badkey)
      | (None, badkey) \<Rightarrow> check_hosts ok key r nodes badkey)"

definition check_found :: "known_host option \<times> known_host option \<Rightarrow> kh_check \<times> nat option" where
  "check_found r =
     (case r of
        (_, Some badkey) \<Rightarrow> (CHECK_MISMATCH, Some (kh_node badkey))
      | (Some node, None) \<Rightarrow> (CHECK_MATCH, Some (kh_node node))
      | (None, None) \<Rightarrow> (CHECK_NOTFOUND, None))"

text \<open>\<open>port\<close> is \<open>None\<close> when it is negative.  The result, the entry stored through \<open>store\<close>, and the session.\<close>

definition knownhost_check :: "build \<Rightarrow> known_hosts \<Rightarrow> bytes option \<Rightarrow> nat option \<Rightarrow> bytes option \<Rightarrow> u32 \<Rightarrow> session \<Rightarrow>
    (kh_check \<times> nat option) \<times> session" where
  "knownhost_check b hosts hostp port key typemask s =
     (let failure = (\<lambda>rc s. ((CHECK_FAILURE, None), note_err rc s)); type = kh_type typemask
      in case (hostp, key) of
           (Some hostp, Some key) \<Rightarrow>
             if length key > KNOWNHOST_MAX_LEN then failure LIBSSH2_ERROR_OUT_OF_BOUNDARY s
             else if type = LIBSSH2_KNOWNHOST_TYPE_SHA1 then ((CHECK_MISMATCH, None), s)
             else if (case port of None \<Rightarrow> False | Some p \<Rightarrow> length (host_port (c_str hostp) p) \<ge> 270)
             then failure LIBSSH2_ERROR_BUFFER_TOO_SMALL s
             else
               let names = (case port of None \<Rightarrow> [c_str hostp] | Some p \<Rightarrow> [host_port (c_str hostp) p, c_str hostp]);
                   ok = (\<lambda>host node. host_match b type host node \<and> key_type_match typemask node)
               in case (if typemask AND LIBSSH2_KNOWNHOST_KEYENC_BASE64 = 0 then b64_encoded key s
                        else (Inr (c_str key), s)) of
                    (Inl rc, s) \<Rightarrow> failure LIBSSH2_ERROR_ALLOC s
                  | (Inr key, s) \<Rightarrow> (check_found (check_hosts ok key names hosts None), s)
         | _ \<Rightarrow> failure LIBSSH2_ERROR_BAD_USE s)"

definition libssh2_knownhost_check :: "build \<Rightarrow> known_hosts \<Rightarrow> bytes option \<Rightarrow> bytes option \<Rightarrow> u32 \<Rightarrow> session \<Rightarrow>
    (kh_check \<times> nat option) \<times> session" where
  "libssh2_knownhost_check b hosts host key typemask = knownhost_check b hosts host None key typemask"

definition libssh2_knownhost_checkp :: "build \<Rightarrow> known_hosts \<Rightarrow> bytes option \<Rightarrow> int \<Rightarrow> bytes option \<Rightarrow> u32 \<Rightarrow> session \<Rightarrow>
    (kh_check \<times> nat option) \<times> session" where
  "libssh2_knownhost_checkp b hosts host port key typemask =
     knownhost_check b hosts host (if port \<ge> 0 then Some (nat port) else None) key typemask"

subsection \<open>Removing and walking\<close>

text \<open>
  What the application holds is a pointer into the entry: its magic and its address.  A pointer to an entry that
  has been removed is dangling.
\<close>

definition libssh2_knownhost_del :: "(bool \<times> nat) option \<Rightarrow> known_hosts \<Rightarrow> session \<Rightarrow> rc \<times> known_hosts \<times> session" where
  "libssh2_knownhost_del entry hosts s =
     (case entry of
        Some (True, node) \<Rightarrow>
          (LIBSSH2_ERROR_NONE, filter (\<lambda>e. kh_node e \<noteq> node) hosts, c_assert (node \<in> kh_node ` set hosts) s)
      | _ \<Rightarrow> (case ssh2_err LIBSSH2_ERROR_INVAL s of (rc, s) \<Rightarrow> (rc, hosts, s)))"

fun kh_after :: "nat \<Rightarrow> known_hosts \<Rightarrow> known_hosts option" where
  "kh_after node [] = None"
| "kh_after node (e # r) = (if kh_node e = node then Some r else kh_after node r)"

text \<open>0 and the next entry, or 1 at the end.\<close>

definition libssh2_knownhost_get :: "nat option \<Rightarrow> known_hosts \<Rightarrow> session \<Rightarrow> rc \<times> nat option \<times> session" where
  "libssh2_knownhost_get prev hosts s =
     (case (case prev of None \<Rightarrow> Some hosts | Some node \<Rightarrow> kh_after node hosts) of
        None \<Rightarrow> (1, None, set_fault s)
      | Some [] \<Rightarrow> (1, None, s)
      | Some (e # _) \<Rightarrow> (0, Some (kh_node e), s))"

subsection \<open>Reading\<close>

abbreviation (input) is_blank :: "u8 \<Rightarrow> bool" where "is_blank c \<equiv> c = 32 \<or> c = 9"

type_synonym adder = "known_hosts \<Rightarrow> session \<Rightarrow> rc \<times> nat option \<times> known_hosts \<times> session"

text \<open>
  The names of a line, from the last to the first: \<open>n\<close> bytes of \<open>host\<close> are left, the name that is being
  collected has \<open>namelen\<close> bytes so far.
\<close>

fun legacy_loop :: "(bytes \<Rightarrow> adder) \<Rightarrow> bytes \<Rightarrow> nat \<Rightarrow> nat \<Rightarrow> known_hosts \<Rightarrow> session \<Rightarrow> rc \<times> known_hosts \<times> session" where
  "legacy_loop add host 0 namelen hosts s = (0, hosts, s)"
| "legacy_loop add host (Suc n) namelen hosts s =
     (let namelen = Suc namelen
      in if n = 0 \<or> chr_at host (n - 1) = 44 then
           if namelen \<ge> 255
           then (case ssh2_err LIBSSH2_ERROR_METHOD_NOT_SUPPORTED s of (rc, s) \<Rightarrow> (rc, hosts, s))
           else case add (slice n namelen host) hosts s of (rc, _, hosts, s) \<Rightarrow>
                if rc \<noteq> 0 then (rc, hosts, s)
                else legacy_loop add host (n - 1) 0 hosts s
         else legacy_loop add host n namelen hosts s)"

definition knownhost_line_legacy :: "bytes \<Rightarrow> bytes option \<Rightarrow> bytes \<Rightarrow> u32 \<Rightarrow> bytes option \<Rightarrow> known_hosts \<Rightarrow> session \<Rightarrow>
    rc \<times> known_hosts \<times> session" where
  "knownhost_line_legacy host key_type_name key key_type comment hosts s =
     (if length host < 1
      then (case ssh2_err LIBSSH2_ERROR_METHOD_NOT_SUPPORTED s of (rc, s) \<Rightarrow> (rc, hosts, s))
      else legacy_loop (\<lambda>name hosts. run_add (knownhost_add (Some name) None key_type_name (Some key) comment
             (key_type OR LIBSSH2_KNOWNHOST_TYPE_PLAIN OR LIBSSH2_KNOWNHOST_KEYENC_BASE64) hosts) hosts)
             host (length host) 0 hosts s)"

text \<open>\<open>|1|salt|hash\<close>; without the second separator nothing happens.\<close>

definition knownhost_line_hashed :: "bytes \<Rightarrow> bytes option \<Rightarrow> bytes \<Rightarrow> u32 \<Rightarrow> bytes option \<Rightarrow> known_hosts \<Rightarrow> session \<Rightarrow>
    rc \<times> known_hosts \<times> session" where
  "knownhost_line_hashed host key_type_name key key_type comment hosts s =
     (let h = drop 3 host; salt = takeWhile (\<lambda>c. c \<noteq> 0 \<and> c \<noteq> 124) h; rest = drop (length salt) h
      in if rest \<noteq> [] \<and> hd rest = 124 then
           let hash = tl rest
           in if length salt \<ge> 31 \<or> length hash \<ge> 255
              then (case ssh2_err LIBSSH2_ERROR_METHOD_NOT_SUPPORTED s of (rc, s) \<Rightarrow> (rc, hosts, s))
              else case run_add (knownhost_add (Some hash) (Some salt) key_type_name (Some key) comment
                     (key_type OR LIBSSH2_KNOWNHOST_TYPE_SHA1 OR LIBSSH2_KNOWNHOST_KEYENC_BASE64) hosts) hosts s of
                   (rc, _, hosts, s) \<Rightarrow> (rc, hosts, s)
         else (0, hosts, s))"

text \<open>The key type of a name: only its own length is compared.\<close>

fun first_prefixed :: "bytes \<Rightarrow> (string \<times> u32) list \<Rightarrow> u32" where
  "first_prefixed name [] = LIBSSH2_KNOWNHOST_KEY_UNKNOWN"
| "first_prefixed name ((lit, t) # r) =
     (if c_strncmp_eq name (str lit) (length name) then t else first_prefixed name r)"

definition key_type_table :: "build \<Rightarrow> (string \<times> u32) list" where
  "key_type_table b =
     [(''ssh-ed25519'', LIBSSH2_KNOWNHOST_KEY_ED25519),
      (''ecdsa-sha2-nistp256'', LIBSSH2_KNOWNHOST_KEY_ECDSA_256),
      (''ecdsa-sha2-nistp384'', LIBSSH2_KNOWNHOST_KEY_ECDSA_384),
      (''ecdsa-sha2-nistp521'', LIBSSH2_KNOWNHOST_KEY_ECDSA_521),
      (''ssh-rsa'', LIBSSH2_KNOWNHOST_KEY_SSHRSA)] @
     only_if (b_dsa b) [(''ssh-dss'', LIBSSH2_KNOWNHOST_KEY_SSHDSS)]"

text \<open>The key part of a line: the name of the type, the type, the key and the comment.\<close>

definition split_key :: "build \<Rightarrow> bytes \<Rightarrow> bytes option \<times> u32 \<times> bytes \<times> bytes option" where
  "split_key b key =
     (if 48 \<le> chr_at key 0 \<and> chr_at key 0 \<le> 57 then (None, LIBSSH2_KNOWNHOST_KEY_RSA1, key, None)
      else
        let word = (\<lambda>c. c \<noteq> 0 \<and> c \<noteq> 32 \<and> c \<noteq> 9);
            name = takeWhile word key;
            key = dropWhile is_blank (dropWhile word key);
            rest = dropWhile word key
        in (Some name, first_prefixed name (key_type_table b), takeWhile word key,
            if rest = [] then None else Some (dropWhile is_blank rest)))"

definition knownhost_line :: "build \<Rightarrow> bytes \<Rightarrow> bytes \<Rightarrow> known_hosts \<Rightarrow> session \<Rightarrow> rc \<times> known_hosts \<times> session" where
  "knownhost_line b host key hosts s =
     (if length key < 20
      then (case ssh2_err LIBSSH2_ERROR_METHOD_NOT_SUPPORTED s of (rc, s) \<Rightarrow> (rc, hosts, s))
      else case split_key b key of (key_type_name, key_type, key, comment) \<Rightarrow>
        if key = [] then (case ssh2_err LIBSSH2_ERROR_METHOD_NOT_SUPPORTED s of (rc, s) \<Rightarrow> (rc, hosts, s))
        else if length host < 3 \<or> take 3 host \<noteq> [124, 49, 124]
        then knownhost_line_legacy host key_type_name key key_type comment hosts s
        else knownhost_line_hashed host key_type_name key key_type comment hosts s)"

abbreviation (input) LIBSSH2_KNOWNHOST_FILE_OPENSSH :: int where "LIBSSH2_KNOWNHOST_FILE_OPENSSH \<equiv> 1"

definition libssh2_knownhost_readline :: "build \<Rightarrow> bytes option \<Rightarrow> int \<Rightarrow> known_hosts \<Rightarrow> session \<Rightarrow> rc \<times> known_hosts \<times> session" where
  "libssh2_knownhost_readline b line type hosts s =
     (case line of
        None \<Rightarrow> (LIBSSH2_ERROR_BAD_USE, hosts, s)
      | Some line \<Rightarrow>
          if length line > KNOWNHOST_MAX_LEN then (LIBSSH2_ERROR_OUT_OF_BOUNDARY, hosts, s)
          else if type \<noteq> LIBSSH2_KNOWNHOST_FILE_OPENSSH
          then (case ssh2_err LIBSSH2_ERROR_METHOD_NOT_SUPPORTED s of (rc, s) \<Rightarrow> (rc, hosts, s))
          else
            let cp = dropWhile is_blank line
            in if chr_at cp 0 = 0 \<or> chr_at cp 0 = 35 \<or> chr_at cp 0 = 10 then (LIBSSH2_ERROR_NONE, hosts, s)
               else
                 let host = takeWhile (\<lambda>c. c \<noteq> 0 \<and> c \<noteq> 32 \<and> c \<noteq> 9) cp;
                     cp = dropWhile is_blank (drop (length host) cp)
                 in if chr_at cp 0 = 0
                    then (case ssh2_err LIBSSH2_ERROR_METHOD_NOT_SUPPORTED s of (rc, s) \<Rightarrow> (rc, hosts, s))
                    else knownhost_line b host (takeWhile (\<lambda>c. c \<noteq> 0 \<and> c \<noteq> 10) cp) hosts s)"

text \<open>\<open>fgets\<close>: a line with its newline, but at most \<open>n\<close> bytes.\<close>

definition fgets_take :: "nat \<Rightarrow> bytes \<Rightarrow> bytes" where
  "fgets_take n f = take n (takeWhile (\<lambda>c. c \<noteq> 10) f @ (if 10 \<in> set f then [10] else []))"

lemma fgets_take_0: "fgets_take 4091 f = [] \<longleftrightarrow> f = []"
  by (cases f) (auto simp: fgets_take_def)

function readfile_loop :: "build \<Rightarrow> bytes \<Rightarrow> int \<Rightarrow> known_hosts \<Rightarrow> session \<Rightarrow> int \<times> known_hosts \<times> session" where
  "readfile_loop b f num hosts s =
     (if f = [] then (num, hosts, s)
      else
        let buf = fgets_take 4091 f
        in case libssh2_knownhost_readline b (Some (c_str buf)) LIBSSH2_KNOWNHOST_FILE_OPENSSH hosts s of
             (rc, hosts, s) \<Rightarrow>
               if rc \<noteq> 0 then (case ssh2_err LIBSSH2_ERROR_KNOWN_HOSTS s of (rc, s) \<Rightarrow> (rc, hosts, s))
               else readfile_loop b (drop (length buf) f) (num + 1) hosts s)"
  by pat_completeness auto

termination
  by (relation "measure (\<lambda>(b, f, num, hosts, s). length f)") (auto simp: fgets_take_0)

text \<open>The contents of the file, if it can be opened.\<close>

definition libssh2_knownhost_readfile :: "build \<Rightarrow> bytes option \<Rightarrow> int \<Rightarrow> known_hosts \<Rightarrow> session \<Rightarrow> int \<times> known_hosts \<times> session" where
  "libssh2_knownhost_readfile b file type hosts s =
     (if type \<noteq> LIBSSH2_KNOWNHOST_FILE_OPENSSH
      then (case ssh2_err LIBSSH2_ERROR_METHOD_NOT_SUPPORTED s of (rc, s) \<Rightarrow> (rc, hosts, s))
      else case file of
             None \<Rightarrow> (case ssh2_err LIBSSH2_ERROR_FILE s of (rc, s) \<Rightarrow> (rc, hosts, s))
           | Some f \<Rightarrow> readfile_loop b f 0 hosts s)"

subsection \<open>Writing\<close>

definition key_type_names :: "build \<Rightarrow> (u32 \<times> string) list" where
  "key_type_names b =
     [(LIBSSH2_KNOWNHOST_KEY_SSHRSA, ''ssh-rsa'')] @
     only_if (b_dsa b) [(LIBSSH2_KNOWNHOST_KEY_SSHDSS, ''ssh-dss'')] @
     [(LIBSSH2_KNOWNHOST_KEY_ECDSA_256, ''ecdsa-sha2-nistp256''), (LIBSSH2_KNOWNHOST_KEY_ECDSA_384, ''ecdsa-sha2-nistp384''),
      (LIBSSH2_KNOWNHOST_KEY_ECDSA_521, ''ecdsa-sha2-nistp521''), (LIBSSH2_KNOWNHOST_KEY_ED25519, ''ssh-ed25519'')]"

text \<open>The name to write (\<open>Some []\<close> for RSA1), or \<open>None\<close> for an entry that cannot be written.\<close>

definition key_type_name_of :: "build \<Rightarrow> known_host \<Rightarrow> bytes option" where
  "key_type_name_of b node =
     (let t = kh_key_type (kh_typemask node)
      in if t = LIBSSH2_KNOWNHOST_KEY_RSA1 then Some []
         else case map_of (key_type_names b) t of
                Some lit \<Rightarrow> Some (str lit)
              | None \<Rightarrow> if t = LIBSSH2_KNOWNHOST_KEY_UNKNOWN then kh_key_type_name node else None)"

definition line_text :: "bytes \<Rightarrow> bytes \<Rightarrow> known_host \<Rightarrow> bytes" where
  "line_text host tname node =
     host @ [32] @ (if tname \<noteq> [] then c_str tname @ [32] else []) @ c_str (kh_key node) @
     (case kh_comment node of None \<Rightarrow> [] | Some x \<Rightarrow> [32] @ c_str x) @ [10]"

definition required_size :: "bytes \<Rightarrow> known_host \<Rightarrow> nat" where
  "required_size tname node =
     c_strlen (kh_key node) + (if tname \<noteq> [] then length tname + 1 else 0) +
     (case kh_comment node of None \<Rightarrow> 0 | Some x \<Rightarrow> length x + 1)"

text \<open>
  The status, what is stored through \<open>outlen\<close>, the text that is written to the buffer, if any, and the session.
\<close>

definition knownhost_writeline :: "build \<Rightarrow> known_host \<Rightarrow> nat \<Rightarrow> int \<Rightarrow> session \<Rightarrow>
    rc \<times> nat option \<times> bytes option \<times> session" where
  "knownhost_writeline b node buflen type s =
     (let fail = (\<lambda>rc s. case ssh2_err rc s of (rc, s) \<Rightarrow> (rc, None, None, s));
          finish = (\<lambda>size text s.
            if size \<le> buflen then (LIBSSH2_ERROR_NONE, Some (size - 1), Some text, s)
            else (case ssh2_err LIBSSH2_ERROR_BUFFER_TOO_SMALL s of (rc, s) \<Rightarrow> (rc, Some (size - 1), None, s)))
      in if type \<noteq> LIBSSH2_KNOWNHOST_FILE_OPENSSH then fail LIBSSH2_ERROR_METHOD_NOT_SUPPORTED s
         else case key_type_name_of b node of
                None \<Rightarrow> fail LIBSSH2_ERROR_METHOD_NOT_SUPPORTED s
              | Some tname \<Rightarrow>
                  if kh_type (kh_typemask node) = LIBSSH2_KNOWNHOST_TYPE_SHA1 then
                    (case b64_encoded (kh_name node) s of
                       (Inl rc, s) \<Rightarrow> fail LIBSSH2_ERROR_ALLOC s
                     | (Inr name64, s) \<Rightarrow>
                         (case b64_encoded (case kh_salt node of Some x \<Rightarrow> x | None \<Rightarrow> []) s of
                            (Inl rc, s) \<Rightarrow> fail LIBSSH2_ERROR_ALLOC s
                          | (Inr salt64, s) \<Rightarrow>
                              finish (required_size tname node + length salt64 + length name64 + 7)
                                (line_text ([124, 49, 124] @ salt64 @ [124] @ name64) tname node) s))
                  else
                    finish (required_size tname node + length (kh_name node) + 3)
                      (line_text (c_str (kh_name node)) tname node) s)"

definition libssh2_knownhost_writeline :: "build \<Rightarrow> known_hosts \<Rightarrow> (bool \<times> nat) option \<Rightarrow> nat \<Rightarrow> int \<Rightarrow> session \<Rightarrow>
    rc \<times> nat option \<times> bytes option \<times> session" where
  "libssh2_knownhost_writeline b hosts known buflen type s =
     (case known of
        None \<Rightarrow> (LIBSSH2_ERROR_BAD_USE, None, None, s)
      | Some (False, _) \<Rightarrow> (case ssh2_err LIBSSH2_ERROR_INVAL s of (rc, s) \<Rightarrow> (rc, None, None, s))
      | Some (True, node) \<Rightarrow>
          (case find (\<lambda>e. kh_node e = node) hosts of
             None \<Rightarrow> (LIBSSH2_ERROR_INVAL, None, None, set_fault s)
           | Some e \<Rightarrow> knownhost_writeline b e buflen type s))"

text \<open>
  The file that is written; \<open>fwrite_ok\<close> says how many bytes \<open>fwrite\<close> takes of each line.  What the buffer
  holds beyond the text of a line, when \<open>outlen\<close> is greater than the text, is read past it: a fault.
\<close>

fun writefile_loop :: "build \<Rightarrow> (bytes \<Rightarrow> nat) \<Rightarrow> known_hosts \<Rightarrow> bytes \<Rightarrow> session \<Rightarrow> rc \<times> bytes \<times> session" where
  "writefile_loop b fwrite [] f s = (LIBSSH2_ERROR_NONE, f, s)"
| "writefile_loop b fwrite (node # r) f s =
     (case knownhost_writeline b node 4092 LIBSSH2_KNOWNHOST_FILE_OPENSSH s of
        (rc, wrote, text, s) \<Rightarrow>
          if rc \<noteq> 0 then (rc, f, s)
          else
            let text = (case text of Some t \<Rightarrow> t | None \<Rightarrow> []); n = fwrite text;
                s = c_assert (wrote = Some (length text)) s
            in if n \<noteq> length text
               then (case ssh2_err LIBSSH2_ERROR_FILE s of (rc, s) \<Rightarrow> (rc, f @ take n text, s))
               else writefile_loop b fwrite r (f @ text) s)"

definition libssh2_knownhost_writefile :: "build \<Rightarrow> bool \<Rightarrow> (bytes \<Rightarrow> nat) \<Rightarrow> int \<Rightarrow> known_hosts \<Rightarrow> session \<Rightarrow>
    rc \<times> bytes \<times> session" where
  "libssh2_knownhost_writefile b opened fwrite type hosts s =
     (if type \<noteq> LIBSSH2_KNOWNHOST_FILE_OPENSSH
      then (case ssh2_err LIBSSH2_ERROR_METHOD_NOT_SUPPORTED s of (rc, s) \<Rightarrow> (rc, [], s))
      else if \<not> opened then (case ssh2_err LIBSSH2_ERROR_FILE s of (rc, s) \<Rightarrow> (rc, [], s))
      else writefile_loop b fwrite hosts [] s)"

end
