(* ===== verification/KnownHostProps.thy ===== *)
theory KnownHostProps
  imports KnownHost KexNegProps
begin

text \<open>The check of a host key, and the file format of the known hosts.\<close>

unbundle bit_operations_syntax

subsection \<open>The verdict\<close>

lemma check_nodes_verdict:
  "check_nodes ok key nodes badkey =
     (case find (\<lambda>e. key = c_str (kh_key e)) (filter ok nodes) of
        Some e \<Rightarrow> (Some e, None)
      | None \<Rightarrow> (None, case badkey of Some k \<Rightarrow> Some k
                     | None \<Rightarrow> (case filter ok nodes of [] \<Rightarrow> None | e # _ \<Rightarrow> Some e)))"
  by (induction nodes arbitrary: badkey) (auto split: option.splits list.splits)

lemma check_hosts_verdict:
  "check_hosts ok key names nodes badkey =
     (let c = concat (map (\<lambda>h. filter (ok h) nodes) names)
      in case find (\<lambda>e. key = c_str (kh_key e)) c of
           Some e \<Rightarrow> (Some e, None)
         | None \<Rightarrow> (None, case badkey of Some k \<Rightarrow> Some k | None \<Rightarrow> (case c of [] \<Rightarrow> None | e # _ \<Rightarrow> Some e)))"
proof (induction names arbitrary: badkey)
  case (Cons h names)
  have f: "find P (xs @ ys) = (case find P xs of None \<Rightarrow> find P ys | Some x \<Rightarrow> Some x)" for P and xs ys :: known_hosts
    by (induction xs) auto
  show ?case
    unfolding check_hosts.simps check_nodes_verdict Cons.IH Let_def
    by (auto simp: f split: option.splits list.splits)
qed (simp split: option.split)

text \<open>The names a host is looked up under, and the key as the entries hold it.\<close>

definition lookup_names :: "bytes \<Rightarrow> nat option \<Rightarrow> bytes list" where
  "lookup_names host port =
     (case port of None \<Rightarrow> [c_str host] | Some p \<Rightarrow> [host_port (c_str host) p, c_str host])"

definition candidates_for :: "build \<Rightarrow> known_hosts \<Rightarrow> bytes list \<Rightarrow> u32 \<Rightarrow> known_hosts" where
  "candidates_for b hosts names typemask =
     concat (map (\<lambda>h. filter (\<lambda>e. host_match b (kh_type typemask) h e \<and> key_type_match typemask e) hosts) names)"



subsection \<open>Lines\<close>

definition word_ok :: "bytes \<Rightarrow> bool" where
  "word_ok x \<longleftrightarrow> x \<noteq> [] \<and> (\<forall>c \<in> set x. c \<noteq> 0 \<and> c \<noteq> 9 \<and> c \<noteq> 10 \<and> c \<noteq> 32)"

definition comment_ok :: "bytes option \<Rightarrow> bool" where
  "comment_ok x \<longleftrightarrow> (case x of None \<Rightarrow> True
     | Some c \<Rightarrow> 0 \<notin> set c \<and> 10 \<notin> set c \<and> (c = [] \<or> \<not> is_blank (hd c)))"

definition comment_text :: "bytes option \<Rightarrow> bytes" where
  "comment_text x = (case x of None \<Rightarrow> [] | Some c \<Rightarrow> 32 # c)"

lemma c_str_word: "0 \<notin> set x \<Longrightarrow> c_str x = x"
  unfolding c_str_def by (induction x) auto

lemma word_no_nul: "word_ok x \<Longrightarrow> 0 \<notin> set x"
  by (auto simp: word_ok_def)

lemma word_split:
  assumes "word_ok x" "y = [] \<or> hd y = 0 \<or> is_blank (hd y)"
  shows "takeWhile (\<lambda>c. c \<noteq> 0 \<and> c \<noteq> 32 \<and> c \<noteq> 9) (x @ y) = x" "dropWhile (\<lambda>c. c \<noteq> 0 \<and> c \<noteq> 32 \<and> c \<noteq> 9) (x @ y) = y"
    "dropWhile is_blank (x @ y) = x @ y" "chr_at (x @ y) 0 = hd x"
  using assms by (cases x; cases y; auto simp: word_ok_def takeWhile_append dropWhile_append chr_at_def)+

lemma blank_word: "word_ok x \<Longrightarrow> dropWhile is_blank (32 # x @ y) = x @ y"
  by (cases x) (auto simp: word_ok_def)

lemma split_key_line:
  assumes "word_ok tname" "word_ok key" "comment_ok comment" "\<not> (48 \<le> hd tname \<and> hd tname \<le> 57)"
  shows "split_key b (tname @ 32 # key @ comment_text comment) =
    (Some tname, first_prefixed tname (key_type_table b), key, comment)"
proof -
  let ?t = "comment_text comment"
  have t: "?t = [] \<or> hd ?t = 0 \<or> is_blank (hd ?t)" by (cases comment) (simp_all add: comment_text_def)
  have h: "chr_at (tname @ 32 # key @ ?t) 0 = hd tname" by (rule word_split(4) [OF assms(1)]) simp
  have w: "takeWhile (\<lambda>c. c \<noteq> 0 \<and> c \<noteq> 32 \<and> c \<noteq> 9) (tname @ 32 # key @ ?t) = tname"
    "dropWhile (\<lambda>c. c \<noteq> 0 \<and> c \<noteq> 32 \<and> c \<noteq> 9) (tname @ 32 # key @ ?t) = 32 # key @ ?t"
    by (rule word_split [OF assms(1)], simp)+
  have c: "(if ?t = [] then None else Some (dropWhile is_blank ?t)) = comment"
  proof (cases comment)
    case (Some c)
    then show ?thesis using assms(3) by (cases c) (auto simp: comment_text_def comment_ok_def)
  qed (simp add: comment_text_def)
  show ?thesis
    using assms(4) c
    unfolding split_key_def h Let_def w blank_word [OF assms(2)] word_split(1,2) [OF assms(2) t]
    by simp
qed

lemma readline_parts:
  assumes "word_ok host" "hd host \<noteq> 35" "word_ok tname" "word_ok key" "comment_ok comment"
    and "\<not> (48 \<le> hd tname \<and> hd tname \<le> 57)" "20 \<le> length tname + 1 + length key + length (comment_text comment)"
    and "length (host @ 32 # tname @ 32 # key @ comment_text comment @ [10]) \<le> KNOWNHOST_MAX_LEN"
  shows "libssh2_knownhost_readline b (Some (host @ 32 # tname @ 32 # key @ comment_text comment @ [10]))
      LIBSSH2_KNOWNHOST_FILE_OPENSSH hosts s =
    (if length host < 3 \<or> take 3 host \<noteq> [124, 49, 124]
     then knownhost_line_legacy host (Some tname) key (first_prefixed tname (key_type_table b)) comment hosts s
     else knownhost_line_hashed host (Some tname) key (first_prefixed tname (key_type_table b)) comment hosts s)"
proof -
  let ?t = "comment_text comment" and ?line = "host @ 32 # tname @ 32 # key @ comment_text comment @ [10]"
  have a: "dropWhile is_blank ?line = ?line" "chr_at ?line 0 = hd host"
    "takeWhile (\<lambda>c. c \<noteq> 0 \<and> c \<noteq> 32 \<and> c \<noteq> 9) ?line = host"
    by (rule word_split [OF assms(1)], simp)+
  have hd: "hd host \<noteq> 0" "hd host \<noteq> 10" using assms(1) by (auto simp: word_ok_def)
  have d: "dropWhile is_blank (drop (length host) ?line) = tname @ 32 # key @ ?t @ [10]"
    using blank_word [OF assms(3)] by simp
  have c: "chr_at (tname @ 32 # key @ ?t @ [10]) 0 = hd tname" by (rule word_split(4) [OF assms(3)]) simp
  have ht: "hd tname \<noteq> 0" using assms(3) by (auto simp: word_ok_def)
  have k: "takeWhile (\<lambda>c. c \<noteq> 0 \<and> c \<noteq> 10) (tname @ 32 # key @ ?t @ [10]) = tname @ 32 # key @ ?t"
  proof -
    have "c \<noteq> 0 \<and> c \<noteq> 10" if "c \<in> set ?t" for c
      using assms(5) that by (cases comment) (auto simp: comment_ok_def comment_text_def)
    moreover have "c \<noteq> 0 \<and> c \<noteq> 10" if "word_ok x" "c \<in> set x" for c x using that by (simp add: word_ok_def)
    ultimately have "\<forall>c \<in> set (tname @ 32 # key @ ?t). c \<noteq> 0 \<and> c \<noteq> 10" using assms(3,4) by auto
    then have "takeWhile (\<lambda>c. c \<noteq> 0 \<and> c \<noteq> 10) ((tname @ 32 # key @ ?t) @ [10]) = tname @ 32 # key @ ?t"
      by (subst takeWhile_append2) auto
    then show ?thesis by simp
  qed
  have l: "\<not> length (tname @ 32 # key @ ?t) < 20" using assms(7) by simp
  have "key \<noteq> []" using assms(4) by (simp add: word_ok_def)
  then have "knownhost_line b host (tname @ 32 # key @ ?t) hosts s =
    (if length host < 3 \<or> take 3 host \<noteq> [124, 49, 124]
     then knownhost_line_legacy host (Some tname) key (first_prefixed tname (key_type_table b)) comment hosts s
     else knownhost_line_hashed host (Some tname) key (first_prefixed tname (key_type_table b)) comment hosts s)"
    unfolding knownhost_line_def split_key_line [OF assms(3-6)] if_not_P [OF l] prod.case by (rule if_not_P)
  moreover have "libssh2_knownhost_readline b (Some ?line) LIBSSH2_KNOWNHOST_FILE_OPENSSH hosts s =
      knownhost_line b host (tname @ 32 # key @ ?t) hosts s"
    using assms(2,8) hd ht
    unfolding libssh2_knownhost_readline_def option.case Let_def a d c k by (simp only: not_less [symmetric] if_False simp_thms)
  ultimately show ?thesis by simp
qed

text \<open>A host field without a comma is one name.\<close>

lemma legacy_one:
  "n \<noteq> 0 \<Longrightarrow> 44 \<notin> set (take n host) \<Longrightarrow> n \<le> length host \<Longrightarrow> n + k < 255 \<Longrightarrow> legacy_loop add host n k hosts s =
    (case add (slice 0 (n + k) host) hosts s of (rc, _, hosts, s) \<Rightarrow> (rc, hosts, s))"
proof (induction n arbitrary: k)
  case (Suc n)
  show ?case
  proof (cases "n = 0")
    case False
    have "take (Suc n) host = take n host @ [host ! n]" using Suc.prems(3) by (simp add: take_Suc_conv_app_nth)
    moreover have "host ! (n - 1) \<in> set (take n host)"
      using False Suc.prems(3) by (auto simp: in_set_conv_nth intro!: exI [of _ "n - 1"])
    ultimately have "chr_at host (n - 1) \<noteq> 44" "44 \<notin> set (take n host)"
      using Suc.prems(2,3) by (auto simp: chr_at_def)
    then show ?thesis using Suc.IH [of "Suc k"] Suc.prems False by (simp del: legacy_loop.simps(1))
  qed (use Suc.prems in \<open>auto split: prod.split\<close>)
qed simp

subsection \<open>Round trips\<close>

lemma alloc_free: "allocs s = [] \<Longrightarrow> ssh2_alloc s = (True, s)"
  by (simp add: ssh2_alloc_def)

lemma b64_encode_nonempty: "x \<noteq> [] \<Longrightarrow> base64_encode_loop x \<noteq> []"
  using base64_value_encode [of x] by auto

lemma b64_encode_free: "allocs s = [] \<Longrightarrow> x \<noteq> [] \<Longrightarrow> b64_encoded x s = (Inr (base64_encode_loop x), s)"
  using b64_encode_nonempty [of x] by (simp add: b64_encoded_def alloc_free encode_result)

lemma b64_decode_free:
  assumes "allocs s = []"
  shows "b64_decoded (base64_encode_loop x) s = (Inr x, s)"
proof -
  let ?t = "base64_encode_loop x"
  obtain d where "length d = length ?t" "take (length x) d = x"
    "ssh2_base64_decode (Some (replicate (length ?t) 0)) ?t = Some (Inr (d, length x))"
    using base64_decode_digits [of "replicate (length ?t) 0" ?t] length_digits_encode [of x]
    by (auto simp: base64_value_encode)
  then show ?thesis using assms by (simp add: b64_decoded_def alloc_free)
qed

definition type_name_kept :: "u32 \<Rightarrow> bytes \<Rightarrow> bytes option" where
  "type_name_kept typemask tname = (if kh_key_type typemask = LIBSSH2_KNOWNHOST_KEY_UNKNOWN then Some tname else None)"

lemma add_line:
  assumes "allocs s = []" "key \<noteq> []" "c_strlen host \<le> KNOWNHOST_MAX_LEN" "length key \<le> KNOWNHOST_MAX_LEN"
    and "kh_key_type t \<noteq> 0" "t AND LIBSSH2_KNOWNHOST_KEYENC_BASE64 \<noteq> 0" "length tname \<le> KNOWNHOST_MAX_LEN"
    and "\<forall>c. comment = Some c \<longrightarrow> length c \<le> KNOWNHOST_MAX_LEN"
    and "add_name host salt t s = (Inr (name, salt'), s)"
  shows "run_add (knownhost_add (Some host) salt (Some tname) (Some key) comment t hosts) hosts s =
    (0, Some (kh_fresh hosts),
     hosts @ [\<lparr>kh_node = kh_fresh hosts, kh_name = name, kh_typemask = t, kh_salt = salt', kh_key = key,
       kh_key_type_name = type_name_kept t tname, kh_comment = comment\<rparr>], s)"
  using assms
  by (cases comment)
     (simp_all add: run_add_def knownhost_add_def new_entry_def add_key_def add_key_type_def add_copy_def
       type_name_kept_def attempt_defs alloc_free)

text \<open>What a line can hold of an entry, apart from the name.\<close>

definition line_entry :: "build \<Rightarrow> known_host \<Rightarrow> bytes \<Rightarrow> bool" where
  "line_entry b e tname \<longleftrightarrow> key_type_name_of b e = Some tname \<and> word_ok tname \<and> word_ok (kh_key e) \<and>
     comment_ok (kh_comment e) \<and> \<not> (48 \<le> hd tname \<and> hd tname \<le> 57) \<and>
     first_prefixed tname (key_type_table b) = kh_key_type (kh_typemask e) \<and> kh_key_type (kh_typemask e) \<noteq> 0 \<and>
     kh_typemask e = kh_key_type (kh_typemask e) OR kh_type (kh_typemask e) OR LIBSSH2_KNOWNHOST_KEYENC_BASE64 \<and>
     kh_key_type_name e = type_name_kept (kh_typemask e) tname \<and>
     20 \<le> length tname + 1 + length (kh_key e) + length (comment_text (kh_comment e))"

lemma base64_bit: "x = y OR z OR LIBSSH2_KNOWNHOST_KEYENC_BASE64 \<Longrightarrow> x AND LIBSSH2_KNOWNHOST_KEYENC_BASE64 \<noteq> 0"
proof -
  assume "x = y OR z OR LIBSSH2_KNOWNHOST_KEYENC_BASE64"
  then have "bit (x AND LIBSSH2_KNOWNHOST_KEYENC_BASE64) 17"
    by (simp add: bit_and_iff bit_or_iff LIBSSH2_KNOWNHOST_KEYENC_BASE64_def bit_push_bit_iff)
  then show ?thesis by (metis bit_0_eq bot_apply bot_bool_def)
qed

lemma line_text_entry:
  assumes "line_entry b e tname"
  shows "line_text host tname e = host @ 32 # tname @ 32 # kh_key e @ comment_text (kh_comment e) @ [10]"
    "required_size tname e = length tname + 1 + length (kh_key e) + length (comment_text (kh_comment e))"
proof -
  have w: "c_str tname = tname" "c_str (kh_key e) = kh_key e" "c_strlen (kh_key e) = length (kh_key e)" "tname \<noteq> []"
    using assms by (simp_all add: line_entry_def word_no_nul c_str_word c_strlen_no_nul) (simp add: word_ok_def)
  have "comment_ok (kh_comment e)" using assms by (simp add: line_entry_def)
  then have "\<forall>c. kh_comment e = Some c \<longrightarrow> c_str c = c" by (auto simp: comment_ok_def c_str_word)
  then show "line_text host tname e = host @ 32 # tname @ 32 # kh_key e @ comment_text (kh_comment e) @ [10]"
    "required_size tname e = length tname + 1 + length (kh_key e) + length (comment_text (kh_comment e))"
    using w by (auto simp: line_text_def required_size_def comment_text_def split: option.split)
qed



lemma encoded_chars: "c \<in> set (base64_encode_loop x) \<Longrightarrow> c \<notin> {0, 9, 10, 32, 35, 124}"
proof -
  have t: "\<forall>c \<in> set table64. c \<notin> {0, 9, 10, 32, 35, 124}" by code_simp
  have "base64_char (base64_obuf a b c ! k) \<in> set table64" if "k \<in> {0, 1, 2, 3}" for a b c k
    using obuf_lt_64 [OF that, of a b c] nth_mem by (simp add: base64_char_def length_table64)
  then have k: "base64_char (base64_obuf a b c ! k) \<notin> {0, 9, 10, 32, 35, 124}" if "k \<in> {0, 1, 2, 3}" for a b c k
    using that t by blast
  show "c \<in> set (base64_encode_loop x) \<Longrightarrow> c \<notin> {0, 9, 10, 32, 35, 124}"
    by (induction x rule: base64_encode_loop.induct)
       (use k in \<open>force simp: Let_def\<close>)+
qed

lemma encoded_word: "x \<noteq> [] \<Longrightarrow> word_ok (base64_encode_loop x)"
  using encoded_chars [of _ x] b64_encode_nonempty [of x] by (auto simp: word_ok_def)



subsection \<open>A trailing comma\<close>

text \<open>
  A comma after the only name of a line becomes part of the name: the line is accepted, but the host is not
  found afterwards, whatever its key.
\<close>

theorem trailing_comma_hides_host:
  assumes name: "word_ok name" "hd name \<noteq> 35" "44 \<notin> set name" "take 3 (name @ [44]) \<noteq> [124, 49, 124]" "length name < 254"
    and f: "word_ok tname" "word_ok key" "\<not> (48 \<le> hd tname \<and> hd tname \<le> 57)" "20 \<le> length tname + 1 + length key"
      "first_prefixed tname (key_type_table b) = kt" "kt \<in> {LIBSSH2_KNOWNHOST_KEY_ED25519, LIBSSH2_KNOWNHOST_KEY_SSHRSA}"
    and l: "length ((name @ [44]) @ 32 # tname @ 32 # key @ [10]) \<le> KNOWNHOST_MAX_LEN" "length key' \<le> KNOWNHOST_MAX_LEN"
    and s: "allocs s = []"
  shows "\<exists>hosts. libssh2_knownhost_readline b (Some ((name @ [44]) @ 32 # tname @ 32 # key @ [10]))
      LIBSSH2_KNOWNHOST_FILE_OPENSSH [] s = (0, hosts, s) \<and>
    fst (libssh2_knownhost_check b hosts (Some name) (Some key') (LIBSSH2_KNOWNHOST_TYPE_PLAIN OR LIBSSH2_KNOWNHOST_KEYENC_BASE64) s) =
      (CHECK_NOTFOUND, None)"
proof -
  let ?host = "name @ [44]" and ?t = "kt OR LIBSSH2_KNOWNHOST_TYPE_PLAIN OR LIBSSH2_KNOWNHOST_KEYENC_BASE64"
  let ?e = "\<lparr>kh_node = kh_fresh [], kh_name = ?host, kh_typemask = ?t, kh_salt = None, kh_key = key,
       kh_key_type_name = type_name_kept ?t tname, kh_comment = None\<rparr>"
  have h: "word_ok ?host" "hd ?host \<noteq> 35" "name \<noteq> []" "0 \<notin> set ?host"
    using name(1,2) by (auto simp: word_ok_def)
  have c: "comment_ok None" "comment_text None = []" by (simp_all add: comment_ok_def comment_text_def)
  have kt: "kh_key_type ?t \<noteq> 0" "kh_type ?t = LIBSSH2_KNOWNHOST_TYPE_PLAIN"
    using f(6) by (auto simp: kh_key_type_def kh_type_def kh_masks)
  have lens: "length key \<le> KNOWNHOST_MAX_LEN" "length tname \<le> KNOWNHOST_MAX_LEN" "length ?host \<le> KNOWNHOST_MAX_LEN"
    using l by simp_all
  have an: "add_name ?host None ?t s = (Inr (?host, None), s)"
    using kt(2) s h(4) by (simp add: add_name_def allocated_def alloc_free c_str_word)
  have "key \<noteq> []" using f(2) by (simp add: word_ok_def)
  then have add: "run_add (knownhost_add (Some ?host) None (Some tname) (Some key) None ?t []) [] s = (0, Some (kh_fresh []), [?e], s)"
    using add_line [OF s _ _ lens(1) kt(1) base64_bit [OF refl] lens(2) _ an, of None "[]"] lens(3) h(4)
    by (simp add: c_strlen_no_nul)
  have "chr_at ?host (length name - 1) \<noteq> 44"
    using h(3) name(3) by (cases name rule: rev_cases) (auto simp: chr_at_def nth_append)
  moreover have "slice 0 (Suc (length name)) ?host = ?host" by (simp add: slice_def)
  ultimately have "knownhost_line_legacy ?host (Some tname) key kt None [] s = (0, [?e], s)"
    using legacy_one [of "length name" ?host "Suc 0"] name(3,5) h(3) add
    by (simp add: knownhost_line_legacy_def)
  then have read: "libssh2_knownhost_readline b (Some (?host @ 32 # tname @ 32 # key @ [10])) LIBSSH2_KNOWNHOST_FILE_OPENSSH [] s =
      (0, [?e], s)"
    using readline_parts [OF h(1,2) f(1,2) c(1) f(3), of b "[]" s] f(4,5) l(1) name(4) by (simp add: c(2))
  have "\<not> host_match b LIBSSH2_KNOWNHOST_TYPE_PLAIN name ?e" using kt(2) by (simp add: host_match_def)
  moreover have "c_str name = name" using h(4) by (simp add: c_str_word)
  ultimately have "fst (libssh2_knownhost_check b [?e] (Some name) (Some key')
      (LIBSSH2_KNOWNHOST_TYPE_PLAIN OR LIBSSH2_KNOWNHOST_KEYENC_BASE64) s) = (CHECK_NOTFOUND, None)"
    using l(2) by (simp add: libssh2_knownhost_check_def knownhost_check_def kh_type_def kh_masks check_found_def)
  then show ?thesis using read by blast
qed

theorem trailing_comma_hides_host_witness:
  "\<exists>hosts. libssh2_knownhost_readline small_build (Some ((str ''h.example'' @ [44]) @ 32 # str ''ssh-ed25519'' @ 32 # str ''AAAAC3Nz'' @ [10]))
      LIBSSH2_KNOWNHOST_FILE_OPENSSH [] bare_session = (0, hosts, bare_session) \<and>
    fst (libssh2_knownhost_check small_build hosts (Some (str ''h.example'')) (Some (str ''AAAAC3Nz''))
      (LIBSSH2_KNOWNHOST_TYPE_PLAIN OR LIBSSH2_KNOWNHOST_KEYENC_BASE64) bare_session) = (CHECK_NOTFOUND, None)"
  by (rule trailing_comma_hides_host [where kt = LIBSSH2_KNOWNHOST_KEY_ED25519])
     (simp_all add: word_ok_def str_def key_type_table_def KNOWNHOST_MAX_LEN_def bare_session_def session_init_defs)

subsection \<open>What the collection holds\<close>

text \<open>
  Entries have a type of key, a key, a name that is a C string or, with its salt, a hash; they have different
  addresses.
\<close>

definition entry_ok :: "known_host \<Rightarrow> bool" where
  "entry_ok e \<longleftrightarrow> kh_key_type (kh_typemask e) \<noteq> 0 \<and> kh_key e \<noteq> [] \<and>
     (if kh_type (kh_typemask e) = LIBSSH2_KNOWNHOST_TYPE_SHA1
      then kh_name e \<noteq> [] \<and> (\<exists>x. kh_salt e = Some x \<and> x \<noteq> [])
      else kh_type (kh_typemask e) \<in> {LIBSSH2_KNOWNHOST_TYPE_PLAIN, LIBSSH2_KNOWNHOST_TYPE_CUSTOM} \<and>
           0 \<notin> set (kh_name e) \<and> kh_salt e = None) \<and>
     (kh_key_type_name e \<noteq> None \<longrightarrow> kh_key_type (kh_typemask e) = LIBSSH2_KNOWNHOST_KEY_UNKNOWN)"

definition hosts_ok :: "known_hosts \<Rightarrow> bool" where
  "hosts_ok hosts \<longleftrightarrow> distinct (map kh_node hosts) \<and> (\<forall>e \<in> set hosts. entry_ok e)"

lemma kh_fresh: "e \<in> set hosts \<Longrightarrow> kh_node e < kh_fresh hosts"
proof -
  have "x \<in> set xs \<Longrightarrow> x \<le> fold max xs (m :: nat)" and "m \<le> fold max xs m" for x xs m
    by (induction xs arbitrary: m) (auto intro: order_trans [OF max.cobounded1] order_trans [OF max.cobounded2])
  then show "e \<in> set hosts \<Longrightarrow> kh_node e < kh_fresh hosts" by (simp add: kh_fresh_def le_imp_less_Suc)
qed

lemma and_then_Inr: "and_then f g s = (Inr y, s') \<Longrightarrow> \<exists>x t. f s = (Inr x, t) \<and> g x t = (Inr y, s')"
  by (auto simp: and_then_def split: prod.splits sum.splits)

lemma fail_with_Inr [simp]: "fail_with rc s \<noteq> (Inr x, s')"
  by (simp add: fail_with_def ssh2_err_def)

lemma c_str_no_nul: "0 \<notin> set (c_str x)"
  unfolding c_str_def by (auto dest: set_takeWhileD)

lemma add_name_ok: "add_name host salt t s = (Inr (name, salt'), s') \<Longrightarrow>
    (if kh_type t = LIBSSH2_KNOWNHOST_TYPE_SHA1 then name \<noteq> [] \<and> (\<exists>x. salt' = Some x \<and> x \<noteq> [])
     else kh_type t \<in> {LIBSSH2_KNOWNHOST_TYPE_PLAIN, LIBSSH2_KNOWNHOST_TYPE_CUSTOM} \<and> 0 \<notin> set name \<and> salt' = None)"
  by (auto simp: add_name_def allocated_def give_def c_str_no_nul dest!: and_then_Inr split: if_splits prod.splits option.splits)

lemma add_key_ok: "key \<noteq> [] \<Longrightarrow> add_key key t s = (Inr k, s') \<Longrightarrow> k \<noteq> []"
proof -
  assume k: "key \<noteq> []" "add_key key t s = (Inr k, s')"
  obtain ok u where a: "ssh2_alloc s = (ok, u)" by fastforce
  have "ssh2_base64_encode False key = (0, None)" using k(1) by (simp add: ssh2_base64_encode_def)
  then show "k \<noteq> []"
    using k b64_encode_nonempty [OF k(1)]
    by (cases ok) (auto simp: add_key_def allocated_def b64_encoded_def a encode_result split: if_splits)
qed

lemma new_entry_ok:
  "kh_key_type t \<noteq> 0 \<Longrightarrow> key \<noteq> [] \<Longrightarrow> new_entry node host salt tn key comment t s = (Inr e, s') \<Longrightarrow>
    entry_ok e \<and> kh_node e = node"
proof -
  assume k: "kh_key_type t \<noteq> 0" "key \<noteq> []" and "new_entry node host salt tn key comment t s = (Inr e, s')"
  then obtain name salt' key' tn' c s1 s2 s3 s4 where
    n: "add_name host salt t s1 = (Inr (name, salt'), s2)" "add_key key t s2 = (Inr key', s3)"
      "add_key_type tn t s3 = (Inr tn', s4)" and
    e: "e = \<lparr>kh_node = node, kh_name = name, kh_typemask = t, kh_salt = salt', kh_key = key',
             kh_key_type_name = tn', kh_comment = c\<rparr>"
    by (auto simp: new_entry_def give_def dest!: and_then_Inr)
  have "tn' \<noteq> None \<longrightarrow> kh_key_type t = LIBSSH2_KNOWNHOST_KEY_UNKNOWN"
    using n(3) by (auto simp: add_key_type_def give_def split: if_splits)
  then show ?thesis using k add_name_ok [OF n(1)] add_key_ok [OF k(2) n(2)] by (simp add: e entry_ok_def split: if_splits)
qed

lemma run_add_ok:
  "hosts_ok hosts \<Longrightarrow> run_add (knownhost_add host salt tn key comment t hosts) hosts s = (rc, sto, hosts', s') \<Longrightarrow> hosts_ok hosts'"
proof -
  assume h: "hosts_ok hosts" and r: "run_add (knownhost_add host salt tn key comment t hosts) hosts s = (rc, sto, hosts', s')"
  show "hosts_ok hosts'"
  proof (cases "knownhost_add host salt tn key comment t hosts s")
    case (Pair q u)
    show ?thesis
    proof (cases q)
      case (Inl x)
      then show ?thesis using h r Pair by (simp add: run_add_def)
    next
      case (Inr y)
      then obtain n hs where y: "q = Inr (n, hs)" by (cases y) auto
      then have hs: "hosts' = hs" using r Pair by (simp add: run_add_def)
      obtain ho k where hk: "host = Some ho" "key = Some k"
        using Pair y by (cases host; cases key) (simp_all add: knownhost_add_def fail_quietly_def)
      have k: "k \<noteq> []" "kh_key_type t \<noteq> 0"
        using Pair y by (auto simp: hk knownhost_add_def fail_quietly_def split: if_splits)
      have "and_then (new_entry (kh_fresh hosts) ho salt tn k comment t) (\<lambda>e. give (kh_node e, hosts @ [e])) s = (Inr (n, hs), u)"
        using Pair y k by (auto simp: hk knownhost_add_def fail_quietly_def split: if_splits)
      from and_then_Inr [OF this] obtain e v where e: "new_entry (kh_fresh hosts) ho salt tn k comment t s = (Inr e, v)"
        "hs = hosts @ [e]" by (auto simp: give_def)
      from new_entry_ok [OF k(2,1) e(1)] show ?thesis
        using h kh_fresh by (fastforce simp: hs e(2) hosts_ok_def)
    qed
  qed
qed

lemma legacy_loop_ok:
  "(\<And>x hosts s rc sto hosts' s'. hosts_ok hosts \<Longrightarrow> add x hosts s = (rc, sto, hosts', s') \<Longrightarrow> hosts_ok hosts') \<Longrightarrow>
   hosts_ok hosts \<Longrightarrow> legacy_loop add host n k hosts s = (rc, hosts', s') \<Longrightarrow> hosts_ok hosts'"
proof (induction n arbitrary: k hosts s rule: less_induct)
  case (less n)
  show ?case
  proof (cases n)
    case 0
    then show ?thesis using less.prems by simp
  next
    case (Suc m)
    obtain rc1 sto1 h1 u where a: "add (slice m (Suc k) host) hosts s = (rc1, sto1, h1, u)" using prod_cases4 by blast
    have h1: "hosts_ok h1" using less.prems(1) [OF less.prems(2) a] .
    have "legacy_loop add host m (Suc k) hosts s = (rc, hosts', s') \<Longrightarrow> hosts_ok hosts'"
      by (rule less.IH [where y = m and k = "Suc k" and hosts = hosts and s = s]) (use less.prems(1,2) Suc in auto)
    moreover have "legacy_loop add host (m - 1) 0 h1 u = (rc, hosts', s') \<Longrightarrow> hosts_ok hosts'"
      by (rule less.IH [where y = "m - 1" and k = 0 and hosts = h1 and s = u]) (use less.prems(1) h1 Suc in auto)
    ultimately show ?thesis
      using less.prems(2,3) h1 a by (auto simp: Suc Let_def ssh2_err_def split: if_splits)
  qed
qed

lemma knownhost_line_ok:
  assumes "hosts_ok hosts" "knownhost_line b host key hosts s = (rc, hosts', s')"
  shows "hosts_ok hosts'"
proof -
  have legacy: "hosts_ok h'" if "knownhost_line_legacy host tn k kt c hosts s = (rc, h', s')" for tn k kt c h'
  proof (cases "length host < 1")
    case False
    show ?thesis
      by (rule legacy_loop_ok [OF run_add_ok assms(1), rotated -1])
         (use that False in \<open>simp_all add: knownhost_line_legacy_def\<close>)
  qed (use that assms(1) in \<open>simp add: knownhost_line_legacy_def ssh2_err_def\<close>)
  have hashed: "hosts_ok h'" if "knownhost_line_hashed host tn k kt c hosts s = (rc, h', s')" for tn k kt c h'
    using that assms(1) by (auto simp: knownhost_line_hashed_def Let_def ssh2_err_def dest: run_add_ok split: if_splits prod.splits)
  show ?thesis
    using assms legacy hashed by (auto simp: knownhost_line_def ssh2_err_def split: if_splits prod.splits)
qed

lemma readline_ok:
  "hosts_ok hosts \<Longrightarrow> libssh2_knownhost_readline b line ty hosts s = (rc, hosts', s') \<Longrightarrow> hosts_ok hosts'"
  by (auto simp: libssh2_knownhost_readline_def ssh2_err_def Let_def dest: knownhost_line_ok split: if_splits option.splits)

lemma readfile_loop_ok: "hosts_ok hosts \<Longrightarrow> hosts_ok (fst (snd (readfile_loop b f num hosts s)))"
proof (induction f arbitrary: num hosts s rule: length_induct)
  case (1 f)
  show ?case
  proof (cases "f = []")
    case False
    let ?buf = "fgets_take 4091 f"
    have l: "length (drop (length ?buf) f) < length f" using False fgets_take_0 [of f] by (simp add: fgets_take_def)
    obtain rc h u where r: "libssh2_knownhost_readline b (Some (c_str ?buf)) LIBSSH2_KNOWNHOST_FILE_OPENSSH hosts s = (rc, h, u)"
      using prod_cases3 by blast
    have h: "hosts_ok h" using readline_ok [OF 1(2) r] .
    show ?thesis
      using 1(1) [rule_format, OF l h] h False by (subst readfile_loop.simps) (simp add: Let_def r ssh2_err_def)
  qed (use 1(2) in simp)
qed

text \<open>One call that changes the collection.\<close>

inductive kh_step :: "build \<Rightarrow> known_hosts \<Rightarrow> known_hosts \<Rightarrow> bool" for b where
  kh_add: "libssh2_knownhost_add host salt key t hosts s = (rc, sto, hosts', s') \<Longrightarrow> kh_step b hosts hosts'"
| kh_addc: "libssh2_knownhost_addc host salt key comment t hosts s = (rc, sto, hosts', s') \<Longrightarrow> kh_step b hosts hosts'"
| kh_del: "libssh2_knownhost_del entry hosts s = (rc, hosts', s') \<Longrightarrow> kh_step b hosts hosts'"
| kh_readline: "libssh2_knownhost_readline b line ty hosts s = (rc, hosts', s') \<Longrightarrow> kh_step b hosts hosts'"
| kh_readfile: "libssh2_knownhost_readfile b f ty hosts s = (num, hosts', s') \<Longrightarrow> kh_step b hosts hosts'"

text \<open>
  C20. Whatever is added, read from lines or files and removed, failed calls included, every entry of the
  collection is well-typed: it has a key and a type of key, a name that is a C string or a hash with its salt,
  and an address of its own.
\<close>

theorem known_hosts_well_typed:
  assumes "(kh_step b)\<^sup>*\<^sup>* [] hosts"
  shows "distinct (map kh_node hosts) \<and> (\<forall>e \<in> set hosts. entry_ok e)"
proof -
  have step: "hosts_ok hosts'" if "hosts_ok hosts" "kh_step b hosts hosts'" for hosts hosts'
    using that(2,1)
  proof (cases rule: kh_step.cases)
    case (kh_del entry s rc s')
    then have "hosts' = hosts \<or> (\<exists>node. hosts' = filter (\<lambda>e. kh_node e \<noteq> node) hosts)"
      by (auto simp: libssh2_knownhost_del_def ssh2_err_def split: option.splits bool.splits prod.splits)
    then show ?thesis using that(1) by (auto simp: hosts_ok_def distinct_map_filter)
  next
    case (kh_readfile f ty s num s')
    then have "hosts' = hosts \<or> (\<exists>x. hosts' = fst (snd (readfile_loop b x 0 hosts s)))"
      by (force simp: libssh2_knownhost_readfile_def ssh2_err_def split: if_splits option.splits)
    then show ?thesis using that(1) readfile_loop_ok [OF that(1)] by metis
  qed (auto simp: libssh2_knownhost_add_def libssh2_knownhost_addc_def intro: run_add_ok [OF that(1)] readline_ok [OF that(1)])
  from assms have "hosts_ok hosts"
    by (induction rule: rtranclp_induct) (simp add: hosts_ok_def, blast intro: step)
  then show ?thesis by (simp add: hosts_ok_def)
qed

theorem known_hosts_well_typed_witness:
  "\<exists>hosts. hosts \<noteq> [] \<and> (\<forall>e \<in> set hosts. entry_ok e)"
proof -
  obtain rc sto hosts s where r: "libssh2_knownhost_add (Some (str ''h'')) None (Some (str ''AAAA''))
      (LIBSSH2_KNOWNHOST_KEY_ED25519 OR 1 OR LIBSSH2_KNOWNHOST_KEYENC_BASE64) [] bare_session = (rc, sto, hosts, s)"
    using prod_cases4 by blast
  then have "hosts \<noteq> []"
    by (auto simp: libssh2_knownhost_add_def run_add_def knownhost_add_def new_entry_def add_name_def add_key_def add_key_type_def
        add_copy_def attempt_defs ssh2_alloc_def kh_key_type_def kh_type_def kh_masks KNOWNHOST_MAX_LEN_def c_strlen_def
        str_def bare_session_def session_init_defs)
  moreover have "(kh_step small_build)\<^sup>*\<^sup>* [] hosts" by (rule r_into_rtranclp) (rule kh_add [OF r])
  ultimately show ?thesis using known_hosts_well_typed by blast
qed

end
