(* ===== verification/KexExchange.thy ===== *)
theory KexExchange
  imports Stack KexGroups
begin

text \<open>
  The \<open>exchange_keys\<close> functions of \<open>kex.c\<close>: Diffie-Hellman in fixed and negotiated groups, the elliptic
  curves and their hybrids with ML-KEM, the check of the host's signature and the derivation of the keys.

  The functions get the \<open>key_exchange_state_low\<close> they work on as an argument, as in the C code, and return it.
  \<open>tsend\<close> is \<open>ssh2_transport_send\<close>, \<open>treq\<close> is \<open>ssh2_packet_require\<close> with the packet type and the state of the
  request, \<open>tburn\<close> is \<open>ssh2_packet_burn\<close>.
\<close>

unbundle bit_operations_syntax

subsection \<open>The cryptographic library\<close>

text \<open>
  What the backends provide.  Big numbers are naturals; a function that can fail returns \<open>None\<close> or an error
  code.  The random bytes an operation draws are its first argument.  \<open>x_hash\<close> hashes what the updates were
  given one after the other, and is \<open>None\<close> when one of them or the end fails.  \<open>x_hostkey_init\<close> and
  \<open>x_sig_verify\<close> are the \<open>init\<close> and \<open>sig_verify\<close> entries of the host key method with the given name.
\<close>

record kex_lib =
  x_md5 :: bool
  x_hash_init :: "string \<Rightarrow> bool"
  x_hash :: "string \<Rightarrow> bytes \<Rightarrow> bytes option"
  x_bn_bits :: "nat \<Rightarrow> nat"
  x_bn_bytes :: "nat \<Rightarrow> nat"
  x_bn_to_bin :: "nat \<Rightarrow> bytes option"
  x_bn_from_bin :: "bytes \<Rightarrow> nat option"
  x_bn_set_word :: "nat \<Rightarrow> nat option"
  x_dh_max_modulus_bits :: nat
  x_dh_gex_groups :: "nat \<times> nat \<times> nat"
  x_dh_key_pair :: "bytes option \<Rightarrow> nat \<Rightarrow> nat \<Rightarrow> nat \<Rightarrow> (bytes \<times> nat) option"
  x_dh_secret :: "bytes \<Rightarrow> nat \<Rightarrow> nat \<Rightarrow> nat option"
  x_ecdsa_create_key :: "bytes option \<Rightarrow> nat \<Rightarrow> rc + bytes \<times> bytes"
  x_ecdh_gen_k :: "bytes \<Rightarrow> bytes \<Rightarrow> nat option"
  x_curve25519_new :: "bytes option \<Rightarrow> rc + bytes \<times> bytes"
  x_curve25519_gen_k :: "bytes \<Rightarrow> bytes \<Rightarrow> nat option"
  x_mlkem_new :: "bytes option \<Rightarrow> nat \<Rightarrow> rc + bytes \<times> bytes"
  x_mlkem_get_sk :: "nat \<Rightarrow> bytes \<Rightarrow> bytes \<Rightarrow> bytes option"
  x_hostkey_init :: "bytes \<Rightarrow> bytes \<Rightarrow> abstr option"
  x_sig_verify :: "bytes \<Rightarrow> abstr \<Rightarrow> bytes \<Rightarrow> bytes \<Rightarrow> int"

text \<open>The next random bytes the library draws; \<open>None\<close> when its source fails.\<close>

definition draw :: "session \<Rightarrow> bytes option \<times> session" where
  "draw s = (case rands s of [] \<Rightarrow> (Some [], s) | r # rs \<Rightarrow> (r, s\<lparr>rands := rs\<rparr>))"

abbreviation (input) LIBSSH2_ERROR_HOSTKEY_INIT :: int where "LIBSSH2_ERROR_HOSTKEY_INIT \<equiv> - 10"
abbreviation (input) LIBSSH2_ERROR_HOSTKEY_SIGN :: int where "LIBSSH2_ERROR_HOSTKEY_SIGN \<equiv> - 11"
abbreviation (input) LIBSSH2_ERROR_HASH_INIT :: int where "LIBSSH2_ERROR_HASH_INIT \<equiv> - 53"
abbreviation (input) LIBSSH2_ERROR_HASH_CALC :: int where "LIBSSH2_ERROR_HASH_CALC \<equiv> - 54"

abbreviation (input) SSH_MSG_NEWKEYS :: u8 where "SSH_MSG_NEWKEYS \<equiv> 21"
abbreviation (input) SSH_MSG_KEXDH_INIT :: u8 where "SSH_MSG_KEXDH_INIT \<equiv> 30"
abbreviation (input) SSH_MSG_KEXDH_REPLY :: u8 where "SSH_MSG_KEXDH_REPLY \<equiv> 31"
abbreviation (input) SSH_MSG_KEX_DH_GEX_REQUEST :: u8 where "SSH_MSG_KEX_DH_GEX_REQUEST \<equiv> 34"
abbreviation (input) SSH_MSG_KEX_DH_GEX_GROUP :: u8 where "SSH_MSG_KEX_DH_GEX_GROUP \<equiv> 31"
abbreviation (input) SSH_MSG_KEX_DH_GEX_INIT :: u8 where "SSH_MSG_KEX_DH_GEX_INIT \<equiv> 32"
abbreviation (input) SSH_MSG_KEX_DH_GEX_REPLY :: u8 where "SSH_MSG_KEX_DH_GEX_REPLY \<equiv> 33"
abbreviation (input) SSH2_MSG_KEX_ECDH_INIT :: u8 where "SSH2_MSG_KEX_ECDH_INIT \<equiv> 30"
abbreviation (input) SSH2_MSG_KEX_ECDH_REPLY :: u8 where "SSH2_MSG_KEX_ECDH_REPLY \<equiv> 31"

type_synonym requirer = "u8 \<Rightarrow> int \<Rightarrow> session \<Rightarrow> rc \<times> int \<times> bytes \<times> session"
type_synonym burner = "nb_state \<Rightarrow> session \<Rightarrow> rc \<times> nb_state \<times> session"

subsection \<open>Deriving the keys\<close>

definition MAX_SHA_DIGEST_LEN :: nat where "MAX_SHA_DIGEST_LEN = 64"

text \<open>
  The loop of \<open>kex_value_hash\<close>; \<open>hash\<close> is one hash from \<open>ssh2_hash_init\<close> to the end, \<open>kh\<close> the secret and the
  exchange hash, \<open>first\<close> the letter and the session id, \<open>key\<close> what \<open>*data\<close> holds so far.
\<close>

function value_hash_loop :: "(bytes \<Rightarrow> bytes option) \<Rightarrow> nat \<Rightarrow> bytes \<Rightarrow> bytes \<Rightarrow> nat \<Rightarrow> bytes \<Rightarrow> bytes option" where
  "value_hash_loop hash digest_len kh first data_len key =
     (if data_len \<le> length key \<or> digest_len = 0 then Some key
      else case hash (kh @ (if key \<noteq> [] then key else first)) of
             None \<Rightarrow> None
           | Some d \<Rightarrow> value_hash_loop hash digest_len kh first data_len (key @ pad_to digest_len d))"
  by pat_completeness auto
termination
  by (relation "measure (\<lambda>(h, d, kh, f, n, key). n - length key)") auto

declare value_hash_loop.simps [simp del]

text \<open>The result is the part of the block that is asked for; the rest of the last digest is not used.\<close>

definition kex_value_hash :: "kex_lib \<Rightarrow> string \<Rightarrow> nat \<Rightarrow> kmdhgGPshakex_state \<Rightarrow> nat \<Rightarrow> u8 \<Rightarrow> session \<Rightarrow>
    bytes option \<times> session" where
  "kex_value_hash x alg digest_len xs data_len letter s =
     (if digest_len = 0 \<or> digest_len > MAX_SHA_DIGEST_LEN then (None, s)
      else
        case ssh2_alloc s of (ok, s) \<Rightarrow>
          if \<not> ok then (None, s)
          else
            (map_option (take data_len)
               (value_hash_loop (\<lambda>m. if x_hash_init x alg then x_hash x alg m else None) digest_len
                  (case_option [] (\<lambda>k. k) (xs_k_value xs) @ take digest_len (xs_h_sig_comp xs))
                  (letter # case_option [] (\<lambda>i. i) (session_id s)) data_len []), s))"

text \<open>Setting up one direction: cipher, MAC and compression.\<close>

definition kex_new_crypt :: "kex_lib \<Rightarrow> string \<Rightarrow> nat \<Rightarrow> kmdhgGPshakex_state \<Rightarrow> u8 \<Rightarrow> u8 \<Rightarrow> bool \<Rightarrow>
    endpoint_data \<Rightarrow> session \<Rightarrow> rc \<times> endpoint_data \<times> session" where
  "kex_new_crypt x alg digest_len xs iv_letter secret_letter encrypt e s =
     (case crypt e of
        None \<Rightarrow> (LIBSSH2_ERROR_KEX_FAILURE, e, set_fault s)
      | Some m \<Rightarrow>
          let e = e\<lparr>crypt_abstract := []\<rparr>
          in case kex_value_hash x alg digest_len xs (cm_iv_len m) iv_letter s of
               (None, s) \<Rightarrow> (case ssh2_err LIBSSH2_ERROR_KEX_FAILURE s of (rc, s) \<Rightarrow> (rc, e, s))
             | (Some iv, s) \<Rightarrow>
                 case kex_value_hash x alg digest_len xs (cm_secret_len m) secret_letter s of
                   (None, s) \<Rightarrow> (case ssh2_err LIBSSH2_ERROR_KEX_FAILURE s of (rc, s) \<Rightarrow> (rc, e, s))
                 | (Some secret, s) \<Rightarrow>
                     case ssh2_alloc s of (ok, s) \<Rightarrow>
                     case cm_init m iv secret encrypt False ok (crypt_abstract e) of (rc, a) \<Rightarrow>
                       if rc \<noteq> 0 then (case ssh2_err LIBSSH2_ERROR_KEX_FAILURE s of (rc, s) \<Rightarrow> (rc, e, s))
                       else (0, e\<lparr>crypt_abstract := a\<rparr>, s))"

definition kex_new_mac :: "kex_lib \<Rightarrow> string \<Rightarrow> nat \<Rightarrow> kmdhgGPshakex_state \<Rightarrow> u8 \<Rightarrow> endpoint_data \<Rightarrow> session \<Rightarrow>
    rc \<times> endpoint_data \<times> session" where
  "kex_new_mac x alg digest_len xs letter e s =
     (case mac e of
        None \<Rightarrow> (LIBSSH2_ERROR_KEX_FAILURE, e, set_fault s)
      | Some m \<Rightarrow>
          let e = e\<lparr>mac_abstract := mm_dtor m (mac_abstract e)\<rparr>
          in case kex_value_hash x alg digest_len xs (mm_key_len m) letter s of
               (None, s) \<Rightarrow> (case ssh2_err LIBSSH2_ERROR_KEX_FAILURE s of (rc, s) \<Rightarrow> (rc, e, s))
             | (Some key, s) \<Rightarrow> (0, e\<lparr>mac_abstract := mm_init m key (mac_abstract e)\<rparr>, s))"

definition kex_new_comp :: "bool \<Rightarrow> endpoint_data \<Rightarrow> session \<Rightarrow> rc \<times> endpoint_data \<times> session" where
  "kex_new_comp compr e s =
     (case comp e of
        None \<Rightarrow> (0, e, s)
      | Some m \<Rightarrow>
          (case pm_init m of
             None \<Rightarrow> (0, e, s)
           | Some init \<Rightarrow>
               case ssh2_alloc s of (ok, s) \<Rightarrow>
               case init compr ok None of (rc, a) \<Rightarrow>
                 (if rc \<noteq> 0 then LIBSSH2_ERROR_KEX_FAILURE else 0, e\<lparr>comp_abstract := a\<rparr>, s)))"

definition on_local :: "(endpoint_data \<Rightarrow> session \<Rightarrow> rc \<times> endpoint_data \<times> session) \<Rightarrow> session \<Rightarrow> rc \<times> session" where
  "on_local f s = (case f (local s) s of (rc, e, s) \<Rightarrow> (rc, s\<lparr>local := e\<rparr>))"

definition on_remote :: "(endpoint_data \<Rightarrow> session \<Rightarrow> rc \<times> endpoint_data \<times> session) \<Rightarrow> session \<Rightarrow> rc \<times> session" where
  "on_remote f s = (case f (remote s) s of (rc, e, s) \<Rightarrow> (rc, s\<lparr>remote := e\<rparr>))"

text \<open>Steps one after the other, up to the first that fails.\<close>

fun in_turn :: "(session \<Rightarrow> rc \<times> session) list \<Rightarrow> session \<Rightarrow> rc \<times> session" where
  "in_turn [] s = (0, s)"
| "in_turn (f # fs) s = (case f s of (rc, s) \<Rightarrow> if rc \<noteq> 0 then (rc, s) else in_turn fs s)"

text \<open>The six letters are the ASCII codes of A to F.\<close>

definition kex_new_keys :: "kex_lib \<Rightarrow> string \<Rightarrow> nat \<Rightarrow> kmdhgGPshakex_state \<Rightarrow> session \<Rightarrow> rc \<times> session" where
  "kex_new_keys x alg digest_len xs =
     in_turn
       [on_local (kex_new_crypt x alg digest_len xs 65 67 True),
        on_remote (kex_new_crypt x alg digest_len xs 66 68 False),
        on_local (kex_new_mac x alg digest_len xs 69),
        on_remote (kex_new_mac x alg digest_len xs 70),
        on_local (kex_new_comp True), on_remote (kex_new_comp False)]"

text \<open>The session id is the exchange hash of the first exchange.\<close>

definition kex_session_id :: "nat \<Rightarrow> kmdhgGPshakex_state \<Rightarrow> session \<Rightarrow> rc \<times> session" where
  "kex_session_id digest_len xs s =
     (case session_id s of
        Some i \<Rightarrow> (0, s)
      | None \<Rightarrow>
          case ssh2_alloc s of (ok, s) \<Rightarrow>
            if \<not> ok then ssh2_err LIBSSH2_ERROR_ALLOC s
            else (0, s\<lparr>session_id := Some (take digest_len (xs_h_sig_comp xs))\<rparr>))"

definition kex_finish :: "kex_lib \<Rightarrow> requirer \<Rightarrow> string \<Rightarrow> nat \<Rightarrow> kmdhgGPshakex_state \<Rightarrow> session \<Rightarrow>
    rc \<times> kmdhgGPshakex_state \<times> session" where
  "kex_finish x treq alg digest_len xs s =
     (case treq SSH_MSG_NEWKEYS (xs_req_start xs) s of (rc, start, tmp, s) \<Rightarrow>
        let xs = xs\<lparr>xs_req_start := start\<rparr>
        in if rc = LIBSSH2_ERROR_EAGAIN then (rc, xs, s)
           else if rc \<noteq> 0 then (case ssh2_err rc s of (rc, s) \<Rightarrow> (rc, xs, s))
           else
             case in_turn [kex_session_id digest_len xs, kex_new_keys x alg digest_len xs]
                    (set_st SSH2_STATE_NEWKEYS s) of (rc, s) \<Rightarrow> (rc, xs, s))"

subsection \<open>The host key and the exchange hash\<close>

text \<open>
  \<open>kex_proc_hostkey\<close>; \<open>data\<close> is the reply.  The copy of the host key needs memory only when it is not empty.
  A digest that is not valid is \<open>None\<close>.
\<close>

definition kex_hash_opt :: "kex_lib \<Rightarrow> string \<Rightarrow> bytes \<Rightarrow> bytes option" where
  "kex_hash_opt x alg m = (if x_hash_init x alg then x_hash x alg m else None)"

definition kex_fingerprints :: "kex_lib \<Rightarrow> bytes \<Rightarrow> session \<Rightarrow> session" where
  "kex_fingerprints x key s =
     (let s = (if x_md5 x then s\<lparr>server_hostkey_md5 := kex_hash_opt x ''SSH2_MD5_ALG'' key\<rparr> else s)
      in s\<lparr>server_hostkey_sha1 := kex_hash_opt x ''SSH2_SHA1_ALG'' key,
           server_hostkey_sha256 := kex_hash_opt x ''SSH2_SHA256_ALG'' key\<rparr>)"

definition kex_copy_hostkey :: "string_buf \<Rightarrow> session \<Rightarrow> bytes option \<times> string_buf \<times> session" where
  "kex_copy_hostkey buf s =
     (case ssh2_get_string buf of
        (None, buf) \<Rightarrow> (None, buf, s)
      | (Some key, buf) \<Rightarrow>
          if key = [] then (Some [], buf, s\<lparr>server_hostkey := None\<rparr>)
          else case ssh2_alloc s of (ok, s) \<Rightarrow>
                 if ok then (Some key, buf, s\<lparr>server_hostkey := Some key\<rparr>) else (None, buf, s))"

definition kex_proc_hostkey :: "kex_lib \<Rightarrow> bytes \<Rightarrow> session \<Rightarrow> rc \<times> string_buf \<times> session" where
  "kex_proc_hostkey x data s =
     (let buf = (string_buf_of data)\<lparr>sb_ptr := 1\<rparr>
      in if length data < 5 then (case ssh2_err LIBSSH2_ERROR_PROTO s of (rc, s) \<Rightarrow> (rc, buf, s))
         else
           case kex_copy_hostkey buf (s\<lparr>server_hostkey := None\<rparr>) of
             (None, buf, s) \<Rightarrow> (case ssh2_err LIBSSH2_ERROR_ALLOC s of (rc, s) \<Rightarrow> (rc, buf, s))
           | (Some key, buf, s) \<Rightarrow>
               let s = kex_fingerprints x key s
               in case hostkey s of
                    None \<Rightarrow> (case ssh2_err LIBSSH2_ERROR_PROTO s of (rc, s) \<Rightarrow> (rc, buf, s))
                  | Some h \<Rightarrow>
                      case x_hostkey_init x (hm_name h) key of
                        None \<Rightarrow> (case ssh2_err LIBSSH2_ERROR_HOSTKEY_INIT (s\<lparr>server_hostkey_abstract := None\<rparr>) of
                                   (rc, s) \<Rightarrow> (rc, buf, s))
                      | Some a \<Rightarrow> (0, buf, s\<lparr>server_hostkey_abstract := Some a\<rparr>))"

text \<open>
  What every exchange hash begins with: the two identification strings, the two KEXINIT messages and the host
  key.  A banner of our own is stored with its CR LF; without one it is the default.
\<close>

definition LIBSSH2_SSH_DEFAULT_BANNER :: bytes where
  "LIBSSH2_SSH_DEFAULT_BANNER = str ''SSH-2.0-libssh2_1.11.2_DEV''"

definition client_version :: "session \<Rightarrow> bytes" where
  "client_version s =
     (case banner (local s) of Some v \<Rightarrow> take (length v - 2) v | None \<Rightarrow> LIBSSH2_SSH_DEFAULT_BANNER)"

definition or_empty :: "bytes option \<Rightarrow> bytes" where
  "or_empty p = (case p of Some bs \<Rightarrow> bs | None \<Rightarrow> [])"

definition kex_hash_head :: "session \<Rightarrow> bytes" where
  "kex_hash_head s =
     enc_string (client_version s) @ enc_string (or_empty (banner (remote s))) @
     enc_string (or_empty (kexinit (local s))) @ enc_string (or_empty (kexinit (remote s))) @
     enc_string (or_empty (server_hostkey s))"

text \<open>
  Finishing the hash of the message and checking the signature over it.  A host key method without
  \<open>sig_verify\<close>, or a missing identification string, would be a NULL pointer.
\<close>

definition kex_check_signature :: "kex_lib \<Rightarrow> string \<Rightarrow> nat \<Rightarrow> bytes \<Rightarrow> bytes \<Rightarrow> kmdhgGPshakex_state \<Rightarrow> session \<Rightarrow>
    rc \<times> kmdhgGPshakex_state \<times> session" where
  "kex_check_signature x alg digest_len m h_sig xs s =
     (if \<not> x_hash_init x alg then (case ssh2_err LIBSSH2_ERROR_HASH_INIT s of (rc, s) \<Rightarrow> (rc, xs, s))
      else
        let s = c_assert (banner (remote s) \<noteq> None) s
        in case x_hash x alg m of
             None \<Rightarrow> (case ssh2_err LIBSSH2_ERROR_HASH_CALC s of (rc, s) \<Rightarrow> (rc, xs, s))
           | Some h \<Rightarrow>
               let xs = xs\<lparr>xs_h_sig_comp := h\<rparr>
               in case (hostkey s, server_hostkey_abstract s) of
                    (Some k, Some a) \<Rightarrow>
                      if \<not> hm_sig_verify k then (LIBSSH2_ERROR_HOSTKEY_SIGN, xs, set_fault s)
                      else if x_sig_verify x (hm_name k) a h_sig (take digest_len h) \<noteq> 0
                      then (case ssh2_err LIBSSH2_ERROR_HOSTKEY_SIGN s of (rc, s) \<Rightarrow> (rc, xs, s))
                      else (0, xs, s)
                  | _ \<Rightarrow> (LIBSSH2_ERROR_HOSTKEY_SIGN, xs, set_fault s))"

text \<open>
  A big number as an mpint: a leading zero byte when its top bit would be set.  Writing it anywhere but into
  exactly the bytes allotted is a fault.
\<close>

definition bn_mpint :: "kex_lib \<Rightarrow> nat \<Rightarrow> session \<Rightarrow> (rc + bytes) \<times> session" where
  "bn_mpint x n s =
     (case ssh2_alloc s of (ok, s) \<Rightarrow>
        if \<not> ok then (case ssh2_err LIBSSH2_ERROR_ALLOC s of (rc, s) \<Rightarrow> (Inl rc, s))
        else
          case x_bn_to_bin x n of
            None \<Rightarrow> (case ssh2_err LIBSSH2_ERROR_OUT_OF_BOUNDARY s of (rc, s) \<Rightarrow> (Inl rc, s))
          | Some bs \<Rightarrow>
              let bs' = (if x_bn_bits x n mod 8 \<noteq> 0 then bs else 0 # bs)
              in (Inr (ssh2_htonu32 (of_nat (x_bn_bytes x n + (if x_bn_bits x n mod 8 \<noteq> 0 then 0 else 1))) @ bs'),
                  c_assert (length bs = x_bn_bytes x n) s))"

subsection \<open>Stages\<close>

text \<open>
  A stage goes on with the next, returns (to be called again), or leaves through the clean-up at the end of
  its function.
\<close>

datatype flow = Go | Return rc | Clean rc

type_synonym 'k stage = "'k \<Rightarrow> session \<Rightarrow> flow \<times> 'k \<times> session"

fun run_stages :: "'k stage list \<Rightarrow> 'k stage" where
  "run_stages [] k s = (Go, k, s)"
| "run_stages (f # fs) k s = (case f k s of (fl, k, s) \<Rightarrow> if fl = Go then run_stages fs k s else (fl, k, s))"

definition run_exchange :: "('k \<Rightarrow> 'k) \<Rightarrow> 'k stage list \<Rightarrow> 'k \<Rightarrow> session \<Rightarrow> rc \<times> 'k \<times> session" where
  "run_exchange cleanup fs k s =
     (case run_stages fs k s of
        (Return rc, k, s) \<Rightarrow> (rc, k, s)
      | (Clean rc, k, s) \<Rightarrow> (rc, cleanup k, s)
      | (Go, k, s) \<Rightarrow> (0, cleanup k, s))"

definition clean :: "int \<Rightarrow> 'k \<Rightarrow> session \<Rightarrow> flow \<times> 'k \<times> session" where
  "clean e k s = (case ssh2_err e s of (rc, s) \<Rightarrow> (Clean rc, k, s))"

text \<open>What follows a call that may have to be repeated.\<close>

definition after_call :: "rc \<Rightarrow> int \<Rightarrow> 'k \<Rightarrow> 'k \<Rightarrow> session \<Rightarrow> flow \<times> 'k \<times> session" where
  "after_call rc err k k' s =
     (if rc = LIBSSH2_ERROR_EAGAIN then (Return rc, k, s)
      else if rc \<noteq> 0 then clean err k s else (Go, k', s))"

text \<open>Sending NEWKEYS, from state \<open>a\<close> to state \<open>b\<close>, and the end.\<close>

definition kex_send_newkeys :: "sender \<Rightarrow> nb_state \<Rightarrow> nb_state \<Rightarrow> kmdhgGPshakex_state stage" where
  "kex_send_newkeys tsend a b xs s =
     (if xs_state xs \<noteq> a then (Go, xs, s)
      else case tsend (''kex_c'', 0) [SSH_MSG_NEWKEYS] [] s of (rc, s) \<Rightarrow>
             after_call rc rc xs (xs\<lparr>xs_state := b\<rparr>) s)"

definition kex_finish_stage :: "kex_lib \<Rightarrow> requirer \<Rightarrow> string \<Rightarrow> nat \<Rightarrow> nb_state \<Rightarrow> kmdhgGPshakex_state stage" where
  "kex_finish_stage x treq alg digest_len a xs s =
     (if xs_state xs \<noteq> a then (Go, xs, s)
      else case kex_finish x treq alg digest_len xs s of (rc, xs, s) \<Rightarrow>
             (if rc = LIBSSH2_ERROR_EAGAIN then Return rc else Clean rc, xs, s))"

subsection \<open>Diffie-Hellman\<close>

definition dh_create :: "kex_lib \<Rightarrow> nat \<Rightarrow> nat \<Rightarrow> nat \<Rightarrow> u8 \<Rightarrow> kmdhgGPshakex_state stage" where
  "dh_create x g p group_order packet_type_init xs s =
     (if xs_state xs \<noteq> NB_idle then (Go, xs, s)
      else
        let xs = xs\<lparr>xs_e_packet := None, xs_k_value := None, xs_x := [], xs_req_start := 0\<rparr>
        in if x_bn_bits x p > x_dh_max_modulus_bits x then clean LIBSSH2_ERROR_INVAL xs s
           else
             case draw s of (seed, s) \<Rightarrow>
             case x_dh_key_pair x seed g p group_order of
               None \<Rightarrow> clean LIBSSH2_ERROR_KEX_FAILURE xs s
             | Some (priv, e) \<Rightarrow>
                 let xs = xs\<lparr>xs_x := priv\<rparr>
                 in case bn_mpint x e s of
                      (Inl rc, s) \<Rightarrow> (Clean rc, xs, s)
                    | (Inr m, s) \<Rightarrow> (Go, xs\<lparr>xs_e_packet := Some (packet_type_init # m), xs_state := NB_created\<rparr>, s))"

definition dh_send :: "sender \<Rightarrow> kmdhgGPshakex_state stage" where
  "dh_send tsend xs s =
     (if xs_state xs \<noteq> NB_created then (Go, xs, s)
      else case tsend (''e_packet'', 0) (or_empty (xs_e_packet xs)) [] s of (rc, s) \<Rightarrow>
             after_call rc rc xs (xs\<lparr>xs_state := NB_sent\<rparr>) s)"

text \<open>The server's wrong guess is thrown away; what the burning function says is returned as it is.\<close>

definition dh_burn :: "burner \<Rightarrow> kmdhgGPshakex_state stage" where
  "dh_burn tburn xs s =
     (if xs_state xs \<noteq> NB_sent then (Go, xs, s)
      else if burn_optimistic_kexinit s = 0 then (Go, xs\<lparr>xs_state := NB_sent1\<rparr>, s)
      else
        case tburn (xs_burn_state xs) s of (burn_type, burn, s) \<Rightarrow>
          let xs = xs\<lparr>xs_burn_state := burn\<rparr>
          in if burn_type = LIBSSH2_ERROR_EAGAIN then (Return burn_type, xs, s)
             else if burn_type \<le> 0 then (Clean burn_type, xs, s)
             else (Go, xs\<lparr>xs_state := NB_sent1\<rparr>, s\<lparr>burn_optimistic_kexinit := 0\<rparr>))"

text \<open>The message the exchange hash is computed over.\<close>

definition gex_sizes :: "kex_lib \<Rightarrow> bytes" where
  "gex_sizes x =
     (case x_dh_gex_groups x of (mingroup, optgroup, maxgroup) \<Rightarrow>
        ssh2_htonu32 (of_nat mingroup) @ ssh2_htonu32 (of_nat optgroup) @ ssh2_htonu32 (of_nat maxgroup))"

definition dh_message :: "kex_lib \<Rightarrow> u8 \<Rightarrow> bytes \<Rightarrow> bytes \<Rightarrow> kmdhgGPshakex_state \<Rightarrow> session \<Rightarrow> bytes" where
  "dh_message x packet_type_init midhash f_value xs s =
     kex_hash_head s @ (if packet_type_init = SSH_MSG_KEX_DH_GEX_INIT then gex_sizes x else []) @ midhash @
     tl (or_empty (xs_e_packet xs)) @ enc_string f_value @ or_empty (xs_k_value xs)"

text \<open>Reading \<open>f\<close> and the signature from the reply and computing the shared secret.\<close>

definition dh_shared_secret :: "kex_lib \<Rightarrow> nat \<Rightarrow> string_buf \<Rightarrow> bytes \<Rightarrow> int + bytes \<times> bytes \<times> nat" where
  "dh_shared_secret x p buf priv =
     (case ssh2_get_string buf of
        (None, buf) \<Rightarrow> Inl LIBSSH2_ERROR_HOSTKEY_INIT
      | (Some f_value, buf) \<Rightarrow>
          case x_bn_from_bin x f_value of
            None \<Rightarrow> Inl LIBSSH2_ERROR_HOSTKEY_INIT
          | Some f \<Rightarrow>
              case ssh2_get_string buf of
                (None, buf) \<Rightarrow> Inl LIBSSH2_ERROR_HOSTKEY_INIT
              | (Some h_sig, buf) \<Rightarrow>
                  case x_dh_secret x priv f p of
                    None \<Rightarrow> Inl LIBSSH2_ERROR_HOSTKEY_INIT
                  | Some k \<Rightarrow> Inr (f_value, h_sig, k))"

definition dh_verify :: "kex_lib \<Rightarrow> nat \<Rightarrow> string \<Rightarrow> nat \<Rightarrow> u8 \<Rightarrow> bytes \<Rightarrow> bytes \<Rightarrow> kmdhgGPshakex_state stage" where
  "dh_verify x p alg digest_len packet_type_init midhash data xs s =
     (case kex_proc_hostkey x data s of (rc, buf, s) \<Rightarrow>
        if rc \<noteq> 0 then (Clean rc, xs, s)
        else
          case dh_shared_secret x p buf (xs_x xs) of
            Inl e \<Rightarrow> clean e xs s
          | Inr (f_value, h_sig, k) \<Rightarrow>
              case bn_mpint x k s of
                (Inl rc, s) \<Rightarrow> (Clean rc, xs, s)
              | (Inr k_value, s) \<Rightarrow>
                  let xs = xs\<lparr>xs_k_value := Some k_value\<rparr>
                  in case kex_check_signature x alg digest_len
                            (dh_message x packet_type_init midhash f_value xs s) h_sig xs s of
                       (rc, xs, s) \<Rightarrow>
                         if rc \<noteq> 0 then (Clean rc, xs, s) else (Go, xs\<lparr>xs_state := NB_sent2\<rparr>, s))"

definition dh_reply :: "kex_lib \<Rightarrow> requirer \<Rightarrow> nat \<Rightarrow> string \<Rightarrow> nat \<Rightarrow> u8 \<Rightarrow> u8 \<Rightarrow> bytes \<Rightarrow>
    kmdhgGPshakex_state stage" where
  "dh_reply x treq p alg digest_len packet_type_init packet_type_reply midhash xs s =
     (if xs_state xs \<noteq> NB_sent1 then (Go, xs, s)
      else
        case treq packet_type_reply (xs_req_start xs) s of (rc, start, data, s) \<Rightarrow>
          let xs = xs\<lparr>xs_req_start := start\<rparr>
          in if rc = LIBSSH2_ERROR_EAGAIN then (Return rc, xs, s)
             else if rc \<noteq> 0 then clean LIBSSH2_ERROR_TIMEOUT xs s
             else dh_verify x p alg digest_len packet_type_init midhash data xs s)"

text \<open>The group, the hash and the message types; \<open>midhash\<close> is empty outside group exchange.\<close>

definition kex_diffie_hellman_sha :: "kex_lib \<Rightarrow> sender \<Rightarrow> requirer \<Rightarrow> burner \<Rightarrow> nat \<Rightarrow> nat \<Rightarrow> nat \<Rightarrow> string \<Rightarrow> nat \<Rightarrow>
    u8 \<Rightarrow> u8 \<Rightarrow> bytes \<Rightarrow> kmdhgGPshakex_state \<Rightarrow> session \<Rightarrow> rc \<times> kmdhgGPshakex_state \<times> session" where
  "kex_diffie_hellman_sha x tsend treq tburn g p group_order alg digest_len packet_type_init packet_type_reply midhash =
     run_exchange kex_diffie_hellman_state_cleanup
       [dh_create x g p group_order packet_type_init, dh_send tsend, dh_burn tburn,
        dh_reply x treq p alg digest_len packet_type_init packet_type_reply midhash,
        kex_send_newkeys tsend NB_sent2 NB_sent3, kex_finish_stage x treq alg digest_len NB_sent3]"

text \<open>The exchange itself as a stage of the method's function; its state is part of \<open>key_state\<close>.\<close>

definition exchange_stage :: "nb_state \<Rightarrow> (key_exchange_state_low \<Rightarrow> kmdhgGPshakex_state \<Rightarrow> session \<Rightarrow>
    rc \<times> kmdhgGPshakex_state \<times> session) \<Rightarrow> key_exchange_state_low stage" where
  "exchange_stage a exch lo s =
     (if lo_state lo \<noteq> a then (Go, lo, s)
      else case exch lo (lo_exchange lo) s of (rc, xs, s) \<Rightarrow>
             (if rc = LIBSSH2_ERROR_EAGAIN then Return rc else Clean rc, lo\<lparr>lo_exchange := xs\<rparr>, s))"

text \<open>The methods with a fixed group, whose generator is 2.\<close>

definition dh_group_init :: "kex_lib \<Rightarrow> bytes \<Rightarrow> key_exchange_state_low stage" where
  "dh_group_init x p_value lo s =
     (if lo_state lo \<noteq> NB_idle then (Go, lo, s)
      else
        case x_bn_set_word x 2 of
          None \<Rightarrow> clean LIBSSH2_ERROR_ALLOC lo s
        | Some g \<Rightarrow>
            case x_bn_from_bin x p_value of
              None \<Rightarrow> clean LIBSSH2_ERROR_ALLOC (lo\<lparr>lo_g := g\<rparr>) s
            | Some p \<Rightarrow> (Go, lo\<lparr>lo_g := g, lo_p := p, lo_state := NB_created\<rparr>, s))"

definition dh_group_method :: "kex_lib \<Rightarrow> sender \<Rightarrow> requirer \<Rightarrow> burner \<Rightarrow> bytes \<Rightarrow> nat \<Rightarrow> string \<Rightarrow> nat \<Rightarrow>
    key_exchange_state_low \<Rightarrow> session \<Rightarrow> rc \<times> key_exchange_state_low \<times> session" where
  "dh_group_method x tsend treq tburn p_value group_order alg digest_len =
     run_exchange kex_diffie_hellman_cleanup
       [dh_group_init x p_value,
        exchange_stage NB_created (\<lambda>lo. kex_diffie_hellman_sha x tsend treq tburn (lo_g lo) (lo_p lo) group_order
          alg digest_len SSH_MSG_KEXDH_INIT SSH_MSG_KEXDH_REPLY [])]"

subsection \<open>Diffie-Hellman group exchange\<close>

definition gex_init :: "kex_lib \<Rightarrow> key_exchange_state_low stage" where
  "gex_init x lo s =
     (if lo_state lo \<noteq> NB_idle then (Go, lo, s)
      else (Go, lo\<lparr>lo_request := SSH_MSG_KEX_DH_GEX_REQUEST # gex_sizes x, lo_state := NB_created\<rparr>, s))"

definition send_request :: "sender \<Rightarrow> nb_state \<Rightarrow> nb_state \<Rightarrow> key_exchange_state_low stage" where
  "send_request tsend a b lo s =
     (if lo_state lo \<noteq> a then (Go, lo, s)
      else case tsend (''kex_request'', 0) (lo_request lo) [] s of (rc, s) \<Rightarrow>
             after_call rc rc lo (lo\<lparr>lo_state := b\<rparr>) s)"

definition await_reply :: "requirer \<Rightarrow> u8 \<Rightarrow> nb_state \<Rightarrow> nb_state \<Rightarrow> key_exchange_state_low stage" where
  "await_reply treq packet_type a b lo s =
     (if lo_state lo \<noteq> a then (Go, lo, s)
      else case treq packet_type (lo_req_start lo) s of (rc, start, data, s) \<Rightarrow>
             let lo = lo\<lparr>lo_req_start := start\<rparr>
             in after_call rc rc lo (lo\<lparr>lo_data := Some data, lo_state := b\<rparr>) s)"

text \<open>The group the server proposes, checked for its size; the last component is the length of \<open>p\<close>.\<close>

definition gex_group :: "kex_lib \<Rightarrow> bytes \<Rightarrow> (nat \<times> nat \<times> nat) option" where
  "gex_group x data =
     (if length data < 9 then None
      else
        case ssh2_get_bignum_bytes ((string_buf_of data)\<lparr>sb_ptr := 1\<rparr>) of
          (None, buf) \<Rightarrow> None
        | (Some pb, buf) \<Rightarrow>
            case ssh2_get_bignum_bytes buf of
              (None, buf) \<Rightarrow> None
            | (Some gb, buf) \<Rightarrow>
                case x_bn_from_bin x pb of
                  None \<Rightarrow> None
                | Some p \<Rightarrow>
                    if x_bn_bits x p < fst (x_dh_gex_groups x) \<or> x_bn_bits x p > snd (snd (x_dh_gex_groups x)) then None
                    else map_option (\<lambda>g. (p, g, length pb)) (x_bn_from_bin x gb))"

definition gex_exchange :: "kex_lib \<Rightarrow> sender \<Rightarrow> requirer \<Rightarrow> burner \<Rightarrow> string \<Rightarrow> nat \<Rightarrow> key_exchange_state_low stage" where
  "gex_exchange x tsend treq tburn alg digest_len lo s =
     (if lo_state lo \<noteq> NB_sent1 then (Go, lo, s)
      else
        case gex_group x (or_empty (lo_data lo)) of
          None \<Rightarrow> clean LIBSSH2_ERROR_PROTO lo s
        | Some (p, g, p_len) \<Rightarrow>
            exchange_stage NB_sent1 (\<lambda>lo. kex_diffie_hellman_sha x tsend treq tburn (lo_g lo) (lo_p lo) p_len
              alg digest_len SSH_MSG_KEX_DH_GEX_INIT SSH_MSG_KEX_DH_GEX_REPLY (tl (or_empty (lo_data lo))))
              (lo\<lparr>lo_p := p, lo_g := g\<rparr>) s)"

definition dh_gex_method :: "kex_lib \<Rightarrow> sender \<Rightarrow> requirer \<Rightarrow> burner \<Rightarrow> string \<Rightarrow> nat \<Rightarrow>
    key_exchange_state_low \<Rightarrow> session \<Rightarrow> rc \<times> key_exchange_state_low \<times> session" where
  "dh_gex_method x tsend treq tburn alg digest_len =
     run_exchange kex_diffie_hellman_cleanup
       [gex_init x, send_request tsend NB_created NB_sent, await_reply treq SSH_MSG_KEX_DH_GEX_GROUP NB_sent NB_sent1,
        gex_exchange x tsend treq tburn alg digest_len]"

subsection \<open>Elliptic curves\<close>

text \<open>The message hashed; \<open>pq\<close> is the post-quantum public key of a hybrid, or empty.\<close>

definition ec_message :: "bytes \<Rightarrow> bytes \<Rightarrow> bytes \<Rightarrow> kmdhgGPshakex_state \<Rightarrow> session \<Rightarrow> bytes" where
  "ec_message public_key pq server_public_key xs s =
     kex_hash_head s @ enc_string (pq @ public_key) @ enc_string server_public_key @ or_empty (xs_k_value xs)"

definition kex_method_ec_sha_hash_create_verify :: "kex_lib \<Rightarrow> bytes \<Rightarrow> bytes \<Rightarrow> bytes \<Rightarrow> bytes \<Rightarrow> string \<Rightarrow> nat \<Rightarrow>
    kmdhgGPshakex_state \<Rightarrow> session \<Rightarrow> rc \<times> kmdhgGPshakex_state \<times> session" where
  "kex_method_ec_sha_hash_create_verify x public_key pq server_public_key h_sig alg digest_len xs s =
     kex_check_signature x alg digest_len (ec_message public_key pq server_public_key xs s) h_sig xs s"

text \<open>The fields of the reply after the host key; \<open>ok\<close> is the check of the public key's length.\<close>

definition ec_reply_fields :: "(nat \<Rightarrow> bool) \<Rightarrow> string_buf \<Rightarrow> int + bytes \<times> bytes" where
  "ec_reply_fields ok buf =
     (case ssh2_get_string buf of
        (None, buf) \<Rightarrow> Inl LIBSSH2_ERROR_PROTO
      | (Some server_public_key, buf) \<Rightarrow>
          if \<not> ok (length server_public_key) then Inl LIBSSH2_ERROR_HOSTKEY_INIT
          else
            case ssh2_get_string buf of
              (None, buf) \<Rightarrow> Inl LIBSSH2_ERROR_HOSTKEY_INIT
            | (Some h_sig, buf) \<Rightarrow> Inr (server_public_key, h_sig))"

text \<open>
  The handling of the reply that the four functions share: \<open>secret\<close> computes the encoded shared secret from the
  server's public key.
\<close>

definition ec_verify :: "kex_lib \<Rightarrow> (nat \<Rightarrow> bool) \<Rightarrow> (bytes \<Rightarrow> session \<Rightarrow> (rc + bytes) \<times> session) \<Rightarrow> string \<Rightarrow> nat \<Rightarrow>
    bytes option \<Rightarrow> bytes \<Rightarrow> bytes \<Rightarrow> kmdhgGPshakex_state stage" where
  "ec_verify x ok secret alg digest_len data public_key pq xs s =
     (if xs_state xs \<noteq> NB_created then (Go, xs, s)
      else
        case data of
          None \<Rightarrow> clean LIBSSH2_ERROR_PROTO xs s
        | Some data \<Rightarrow>
            case kex_proc_hostkey x data s of (rc, buf, s) \<Rightarrow>
              if rc \<noteq> 0 then (Clean rc, xs, s)
              else
                case ec_reply_fields ok buf of
                  Inl e \<Rightarrow> clean e xs s
                | Inr (server_public_key, h_sig) \<Rightarrow>
                    case secret server_public_key s of
                      (Inl rc, s) \<Rightarrow> (Clean rc, xs, s)
                    | (Inr k_value, s) \<Rightarrow>
                        case kex_method_ec_sha_hash_create_verify x public_key pq server_public_key h_sig alg
                               digest_len (xs\<lparr>xs_k_value := Some k_value\<rparr>) s of (rc, xs, s) \<Rightarrow>
                          if rc \<noteq> 0 then (Clean rc, xs, s) else (Go, xs\<lparr>xs_state := NB_sent\<rparr>, s))"

definition ec_start :: "kmdhgGPshakex_state stage" where
  "ec_start xs s = (Go, if xs_state xs = NB_idle then xs\<lparr>xs_state := NB_created\<rparr> else xs, s)"

definition ec_exchange :: "kex_lib \<Rightarrow> sender \<Rightarrow> requirer \<Rightarrow> (nat \<Rightarrow> bool) \<Rightarrow>
    (bytes \<Rightarrow> session \<Rightarrow> (rc + bytes) \<times> session) \<Rightarrow> string \<Rightarrow> nat \<Rightarrow> bytes option \<Rightarrow> bytes \<Rightarrow> bytes \<Rightarrow>
    kmdhgGPshakex_state \<Rightarrow> session \<Rightarrow> rc \<times> kmdhgGPshakex_state \<times> session" where
  "ec_exchange x tsend treq ok secret alg digest_len data public_key pq =
     run_exchange kex_ecdh_exchange_state_cleanup
       [ec_start, ec_verify x ok secret alg digest_len data public_key pq,
        kex_send_newkeys tsend NB_sent NB_sent2, kex_finish_stage x treq alg digest_len NB_sent2]"

text \<open>
  The frame of the methods: make the keys and the request, send it, wait for the reply, exchange.
\<close>

definition ec_init :: "key_exchange_state_low stage" where
  "ec_init lo s =
     (Go, if lo_state lo = NB_idle then lo\<lparr>lo_public_key_oct := None, lo_state := NB_created\<rparr> else lo, s)"

definition ec_method :: "sender \<Rightarrow> requirer \<Rightarrow> key_exchange_state_low stage \<Rightarrow>
    (key_exchange_state_low \<Rightarrow> kmdhgGPshakex_state \<Rightarrow> session \<Rightarrow> rc \<times> kmdhgGPshakex_state \<times> session) \<Rightarrow>
    (key_exchange_state_low \<Rightarrow> key_exchange_state_low) \<Rightarrow> key_exchange_state_low \<Rightarrow> session \<Rightarrow>
    rc \<times> key_exchange_state_low \<times> session" where
  "ec_method tsend treq create exch cleanup =
     run_exchange cleanup
       [ec_init, create, send_request tsend NB_sent NB_sent1,
        await_reply treq SSH2_MSG_KEX_ECDH_REPLY NB_sent1 NB_sent2, exchange_stage NB_sent2 exch]"

subsubsection \<open>ECDH over the NIST curves\<close>

datatype curve_type = SSH2_EC_CURVE_NISTP256 | SSH2_EC_CURVE_NISTP384 | SSH2_EC_CURVE_NISTP521

fun curve_bits :: "curve_type \<Rightarrow> nat" where
  "curve_bits SSH2_EC_CURVE_NISTP256 = 256"
| "curve_bits SSH2_EC_CURVE_NISTP384 = 384"
| "curve_bits SSH2_EC_CURVE_NISTP521 = 521"

definition kex_session_curve_type :: "bytes \<Rightarrow> curve_type option" where
  "kex_session_curve_type name =
     (if name = str ''mlkem768nistp256-sha256'' \<or> name = str ''ecdh-sha2-nistp256'' then Some SSH2_EC_CURVE_NISTP256
      else if name = str ''mlkem1024nistp384-sha384'' \<or> name = str ''ecdh-sha2-nistp384''
      then Some SSH2_EC_CURVE_NISTP384
      else if name = str ''ecdh-sha2-nistp521'' then Some SSH2_EC_CURVE_NISTP521 else None)"

fun curve_hash :: "curve_type \<Rightarrow> string \<times> nat" where
  "curve_hash SSH2_EC_CURVE_NISTP256 = (''SSH2_SHA256_ALG'', 32)"
| "curve_hash SSH2_EC_CURVE_NISTP384 = (''SSH2_SHA384_ALG'', 48)"
| "curve_hash SSH2_EC_CURVE_NISTP521 = (''SSH2_SHA512_ALG'', 64)"

definition ecdh_secret :: "kex_lib \<Rightarrow> bytes \<Rightarrow> bytes \<Rightarrow> session \<Rightarrow> (rc + bytes) \<times> session" where
  "ecdh_secret x priv server_public_key s =
     (case x_ecdh_gen_k x priv server_public_key of
        None \<Rightarrow> (case ssh2_err LIBSSH2_ERROR_KEX_FAILURE s of (rc, s) \<Rightarrow> (Inl rc, s))
      | Some k \<Rightarrow> bn_mpint x k s)"

definition kex_ecdh_sha2_nistp :: "kex_lib \<Rightarrow> sender \<Rightarrow> requirer \<Rightarrow> curve_type \<Rightarrow> bytes option \<Rightarrow> bytes \<Rightarrow> bytes \<Rightarrow>
    kmdhgGPshakex_state \<Rightarrow> session \<Rightarrow> rc \<times> kmdhgGPshakex_state \<times> session" where
  "kex_ecdh_sha2_nistp x tsend treq curve data public_key priv =
     (case curve_hash curve of (alg, digest_len) \<Rightarrow>
        ec_exchange x tsend treq (\<lambda>n. True) (ecdh_secret x priv) alg digest_len data public_key [])"

text \<open>Making the key pair; \<open>store\<close> keeps it in the state.  The error of the library is passed on.\<close>

definition new_key_pair :: "(bytes option \<Rightarrow> rc + bytes \<times> bytes) \<Rightarrow> session \<Rightarrow> (rc + bytes \<times> bytes) \<times> session" where
  "new_key_pair f s =
     (case draw s of (seed, s) \<Rightarrow>
        case f seed of Inl rc \<Rightarrow> (case ssh2_err rc s of (rc, s) \<Rightarrow> (Inl rc, s)) | Inr pair \<Rightarrow> (Inr pair, s))"

definition ecdh_create :: "kex_lib \<Rightarrow> bytes \<Rightarrow> key_exchange_state_low stage" where
  "ecdh_create x name lo s =
     (if lo_state lo \<noteq> NB_created then (Go, lo, s)
      else
        case kex_session_curve_type name of
          None \<Rightarrow> clean (- 1) lo s
        | Some curve \<Rightarrow>
            case new_key_pair (\<lambda>seed. x_ecdsa_create_key x seed (curve_bits curve)) s of
              (Inl rc, s) \<Rightarrow> (Clean rc, lo, s)
            | (Inr (priv, pub), s) \<Rightarrow>
                (Go, lo\<lparr>lo_private_key := Some priv, lo_public_key_oct := Some pub,
                   lo_request := fst (ssh2_store_str [SSH2_MSG_KEX_ECDH_INIT] pub), lo_state := NB_sent\<rparr>, s))"

definition ecdh_exchange :: "kex_lib \<Rightarrow> sender \<Rightarrow> requirer \<Rightarrow> bytes \<Rightarrow> key_exchange_state_low \<Rightarrow> kmdhgGPshakex_state \<Rightarrow>
    session \<Rightarrow> rc \<times> kmdhgGPshakex_state \<times> session" where
  "ecdh_exchange x tsend treq name lo xs s =
     (case kex_session_curve_type name of
        None \<Rightarrow> (case ssh2_err (- 1) s of (rc, s) \<Rightarrow> (rc, xs, s))
      | Some curve \<Rightarrow> kex_ecdh_sha2_nistp x tsend treq curve (lo_data lo) (or_empty (lo_public_key_oct lo))
                        (or_empty (lo_private_key lo)) xs s)"

definition kex_method_ecdh_key_exchange :: "kex_lib \<Rightarrow> sender \<Rightarrow> requirer \<Rightarrow> bytes \<Rightarrow> key_exchange_state_low \<Rightarrow>
    session \<Rightarrow> rc \<times> key_exchange_state_low \<times> session" where
  "kex_method_ecdh_key_exchange x tsend treq name =
     ec_method tsend treq (ecdh_create x name) (ecdh_exchange x tsend treq name) kex_method_ecdh_cleanup"

subsubsection \<open>X25519\<close>

definition SSH2_ED25519_KEY_LEN :: nat where "SSH2_ED25519_KEY_LEN = 32"

definition curve25519_secret :: "kex_lib \<Rightarrow> bytes \<Rightarrow> bytes \<Rightarrow> session \<Rightarrow> (rc + bytes) \<times> session" where
  "curve25519_secret x priv server_public_key s =
     (case x_curve25519_gen_k x priv server_public_key of
        None \<Rightarrow> (case ssh2_err LIBSSH2_ERROR_KEX_FAILURE s of (rc, s) \<Rightarrow> (Inl rc, s))
      | Some k \<Rightarrow> bn_mpint x k s)"

definition kex_curve25519_sha256 :: "kex_lib \<Rightarrow> sender \<Rightarrow> requirer \<Rightarrow> bytes option \<Rightarrow> bytes \<Rightarrow> bytes \<Rightarrow>
    kmdhgGPshakex_state \<Rightarrow> session \<Rightarrow> rc \<times> kmdhgGPshakex_state \<times> session" where
  "kex_curve25519_sha256 x tsend treq data public_key priv =
     ec_exchange x tsend treq (\<lambda>n. n = SSH2_ED25519_KEY_LEN) (curve25519_secret x priv) ''SSH2_SHA256_ALG'' 32
       data public_key []"

definition curve25519_create :: "kex_lib \<Rightarrow> bytes \<Rightarrow> key_exchange_state_low stage" where
  "curve25519_create x name lo s =
     (if lo_state lo \<noteq> NB_created then (Go, lo, s)
      else if \<not> kex_is_curve25519 name then clean (- 1) lo s
      else
        case new_key_pair (x_curve25519_new x) s of
          (Inl rc, s) \<Rightarrow> (Clean rc, lo, s)
        | (Inr (pub, priv), s) \<Rightarrow>
            (Go, lo\<lparr>lo_curve25519_public_key := Some pub, lo_curve25519_private_key := Some priv,
               lo_request := fst (ssh2_store_str [SSH2_MSG_KEX_ECDH_INIT] (take SSH2_ED25519_KEY_LEN pub)),
               lo_state := NB_sent\<rparr>, s))"

definition curve25519_exchange :: "kex_lib \<Rightarrow> sender \<Rightarrow> requirer \<Rightarrow> key_exchange_state_low \<Rightarrow> kmdhgGPshakex_state \<Rightarrow>
    session \<Rightarrow> rc \<times> kmdhgGPshakex_state \<times> session" where
  "curve25519_exchange x tsend treq lo =
     kex_curve25519_sha256 x tsend treq (lo_data lo)
       (take SSH2_ED25519_KEY_LEN (or_empty (lo_curve25519_public_key lo))) (or_empty (lo_curve25519_private_key lo))"

definition kex_method_curve25519_key_exchange :: "kex_lib \<Rightarrow> sender \<Rightarrow> requirer \<Rightarrow> bytes \<Rightarrow> key_exchange_state_low \<Rightarrow>
    session \<Rightarrow> rc \<times> key_exchange_state_low \<times> session" where
  "kex_method_curve25519_key_exchange x tsend treq name =
     ec_method tsend treq (curve25519_create x name) (curve25519_exchange x tsend treq) kex_method_curve25519_cleanup"

subsubsection \<open>Hybrids with ML-KEM\<close>

definition SSH2_MLKEM_SHARED_SECRET_LEN :: nat where "SSH2_MLKEM_SHARED_SECRET_LEN = 32"
definition SSH2_MLKEM_768_PUBLIC_KEY_LEN :: nat where "SSH2_MLKEM_768_PUBLIC_KEY_LEN = 1184"
definition SSH2_MLKEM_768_CIPHERTEXT :: nat where "SSH2_MLKEM_768_CIPHERTEXT = 1088"
definition SSH2_MLKEM_1024_PUBLIC_KEY_LEN :: nat where "SSH2_MLKEM_1024_PUBLIC_KEY_LEN = 1568"
definition SSH2_MLKEM_1024_CIPHERTEXT :: nat where "SSH2_MLKEM_1024_CIPHERTEXT = 1568"

text \<open>
  The shared secret of a hybrid is the hash of the two secrets.  \<open>hybrid_value\<close> encodes it; the block for the
  result is allocated before anything else.
\<close>

definition hybrid_value :: "kex_lib \<Rightarrow> string \<Rightarrow> nat \<Rightarrow> bytes \<Rightarrow> session \<Rightarrow> (rc + bytes) \<times> session" where
  "hybrid_value x alg digest_len shared_secret s =
     (case kex_hash_opt x alg shared_secret of
        None \<Rightarrow> (case ssh2_err LIBSSH2_ERROR_HASH_CALC s of (rc, s) \<Rightarrow> (Inl rc, s))
      | Some h \<Rightarrow> (Inr (ssh2_htonu32 (of_nat digest_len) @ h), s))"

definition err_left :: "int \<Rightarrow> session \<Rightarrow> (rc + bytes) \<times> session" where
  "err_left e s = (case ssh2_err e s of (rc, s) \<Rightarrow> (Inl rc, s))"

text \<open>
  With X25519 the buffer is a local array of 64 bytes.  \<open>ssh2_bn_to_bin\<close> writes a number without leading zeros:
  when it is shorter than 32 bytes, the end of the array is hashed as it was, uninitialised, which is a fault.
\<close>

definition mlkem768x25519_secret :: "kex_lib \<Rightarrow> bytes \<Rightarrow> bytes \<Rightarrow> bytes \<Rightarrow> session \<Rightarrow> (rc + bytes) \<times> session" where
  "mlkem768x25519_secret x priv pq_priv server_public_key s =
     (case ssh2_alloc s of (ok, s) \<Rightarrow>
        if \<not> ok then err_left LIBSSH2_ERROR_ALLOC s
        else
          case x_mlkem_get_sk x 768 pq_priv (take SSH2_MLKEM_768_CIPHERTEXT server_public_key) of
            None \<Rightarrow> err_left LIBSSH2_ERROR_KEX_FAILURE s
          | Some sk \<Rightarrow>
              case x_curve25519_gen_k x priv (drop SSH2_MLKEM_768_CIPHERTEXT server_public_key) of
                None \<Rightarrow> err_left LIBSSH2_ERROR_KEX_FAILURE s
              | Some k \<Rightarrow>
                  case x_bn_to_bin x k of
                    None \<Rightarrow> err_left LIBSSH2_ERROR_OUT_OF_BOUNDARY s
                  | Some bs \<Rightarrow>
                      hybrid_value x ''SSH2_SHA256_ALG'' 32
                        (pad_to SSH2_MLKEM_SHARED_SECRET_LEN sk @ pad_to SSH2_ED25519_KEY_LEN bs)
                        (c_assert (length bs = SSH2_ED25519_KEY_LEN) s))"

definition kex_mlkem768x25519_sha256 :: "kex_lib \<Rightarrow> sender \<Rightarrow> requirer \<Rightarrow> bytes option \<Rightarrow> bytes \<Rightarrow> bytes \<Rightarrow> bytes \<Rightarrow>
    bytes \<Rightarrow> kmdhgGPshakex_state \<Rightarrow> session \<Rightarrow> rc \<times> kmdhgGPshakex_state \<times> session" where
  "kex_mlkem768x25519_sha256 x tsend treq data public_t_key private_t_key public_pq_key private_pq_key =
     ec_exchange x tsend treq (\<lambda>n. n = SSH2_MLKEM_768_CIPHERTEXT + SSH2_ED25519_KEY_LEN)
       (mlkem768x25519_secret x private_t_key private_pq_key) ''SSH2_SHA256_ALG'' 32 data public_t_key public_pq_key"

text \<open>The ML-KEM pair is made after the pair of the curve.\<close>

definition mlkem_pair :: "kex_lib \<Rightarrow> nat \<Rightarrow> nat \<Rightarrow> bytes \<Rightarrow> key_exchange_state_low \<Rightarrow> session \<Rightarrow>
    flow \<times> key_exchange_state_low \<times> session" where
  "mlkem_pair x mlkem_size public_key_len public_t_key lo s =
     (case new_key_pair (\<lambda>seed. x_mlkem_new x seed mlkem_size) s of
        (Inl rc, s) \<Rightarrow> (Clean rc, lo, s)
      | (Inr (pub, priv), s) \<Rightarrow>
          (Go, lo\<lparr>lo_mlkem_public_key := Some pub, lo_mlkem_private_key := Some priv,
             lo_request := fst (ssh2_store_hybrid_str [SSH2_MSG_KEX_ECDH_INIT] (take public_key_len pub) public_t_key),
             lo_state := NB_sent\<rparr>, s))"

definition mlkem768x25519_create :: "kex_lib \<Rightarrow> key_exchange_state_low stage" where
  "mlkem768x25519_create x lo s =
     (if lo_state lo \<noteq> NB_created then (Go, lo, s)
      else
        case new_key_pair (x_curve25519_new x) s of
          (Inl rc, s) \<Rightarrow> (Clean rc, lo, s)
        | (Inr (pub, priv), s) \<Rightarrow>
            mlkem_pair x 768 SSH2_MLKEM_768_PUBLIC_KEY_LEN (take SSH2_ED25519_KEY_LEN pub)
              (lo\<lparr>lo_curve25519_public_key := Some pub, lo_curve25519_private_key := Some priv\<rparr>) s)"

definition mlkem768x25519_exchange :: "kex_lib \<Rightarrow> sender \<Rightarrow> requirer \<Rightarrow> key_exchange_state_low \<Rightarrow>
    kmdhgGPshakex_state \<Rightarrow> session \<Rightarrow> rc \<times> kmdhgGPshakex_state \<times> session" where
  "mlkem768x25519_exchange x tsend treq lo =
     kex_mlkem768x25519_sha256 x tsend treq (lo_data lo)
       (take SSH2_ED25519_KEY_LEN (or_empty (lo_curve25519_public_key lo))) (or_empty (lo_curve25519_private_key lo))
       (take SSH2_MLKEM_768_PUBLIC_KEY_LEN (or_empty (lo_mlkem_public_key lo))) (or_empty (lo_mlkem_private_key lo))"

definition kex_method_mlkem768x25519_key_exchange :: "kex_lib \<Rightarrow> sender \<Rightarrow> requirer \<Rightarrow> key_exchange_state_low \<Rightarrow>
    session \<Rightarrow> rc \<times> key_exchange_state_low \<times> session" where
  "kex_method_mlkem768x25519_key_exchange x tsend treq =
     ec_method tsend treq (mlkem768x25519_create x) (mlkem768x25519_exchange x tsend treq)
       kex_method_mlkem768x25519_cleanup"

text \<open>The parameters of the two NIST hybrids: size, length of the public key, length of the ciphertext.\<close>

fun mlkem_nistp_params :: "curve_type \<Rightarrow> (nat \<times> nat \<times> nat) option" where
  "mlkem_nistp_params SSH2_EC_CURVE_NISTP256 = Some (768, SSH2_MLKEM_768_PUBLIC_KEY_LEN, SSH2_MLKEM_768_CIPHERTEXT)"
| "mlkem_nistp_params SSH2_EC_CURVE_NISTP384 = Some (1024, SSH2_MLKEM_1024_PUBLIC_KEY_LEN, SSH2_MLKEM_1024_CIPHERTEXT)"
| "mlkem_nistp_params SSH2_EC_CURVE_NISTP521 = None"

definition mlkem_nistp_secret :: "kex_lib \<Rightarrow> string \<Rightarrow> nat \<Rightarrow> nat \<Rightarrow> nat \<Rightarrow> bytes \<Rightarrow> bytes \<Rightarrow> bytes \<Rightarrow> session \<Rightarrow>
    (rc + bytes) \<times> session" where
  "mlkem_nistp_secret x alg digest_len mlkem_size cipher_len priv pq_priv server_public_key s =
     (case ssh2_alloc s of (ok, s) \<Rightarrow>
        if \<not> ok then err_left LIBSSH2_ERROR_ALLOC s
        else
          case x_ecdh_gen_k x priv (drop cipher_len server_public_key) of
            None \<Rightarrow> err_left LIBSSH2_ERROR_KEX_FAILURE s
          | Some k \<Rightarrow>
              case ssh2_alloc s of (ok, s) \<Rightarrow>
                if \<not> ok then err_left LIBSSH2_ERROR_ALLOC s
                else
                  case x_mlkem_get_sk x mlkem_size pq_priv (take cipher_len server_public_key) of
                    None \<Rightarrow> err_left LIBSSH2_ERROR_KEX_FAILURE s
                  | Some sk \<Rightarrow>
                      case x_bn_to_bin x k of
                        None \<Rightarrow> err_left LIBSSH2_ERROR_OUT_OF_BOUNDARY s
                      | Some bs \<Rightarrow>
                          hybrid_value x alg digest_len (pad_to SSH2_MLKEM_SHARED_SECRET_LEN sk @ bs)
                            (c_assert (length bs = x_bn_bytes x k) s))"

definition kex_mlkem_nistp :: "kex_lib \<Rightarrow> sender \<Rightarrow> requirer \<Rightarrow> bytes \<Rightarrow> bytes option \<Rightarrow> bytes \<Rightarrow> bytes \<Rightarrow> bytes \<Rightarrow>
    bytes \<Rightarrow> kmdhgGPshakex_state \<Rightarrow> session \<Rightarrow> rc \<times> kmdhgGPshakex_state \<times> session" where
  "kex_mlkem_nistp x tsend treq name data public_t_key private_t_key public_pq_key private_pq_key xs s =
     (case Option.bind (kex_session_curve_type name) (\<lambda>c. map_option (\<lambda>p. (c, p)) (mlkem_nistp_params c)) of
        None \<Rightarrow> (case ssh2_err (- 1) s of (rc, s) \<Rightarrow> (rc, kex_ecdh_exchange_state_cleanup xs, s))
      | Some (curve, mlkem_size, public_key_len, cipher_len) \<Rightarrow>
          case curve_hash curve of (alg, digest_len) \<Rightarrow>
            ec_exchange x tsend treq (\<lambda>n. n > cipher_len)
              (mlkem_nistp_secret x alg digest_len mlkem_size cipher_len private_t_key private_pq_key)
              alg digest_len data public_t_key (take public_key_len public_pq_key) xs s)"

definition mlkem_nistp_create :: "kex_lib \<Rightarrow> bytes \<Rightarrow> key_exchange_state_low stage" where
  "mlkem_nistp_create x name lo s =
     (if lo_state lo \<noteq> NB_created then (Go, lo, s)
      else
        case Option.bind (kex_session_curve_type name) (\<lambda>c. map_option (\<lambda>p. (c, p)) (mlkem_nistp_params c)) of
          None \<Rightarrow> clean (- 1) lo s
        | Some (curve, mlkem_size, public_key_len, cipher_len) \<Rightarrow>
            case new_key_pair (\<lambda>seed. x_ecdsa_create_key x seed (curve_bits curve)) s of
              (Inl rc, s) \<Rightarrow> (Clean rc, lo, s)
            | (Inr (priv, pub), s) \<Rightarrow>
                mlkem_pair x mlkem_size public_key_len pub
                  (lo\<lparr>lo_private_key := Some priv, lo_public_key_oct := Some pub\<rparr>) s)"

definition mlkem_nistp_exchange :: "kex_lib \<Rightarrow> sender \<Rightarrow> requirer \<Rightarrow> bytes \<Rightarrow> key_exchange_state_low \<Rightarrow>
    kmdhgGPshakex_state \<Rightarrow> session \<Rightarrow> rc \<times> kmdhgGPshakex_state \<times> session" where
  "mlkem_nistp_exchange x tsend treq name lo =
     kex_mlkem_nistp x tsend treq name (lo_data lo) (or_empty (lo_public_key_oct lo)) (or_empty (lo_private_key lo))
       (or_empty (lo_mlkem_public_key lo)) (or_empty (lo_mlkem_private_key lo))"

definition kex_method_mlkem_nistp_key_exchange :: "kex_lib \<Rightarrow> sender \<Rightarrow> requirer \<Rightarrow> bytes \<Rightarrow> key_exchange_state_low \<Rightarrow>
    session \<Rightarrow> rc \<times> key_exchange_state_low \<times> session" where
  "kex_method_mlkem_nistp_key_exchange x tsend treq name =
     ec_method tsend treq (mlkem_nistp_create x name) (mlkem_nistp_exchange x tsend treq name)
       kex_method_mlkem_nistp_cleanup"

subsection \<open>The table\<close>

definition kex_method_diffie_hellman_group1_sha1_key_exchange where
  "kex_method_diffie_hellman_group1_sha1_key_exchange x tsend treq tburn =
     dh_group_method x tsend treq tburn dh_group1_p 128 ''SSH2_SHA1_ALG'' 20"

definition kex_method_diffie_hellman_group14_key_exchange where
  "kex_method_diffie_hellman_group14_key_exchange x tsend treq tburn alg digest_len =
     dh_group_method x tsend treq tburn dh_group14_p 256 alg digest_len"

definition kex_method_diffie_hellman_group16_sha512_key_exchange where
  "kex_method_diffie_hellman_group16_sha512_key_exchange x tsend treq tburn =
     dh_group_method x tsend treq tburn dh_group16_p 512 ''SSH2_SHA512_ALG'' 64"

definition kex_method_diffie_hellman_group18_sha512_key_exchange where
  "kex_method_diffie_hellman_group18_sha512_key_exchange x tsend treq tburn =
     dh_group_method x tsend treq tburn dh_group18_p 1024 ''SSH2_SHA512_ALG'' 64"

text \<open>The \<open>exchange_keys\<close> entry of the method with the given name; a name not in the table is a fault.\<close>

definition kex_exchange_keys :: "kex_lib \<Rightarrow> sender \<Rightarrow> requirer \<Rightarrow> burner \<Rightarrow> bytes \<Rightarrow> key_exchange_state_low \<Rightarrow>
    session \<Rightarrow> rc \<times> key_exchange_state_low \<times> session" where
  "kex_exchange_keys x tsend treq tburn name =
     (if kex_is_mlkem_x25519 name then kex_method_mlkem768x25519_key_exchange x tsend treq
      else if kex_is_mlkem_nistp name then kex_method_mlkem_nistp_key_exchange x tsend treq name
      else if kex_is_curve25519 name then kex_method_curve25519_key_exchange x tsend treq name
      else if kex_is_ecdh name then kex_method_ecdh_key_exchange x tsend treq name
      else if name = str ''diffie-hellman-group-exchange-sha256''
      then dh_gex_method x tsend treq tburn ''SSH2_SHA256_ALG'' 32
      else if name = str ''diffie-hellman-group16-sha512''
      then kex_method_diffie_hellman_group16_sha512_key_exchange x tsend treq tburn
      else if name = str ''diffie-hellman-group18-sha512''
      then kex_method_diffie_hellman_group18_sha512_key_exchange x tsend treq tburn
      else if name = str ''diffie-hellman-group14-sha256''
      then kex_method_diffie_hellman_group14_key_exchange x tsend treq tburn ''SSH2_SHA256_ALG'' 32
      else if name = str ''diffie-hellman-group14-sha1''
      then kex_method_diffie_hellman_group14_key_exchange x tsend treq tburn ''SSH2_SHA1_ALG'' 20
      else if name = str ''diffie-hellman-group1-sha1''
      then kex_method_diffie_hellman_group1_sha1_key_exchange x tsend treq tburn
      else if name = str ''diffie-hellman-group-exchange-sha1''
      then dh_gex_method x tsend treq tburn ''SSH2_SHA1_ALG'' 20
      else (\<lambda>lo s. (LIBSSH2_ERROR_KEX_FAILURE, lo, set_fault s)))"

text \<open>
  As \<open>ssh2_kex_exchange\<close> calls it, on \<open>startup_key_state\<close> and over the transport of an exchange.  While it
  runs nothing else changes that state: only the arrival of a KEXINIT would, and it would be a fault.
\<close>

definition kex_treq :: requirer where
  "kex_treq ty start s = ssh2_packet_require kex_read (libssh2_session_disconnect kex_send) ty 0 [] start s"

definition kex_tburn :: burner where
  "kex_tburn state s = ssh2_packet_burn kex_read (libssh2_session_disconnect kex_send) state s"

definition low_state :: "session \<Rightarrow> key_exchange_state_low" where
  "low_state s = ks_low (startup_key_state s)"

definition set_low :: "key_exchange_state_low \<Rightarrow> session \<Rightarrow> session" where
  "set_low lo s = s\<lparr>startup_key_state := (startup_key_state s)\<lparr>ks_low := lo\<rparr>\<rparr>"

definition exchange_keys :: "kex_lib \<Rightarrow> exchange" where
  "exchange_keys x m s =
     (case kex_exchange_keys x kex_send kex_treq kex_tburn (km_name m) (low_state s) s of
        (rc, lo, s) \<Rightarrow> (rc, set_low lo s))"

end
