(* ===== verification/KexExchangeProps.thy ===== *)
theory KexExchangeProps
  imports KexExchange BooksProps
begin

text \<open>
  What an exchange of keys guarantees: the keys it puts in use are derived, as RFC 4253 says, from a secret and an
  exchange hash that the signature of the host covers.
\<close>

unbundle bit_operations_syntax

subsection \<open>Key derivation\<close>

text \<open>
  RFC 4253, section 7.2: \<open>K1 = HASH(K || H || X || session_id)\<close>, and each further piece is the hash of \<open>K || H\<close>
  and all pieces before it.
\<close>

fun rfc4253_pieces :: "(bytes \<Rightarrow> bytes) \<Rightarrow> bytes \<Rightarrow> bytes \<Rightarrow> nat \<Rightarrow> bytes" where
  "rfc4253_pieces hash kh first 0 = []"
| "rfc4253_pieces hash kh first (Suc n) =
     (let before = rfc4253_pieces hash kh first n
      in before @ hash (kh @ (if n = 0 then first else before)))"

lemma length_pieces:
  "(\<And>m. length (hash m) = d) \<Longrightarrow> length (rfc4253_pieces hash kh first n) = n * d"
  by (induction n) (simp_all add: Let_def)

lemma pieces_empty: "(\<And>m. length (hash m) = d) \<Longrightarrow> d > 0 \<Longrightarrow> rfc4253_pieces hash kh first n = [] \<longleftrightarrow> n = 0"
  using length_pieces [of hash d kh first n] by (metis length_0_conv mult_is_0 neq0_conv)

lemma value_hash_loop_pieces:
  assumes h: "\<And>m. hash m = Some (f m)" and len: "\<And>m. length (f m) = d" and d: "d > 0"
  shows "data_len \<le> n * d \<Longrightarrow> n = 0 \<or> (n - 1) * d < data_len \<Longrightarrow> k \<le> n \<Longrightarrow>
    value_hash_loop hash d kh first data_len (rfc4253_pieces f kh first k) = Some (rfc4253_pieces f kh first n)"
proof (induction "n - k" arbitrary: k)
  case 0
  then have "k = n" by simp
  then show ?case
    using 0 by (subst value_hash_loop.simps) (simp add: length_pieces [of f d, OF len])
next
  case (Suc j)
  then have kn: "k < n" by simp
  then have "k * d \<le> (n - 1) * d" by (intro mult_right_mono) auto
  moreover have "(n - 1) * d < data_len" using Suc.prems(2) kn by simp
  ultimately have short: "\<not> data_len \<le> k * d" by linarith
  have "pad_to d (f m) = f m" for m using len [of m] by (simp add: pad_to_def)
  then have step: "rfc4253_pieces f kh first k @ pad_to d (f (kh @ (if rfc4253_pieces f kh first k \<noteq> []
      then rfc4253_pieces f kh first k else first))) = rfc4253_pieces f kh first (Suc k)"
    using pieces_empty [of f d kh first k, OF len d] by (simp add: Let_def)
  have "value_hash_loop hash d kh first data_len (rfc4253_pieces f kh first (Suc k)) = Some (rfc4253_pieces f kh first n)"
    using Suc kn by (intro Suc.hyps(1)) auto
  then show ?case
    using short d by (subst value_hash_loop.simps) (simp only: length_pieces [of f d, OF len] h step option.case, simp)
qed

text \<open>
  A library, a cipher, a MAC and a session whose curve25519 exchange has checked the signature, has sent NEWKEYS and
  has the server's in its queue: the hash tells the length of what it hashed, and only the signature \<open>[9]\<close> is valid.
\<close>

definition example_lib :: kex_lib where
  "example_lib = \<lparr>x_md5 = False, x_hash_init = (\<lambda>a. True), x_hash = (\<lambda>a m. Some (replicate 32 (of_nat (length m)))),
     x_bn_bits = (\<lambda>n. 8), x_bn_bytes = (\<lambda>n. 1), x_bn_to_bin = (\<lambda>n. Some [of_nat n]),
     x_bn_from_bin = (\<lambda>bs. Some 1), x_bn_set_word = Some, x_dh_max_modulus_bits = 8, x_dh_gex_groups = (1, 2, 3),
     x_dh_key_pair = (\<lambda>r g p n. None), x_dh_secret = (\<lambda>b f p. None), x_ecdsa_create_key = (\<lambda>r n. Inl (- 1)),
     x_ecdh_gen_k = (\<lambda>a b. None), x_curve25519_new = (\<lambda>r. Inr (replicate 32 1, replicate 32 2)),
     x_curve25519_gen_k = (\<lambda>a b. Some 5), x_mlkem_new = (\<lambda>r n. Inl (- 1)), x_mlkem_get_sk = (\<lambda>n a b. None),
     x_hostkey_init = (\<lambda>n k. Some k), x_sig_verify = (\<lambda>n a sg h. if sg = [9] then 0 else - 1)\<rparr>"

definition example_cipher :: crypt_method where
  "example_cipher = \<lparr>cm_name = [], cm_blocksize = 8, cm_auth_len = 0, cm_flags = 0, cm_get_len = None,
     cm_crypt = (\<lambda>n mem len fl a. (0, mem, a)), cm_iv_len = 2, cm_secret_len = 4,
     cm_init = (\<lambda>iv secret encrypt priv ok a. (0, iv @ secret))\<rparr>"

definition example_mac :: mac_method where
  "example_mac = \<lparr>mm_name = [], mm_mac_len = 2, mm_key_len = 3, mm_init = (\<lambda>key a. key), mm_dtor = (\<lambda>a. []),
     mm_etm = False, mm_hash = (\<lambda>n p q a. (0, [hd p, last q], a))\<rparr>"

definition example_end :: endpoint_data where
  "example_end = endpoint_0\<lparr>crypt := Some example_cipher, mac := Some example_mac, banner := Some [83, 13, 10],
     kexinit := Some [20]\<rparr>"

definition replied :: session where
  "replied = set_low
     (key_state_low_0\<lparr>lo_state := NB_sent2, lo_exchange := exchange_state_0\<lparr>xs_state := NB_sent2,
        xs_k_value := Some [5], xs_h_sig_comp := replicate 32 47\<rparr>\<rparr>)
     (bare_session\<lparr>st := SSH2_STATE_EXCHANGING_KEYS OR SSH2_STATE_KEX_ACTIVE,
        local := example_end, remote := example_end,
        hostkey := Some \<lparr>hm_name = [1], hm_sig_verify = True, hm_encrypt = False, hm_dtor = False\<rparr>,
        packets := [\<lparr>pkt_data = [21], pkt_len = 1, pkt_head = 0\<rparr>]\<rparr>)"

definition curve25519_method :: kex_method where
  "curve25519_method = \<lparr>km_name = str ''curve25519-sha256'', km_exchange_keys = True, km_cleanup = True, km_flags = 0\<rparr>"

text \<open>
  C17. Each key, IV and MAC key is the first part, of the length the method asks for, of the sequence RFC 4253
  prescribes for its letter, over the shared secret, the exchange hash and the session id.
\<close>

theorem kex_value_hash_rfc4253:
  assumes "0 < digest_len" "digest_len \<le> MAX_SHA_DIGEST_LEN" "allocs s = []" "x_hash_init x alg"
    and "\<And>m. x_hash x alg m = Some (f m)" "\<And>m. length (f m) = digest_len"
    and "xs_k_value xs = Some k" "session_id s = Some i"
  shows "kex_value_hash x alg digest_len xs data_len letter s =
    (Some (take data_len (rfc4253_pieces f (k @ take digest_len (xs_h_sig_comp xs)) (letter # i)
       ((data_len + digest_len - 1) div digest_len))), s)"
proof -
  let ?n = "(data_len + digest_len - 1) div digest_len" and ?d = digest_len
  have "data_len \<le> ?n * ?d" "?n = 0 \<or> (?n - 1) * ?d < data_len"
  proof -
    have e: "?d * ?n + (data_len + ?d - 1) mod ?d = data_len + ?d - 1" by simp
    have m: "(data_len + ?d - 1) mod ?d < ?d" using assms(1) by simp
    show "data_len \<le> ?n * ?d" using e m assms(1) mult.commute [of ?n ?d] by linarith
    show "?n = 0 \<or> (?n - 1) * ?d < data_len"
    proof (cases ?n)
      case (Suc j)
      have "?d * ?n \<le> data_len + ?d - 1" using e by linarith
      then have "?d + j * ?d \<le> data_len + ?d - 1" unfolding Suc by (simp add: algebra_simps)
      then have "j * ?d < data_len" using assms(1) by linarith
      then show ?thesis unfolding Suc by simp
    qed simp
  qed
  from value_hash_loop_pieces [of "\<lambda>m. if x_hash_init x alg then x_hash x alg m else None" f ?d data_len ?n 0
      "k @ take ?d (xs_h_sig_comp xs)" "letter # i", OF _ assms(6) assms(1) this]
  show ?thesis using assms by (simp add: kex_value_hash_def ssh2_alloc_def)
qed

theorem kex_value_hash_rfc4253_witness:
  "fst (kex_value_hash example_lib [] 32 (exchange_state_0\<lparr>xs_k_value := Some [5], xs_h_sig_comp := replicate 32 6\<rparr>) 40 65
     (bare_session\<lparr>session_id := Some [8]\<rparr>)) = Some (replicate 32 35 @ replicate 8 65)"
proof -
  let ?xs = "exchange_state_0\<lparr>xs_k_value := Some [5], xs_h_sig_comp := replicate 32 6\<rparr>"
  let ?s = "bare_session\<lparr>session_id := Some [8]\<rparr>"
  let ?f = "\<lambda>m. replicate 32 (of_nat (length m)) :: bytes"
  have "kex_value_hash example_lib [] 32 ?xs 40 65 ?s =
      (Some (take 40 (rfc4253_pieces ?f ([5] @ take 32 (xs_h_sig_comp ?xs)) (65 # [8]) ((40 + 32 - 1) div 32))), ?s)"
    by (rule kex_value_hash_rfc4253)
      (simp_all add: MAX_SHA_DIGEST_LEN_def example_lib_def bare_session_def session_init_defs)
  moreover have "take 40 (rfc4253_pieces ?f ([5] @ take 32 (xs_h_sig_comp ?xs)) (65 # [8]) ((40 + 32 - 1) div 32)) =
      replicate 32 35 @ replicate 8 65"
    by code_simp
  ultimately show ?thesis by simp
qed

subsection \<open>The signature over the exchange hash\<close>

text \<open>
  The exchange hash covers both identification strings, both KEXINIT messages, the host key and the shared
  secret, and the key the hash covers is the one its signature was checked with.
\<close>

definition host_signed :: "kex_lib \<Rightarrow> string \<Rightarrow> nat \<Rightarrow> kmdhgGPshakex_state \<Rightarrow> bool" where
  "host_signed x alg digest_len xs \<longleftrightarrow>
     (\<exists>s k a h_sig m. hostkey s = Some k \<and> x_hostkey_init x (hm_name k) (or_empty (server_hostkey s)) = Some a \<and>
        x_hash x alg (kex_hash_head s @ m @ or_empty (xs_k_value xs)) = Some (xs_h_sig_comp xs) \<and>
        x_sig_verify x (hm_name k) a h_sig (take digest_len (xs_h_sig_comp xs)) = 0)"

text \<open>What the checks before the signature leave alone.\<close>

definition same_host :: "session \<Rightarrow> session \<Rightarrow> bool" where
  "same_host s t \<longleftrightarrow> hostkey t = hostkey s \<and> server_hostkey t = server_hostkey s \<and>
     server_hostkey_abstract t = server_hostkey_abstract s"

lemma same_host_refl [simp]: "same_host s s"
  by (simp add: same_host_def)

lemma same_host_trans: "same_host s t \<Longrightarrow> same_host t u \<Longrightarrow> same_host s u"
  by (simp add: same_host_def)

lemma same_host_upd [simp]:
  "same_host s (t\<lparr>err_code := e\<rparr>) = same_host s t" "same_host s (set_fault t) = same_host s t"
  "same_host s (c_assert P t) = same_host s t" "same_host s (t\<lparr>allocs := al\<rparr>) = same_host s t"
  by (simp_all add: same_host_def set_fault_def c_assert_def)

lemma bn_mpint_host: "bn_mpint x n s = (r, t) \<Longrightarrow> same_host s t"
  by (auto simp: bn_mpint_def ssh2_alloc_def ssh2_err_def Let_def split: list.splits if_splits option.splits)

definition keeps_host :: "(bytes \<Rightarrow> session \<Rightarrow> (rc + bytes) \<times> session) \<Rightarrow> bool" where
  "keeps_host secret \<longleftrightarrow> (\<forall>pk s r t. secret pk s = (r, t) \<longrightarrow> same_host s t)"

lemma secrets_keep_host:
  "keeps_host (ecdh_secret x priv)" "keeps_host (curve25519_secret x priv)"
  "keeps_host (mlkem768x25519_secret x priv pq)" "keeps_host (mlkem_nistp_secret x alg d m c priv pq)"
  by (auto simp: keeps_host_def ecdh_secret_def curve25519_secret_def mlkem768x25519_secret_def
      mlkem_nistp_secret_def hybrid_value_def err_left_def ssh2_alloc_def ssh2_err_def
      dest: bn_mpint_host split: list.splits if_splits option.splits)

lemma proc_hostkey_host:
  "kex_proc_hostkey x data s = (0, buf, t) \<Longrightarrow>
   \<exists>k a. hostkey t = Some k \<and> server_hostkey_abstract t = Some a \<and>
     x_hostkey_init x (hm_name k) (or_empty (server_hostkey t)) = Some a"
  by (auto simp: kex_proc_hostkey_def kex_copy_hostkey_def kex_fingerprints_def or_empty_def ssh2_alloc_def ssh2_err_def
      Let_def split: if_splits option.splits prod.splits list.splits)

lemma check_signature_signs:
  assumes "kex_check_signature x alg d (kex_hash_head s @ m @ or_empty (xs_k_value xs)) h_sig xs s = (0, xs', s')"
    and "hostkey s = Some k" "server_hostkey_abstract s = Some a"
    "x_hostkey_init x (hm_name k) (or_empty (server_hostkey s)) = Some a"
  shows "host_signed x alg d xs'"
proof -
  obtain h where h: "x_hash x alg (kex_hash_head s @ m @ or_empty (xs_k_value xs)) = Some h"
    "xs' = xs\<lparr>xs_h_sig_comp := h\<rparr>" "x_sig_verify x (hm_name k) a h_sig (take d h) = 0"
    using assms(1-3) by (auto simp: kex_check_signature_def ssh2_err_def Let_def c_assert_def set_fault_def
        split: if_splits option.splits)
  show ?thesis
    unfolding host_signed_def
    by (intro exI [of _ s] exI [of _ k] exI [of _ a] exI [of _ h_sig] exI [of _ m]) (simp add: assms h)
qed

lemma check_signature_state:
  "kex_check_signature x alg d m h_sig xs s = (rc, xs', s') \<Longrightarrow> xs_state xs' = xs_state xs"
  by (auto simp: kex_check_signature_def ssh2_err_def Let_def split: if_splits option.splits)

subsection \<open>Stage by stage\<close>

text \<open>
  A stage that starts with \<open>P\<close> and goes on ends with \<open>Q\<close>; when it returns, it leaves \<open>I\<close>, which must hold
  between two calls, and does not report success; when it leaves with success, the session satisfies \<open>D\<close>.
\<close>

definition stage_ok :: "('k \<Rightarrow> bool) \<Rightarrow> ('k \<Rightarrow> bool) \<Rightarrow> ('k \<Rightarrow> bool) \<Rightarrow> (session \<Rightarrow> bool) \<Rightarrow> 'k stage \<Rightarrow> bool" where
  "stage_ok I P Q D f \<longleftrightarrow>
     (\<forall>k s fl k' t. P k \<longrightarrow> f k s = (fl, k', t) \<longrightarrow>
        (case fl of Go \<Rightarrow> Q k' | Return rc \<Rightarrow> rc \<noteq> 0 \<and> I k' | Clean rc \<Rightarrow> rc = 0 \<longrightarrow> D t))"

lemma stage_okI:
  assumes "\<And>k s k' t. P k \<Longrightarrow> f k s = (Go, k', t) \<Longrightarrow> Q k'"
    and "\<And>k s rc k' t. P k \<Longrightarrow> f k s = (Return rc, k', t) \<Longrightarrow> rc \<noteq> 0 \<and> I k'"
    and "\<And>k s k' t. P k \<Longrightarrow> f k s = (Clean 0, k', t) \<Longrightarrow> D t"
  shows "stage_ok I P Q D f"
  using assms unfolding stage_ok_def by (auto split: flow.split)

lemma run_stages_nil: "(\<And>k. P k \<Longrightarrow> Q k) \<Longrightarrow> stage_ok I P Q D (run_stages [])"
  by (rule stage_okI) auto

lemma run_stages_cons:
  assumes "stage_ok I P Q D f" "stage_ok I Q R D (run_stages fs)"
  shows "stage_ok I P R D (run_stages (f # fs))"
  using assms unfolding stage_ok_def by (auto split: prod.splits if_splits flow.splits; blast)

lemma run_exchange_ok:
  assumes "stage_ok I I (\<lambda>k. False) D (run_stages fs)" "\<And>k. I (cleanup k)" "I k"
    and "run_exchange cleanup fs k s = (rc, k', t)"
  shows "I k' \<and> (rc = 0 \<longrightarrow> D t)"
proof -
  obtain fl k1 t1 where r: "run_stages fs k s = (fl, k1, t1)" using prod_cases3 by blast
  show ?thesis
    using assms(1)[unfolded stage_ok_def, rule_format, OF assms(3) r] assms(2,4) r
    by (auto simp: run_exchange_def split: flow.splits)
qed

lemma clean_eq [simp]: "clean e k s = (Clean e, k, s\<lparr>err_code := e\<rparr>)"
  by (simp add: clean_def ssh2_err_def)

subsection \<open>The phases of an exchange\<close>

text \<open>Before the signature is checked the state is in \<open>A\<close>, afterwards in \<open>B\<close>.\<close>

definition phase :: "kex_lib \<Rightarrow> string \<Rightarrow> nat \<Rightarrow> nb_state set \<Rightarrow> nb_state set \<Rightarrow> kmdhgGPshakex_state \<Rightarrow> bool" where
  "phase x alg d A B xs \<longleftrightarrow> xs_state xs \<in> A \<or> xs_state xs \<in> B \<and> host_signed x alg d xs"

lemma host_signed_upd [simp]:
  "host_signed x alg d (xs\<lparr>xs_state := st'\<rparr>) = host_signed x alg d xs"
  "host_signed x alg d (xs\<lparr>xs_req_start := n\<rparr>) = host_signed x alg d xs"
  "host_signed x alg d (xs\<lparr>xs_burn_state := st'\<rparr>) = host_signed x alg d xs"
  by (simp_all add: host_signed_def)

text \<open>The keys in use come from a hash the host has signed.\<close>

definition keys_in_use :: "kex_lib \<Rightarrow> session \<Rightarrow> bool" where
  "keys_in_use x t \<longleftrightarrow> (\<exists>alg d xs s. host_signed x alg d xs \<and>
     in_turn [kex_session_id d xs, kex_new_keys x alg d xs] (set_st SSH2_STATE_NEWKEYS s) = (0, t))"

lemma newkeys_ok:
  assumes "a \<noteq> c" "\<And>xs. phase x alg d {} {a, c} xs \<Longrightarrow> I xs"
  shows "stage_ok I (phase x alg d {} {a, c}) (phase x alg d {} {c}) D (kex_send_newkeys tsend a c)"
  using assms by (intro stage_okI) (auto simp: kex_send_newkeys_def after_call_def phase_def split: if_splits prod.splits)

lemma finish_ok:
  assumes "\<And>xs. phase x alg d {} {c} xs \<Longrightarrow> I xs"
  shows "stage_ok I (phase x alg d {} {c}) (\<lambda>xs. False) (keys_in_use x) (kex_finish_stage x treq alg d c)"
proof (rule stage_okI)
  fix xs s rc xs' t
  assume xs: "phase x alg d {} {c} xs" and e: "kex_finish_stage x treq alg d c xs s = (Return rc, xs', t)"
  obtain rc1 n tmp s1 where r: "treq SSH_MSG_NEWKEYS (xs_req_start xs) s = (rc1, n, tmp, s1)" using prod_cases4 by blast
  have "xs' = xs\<lparr>xs_req_start := n\<rparr>" "rc \<noteq> 0"
    using e xs by (auto simp: kex_finish_stage_def kex_finish_def phase_def r ssh2_err_def Let_def split: if_splits prod.splits)
  moreover have "phase x alg d {} {c} (xs\<lparr>xs_req_start := n\<rparr>)" using xs by (simp add: phase_def)
  ultimately show "rc \<noteq> 0 \<and> I xs'" using assms by simp
next
  fix xs s xs' t
  assume xs: "phase x alg d {} {c} xs" and e: "kex_finish_stage x treq alg d c xs s = (Clean 0, xs', t)"
  obtain rc1 n tmp s1 where r: "treq SSH_MSG_NEWKEYS (xs_req_start xs) s = (rc1, n, tmp, s1)" using prod_cases4 by blast
  have "in_turn [kex_session_id d (xs\<lparr>xs_req_start := n\<rparr>), kex_new_keys x alg d (xs\<lparr>xs_req_start := n\<rparr>)]
      (set_st SSH2_STATE_NEWKEYS s1) = (0, t)"
    using e xs by (auto simp: kex_finish_stage_def kex_finish_def phase_def r ssh2_err_def Let_def simp del: in_turn.simps
        split: if_splits prod.splits)
  then show "keys_in_use x t"
    unfolding keys_in_use_def using xs
    by (intro exI [of _ alg] exI [of _ d] exI [of _ "xs\<lparr>xs_req_start := n\<rparr>"] exI [of _ s1]) (simp add: phase_def)
qed (auto simp: kex_finish_stage_def phase_def split: prod.splits if_splits)

subsubsection \<open>Diffie-Hellman\<close>

abbreviation "dh_phase x alg d \<equiv> phase x alg d {NB_idle, NB_created, NB_sent, NB_sent1} {NB_sent2, NB_sent3}"

lemma dh_create_ok:
  "stage_ok I (dh_phase x alg d) (phase x alg d {NB_created, NB_sent, NB_sent1} {NB_sent2, NB_sent3}) D (dh_create x g p n ty)"
  by (intro stage_okI) (auto simp: dh_create_def bn_mpint_def phase_def Let_def ssh2_err_def split: if_splits option.splits prod.splits)

lemma dh_send_ok:
  "stage_ok (dh_phase x alg d) (phase x alg d {NB_created, NB_sent, NB_sent1} {NB_sent2, NB_sent3})
     (phase x alg d {NB_sent, NB_sent1} {NB_sent2, NB_sent3}) D (dh_send tsend)"
  by (intro stage_okI) (auto simp: dh_send_def after_call_def phase_def split: if_splits prod.splits)

lemma dh_burn_ok:
  assumes "\<And>q s. fst (tburn q s) \<noteq> 0"
  shows "stage_ok (dh_phase x alg d) (phase x alg d {NB_sent, NB_sent1} {NB_sent2, NB_sent3})
     (phase x alg d {NB_sent1} {NB_sent2, NB_sent3}) D (dh_burn tburn)"
proof -
  have "tburn q s = (0, r) \<Longrightarrow> False" for q s r using assms [of q s] by simp
  then show ?thesis
    by (intro stage_okI) (auto simp: dh_burn_def phase_def Let_def split: if_splits prod.splits)
qed

lemma dh_verify_signs:
  assumes "dh_verify x p alg d ty mid data xs s = (Go, xs', s')"
  shows "host_signed x alg d xs' \<and> xs_state xs' = NB_sent2"
proof -
  obtain buf t where h: "kex_proc_hostkey x data s = (0, buf, t)"
    using assms by (auto simp: dh_verify_def split: if_splits prod.splits)
  obtain f h_sig k where f: "dh_shared_secret x p buf (xs_x xs) = Inr (f, h_sig, k)"
    using assms h by (auto simp: dh_verify_def split: sum.splits)
  obtain kv u where k: "bn_mpint x k t = (Inr kv, u)"
    using assms h f by (auto simp: dh_verify_def split: sum.splits prod.splits)
  let ?xs = "xs\<lparr>xs_k_value := Some kv\<rparr>"
  let ?m = "(if ty = SSH_MSG_KEX_DH_GEX_INIT then gex_sizes x else []) @ mid @ tl (or_empty (xs_e_packet xs)) @ enc_string f"
  obtain xs1 where v: "kex_check_signature x alg d (kex_hash_head u @ ?m @ or_empty (xs_k_value ?xs)) h_sig ?xs u = (0, xs1, s')"
    and xs': "xs' = xs1\<lparr>xs_state := NB_sent2\<rparr>"
    using assms h f k by (auto simp: dh_verify_def dh_message_def Let_def split: if_splits prod.splits)
  have "same_host t u" using k by (rule bn_mpint_host)
  then obtain hk a where "hostkey u = Some hk" "server_hostkey_abstract u = Some a"
    "x_hostkey_init x (hm_name hk) (or_empty (server_hostkey u)) = Some a"
    using proc_hostkey_host [OF h] by (auto simp: same_host_def)
  then have "host_signed x alg d xs1" by (rule check_signature_signs [OF v])
  then show ?thesis by (simp add: xs')
qed

lemma dh_verify_no_return: "dh_verify x p alg d ty mid data xs s \<noteq> (Return rc, r)"
  by (auto simp: dh_verify_def Let_def split: prod.split sum.split if_splits)

lemma dh_verify_no_success: "dh_verify x p alg d ty mid data xs s \<noteq> (Clean 0, r)"
proof -
  have "bn_mpint x k t = (Inl rc, u) \<Longrightarrow> rc \<noteq> 0" for k t rc u
    by (auto simp: bn_mpint_def ssh2_err_def Let_def split: prod.splits if_splits option.splits)
  moreover have "dh_shared_secret x p buf priv = Inl e \<Longrightarrow> e \<noteq> 0" for buf priv e
    by (auto simp: dh_shared_secret_def split: prod.splits option.splits)
  ultimately show ?thesis
    by (auto simp: dh_verify_def Let_def split: prod.splits sum.splits if_splits)
qed

lemma dh_reply_ok:
  "stage_ok (dh_phase x alg d) (phase x alg d {NB_sent1} {NB_sent2, NB_sent3}) (phase x alg d {} {NB_sent2, NB_sent3}) D
     (dh_reply x treq p alg d ti tr mid)"
proof (rule stage_okI)
  fix xs s xs' t
  assume xs: "phase x alg d {NB_sent1} {NB_sent2, NB_sent3} xs" and e: "dh_reply x treq p alg d ti tr mid xs s = (Go, xs', t)"
  show "phase x alg d {} {NB_sent2, NB_sent3} xs'"
    using xs e dh_verify_signs
    by (fastforce simp: dh_reply_def phase_def Let_def split: if_splits prod.splits)
next
  fix xs s rc xs' t
  assume xs: "phase x alg d {NB_sent1} {NB_sent2, NB_sent3} xs" and e: "dh_reply x treq p alg d ti tr mid xs s = (Return rc, xs', t)"
  show "rc \<noteq> 0 \<and> dh_phase x alg d xs'"
    using xs e by (auto simp: dh_reply_def phase_def Let_def dh_verify_no_return split: if_splits prod.splits)
qed (auto simp: dh_reply_def Let_def dh_verify_no_success split: if_splits prod.splits)

lemma dh_ok:
  assumes "\<And>q s. fst (tburn q s) \<noteq> 0" "dh_phase x alg d xs"
    and "kex_diffie_hellman_sha x tsend treq tburn g p n alg d ti tr mid xs s = (rc, xs', t)"
  shows "dh_phase x alg d xs' \<and> (rc = 0 \<longrightarrow> keys_in_use x t)"
proof (rule run_exchange_ok [where I = "dh_phase x alg d", OF _ _ assms(2) assms(3)[unfolded kex_diffie_hellman_sha_def]])
  show "dh_phase x alg d (kex_diffie_hellman_state_cleanup k)" for k
    by (simp add: phase_def kex_diffie_hellman_state_cleanup_def)
  show "stage_ok (dh_phase x alg d) (dh_phase x alg d) (\<lambda>k. False) (keys_in_use x)
      (run_stages [dh_create x g p n ti, dh_send tsend, dh_burn tburn, dh_reply x treq p alg d ti tr mid,
         kex_send_newkeys tsend NB_sent2 NB_sent3, kex_finish_stage x treq alg d NB_sent3])"
    by (rule run_stages_cons [OF dh_create_ok run_stages_cons [OF dh_send_ok run_stages_cons [OF dh_burn_ok [OF assms(1)]
        run_stages_cons [OF dh_reply_ok run_stages_cons [OF newkeys_ok run_stages_cons [OF finish_ok run_stages_nil]]]]]])
      (auto simp: phase_def)
qed

subsubsection \<open>Elliptic curves\<close>

abbreviation "ec_phase x alg d \<equiv> phase x alg d {NB_idle, NB_created} {NB_sent, NB_sent2}"

lemma ec_start_ok:
  "stage_ok I (ec_phase x alg d) (phase x alg d {NB_created} {NB_sent, NB_sent2}) D ec_start"
  by (intro stage_okI) (auto simp: ec_start_def phase_def split: if_splits)

lemma ec_verify_signs:
  assumes "ec_verify x ok secret alg d data pub pq xs s = (Go, xs', s')" "xs_state xs = NB_created" "keeps_host secret"
  shows "host_signed x alg d xs' \<and> xs_state xs' = NB_sent"
proof -
  obtain dat where d: "data = Some dat" using assms(1,2) by (auto simp: ec_verify_def split: option.splits)
  obtain buf t where h: "kex_proc_hostkey x dat s = (0, buf, t)"
    using assms(1,2) d by (auto simp: ec_verify_def split: if_splits prod.splits)
  obtain spk h_sig where f: "ec_reply_fields ok buf = Inr (spk, h_sig)"
    using assms(1,2) h d by (auto simp: ec_verify_def split: sum.splits)
  obtain kv u where k: "secret spk t = (Inr kv, u)"
    using assms(1,2) h f d by (auto simp: ec_verify_def split: sum.splits prod.splits)
  let ?xs = "xs\<lparr>xs_k_value := Some kv\<rparr>"
  let ?m = "enc_string (pq @ pub) @ enc_string spk"
  obtain xs1 where v: "kex_check_signature x alg d (kex_hash_head u @ ?m @ or_empty (xs_k_value ?xs)) h_sig ?xs u = (0, xs1, s')"
    and xs': "xs' = xs1\<lparr>xs_state := NB_sent\<rparr>"
    using assms(1,2) h f k d
    by (auto simp: ec_verify_def kex_method_ec_sha_hash_create_verify_def ec_message_def split: if_splits prod.splits)
  have "same_host t u" using k assms(3) by (auto simp: keeps_host_def)
  then obtain hk a where "hostkey u = Some hk" "server_hostkey_abstract u = Some a"
    "x_hostkey_init x (hm_name hk) (or_empty (server_hostkey u)) = Some a"
    using proc_hostkey_host [OF h] by (auto simp: same_host_def)
  then have "host_signed x alg d xs1" by (rule check_signature_signs [OF v])
  then show ?thesis by (simp add: xs')
qed

definition fails_with_error :: "(bytes \<Rightarrow> session \<Rightarrow> (rc + bytes) \<times> session) \<Rightarrow> bool" where
  "fails_with_error secret \<longleftrightarrow> (\<forall>pk s rc t. secret pk s = (Inl rc, t) \<longrightarrow> rc \<noteq> 0)"

lemma secrets_fail:
  "fails_with_error (ecdh_secret x priv)" "fails_with_error (curve25519_secret x priv)"
  "fails_with_error (mlkem768x25519_secret x priv pq)" "fails_with_error (mlkem_nistp_secret x alg d m c priv pq)"
  by (auto simp: fails_with_error_def ecdh_secret_def curve25519_secret_def mlkem768x25519_secret_def bn_mpint_def Let_def
      mlkem_nistp_secret_def hybrid_value_def err_left_def ssh2_err_def split: prod.splits if_splits option.splits)

lemma ec_verify_no_success:
  assumes "fails_with_error secret"
  shows "ec_verify x ok secret alg d data pub pq xs s \<noteq> (Clean 0, r)"
proof -
  have "ec_reply_fields ok buf = Inl e \<Longrightarrow> e \<noteq> 0" for buf e
    by (auto simp: ec_reply_fields_def split: prod.splits option.splits if_splits)
  moreover have "secret pk u \<noteq> (Inl 0, t)" for pk u t
    using assms unfolding fails_with_error_def by blast
  ultimately show ?thesis
    by (auto simp: ec_verify_def split: prod.splits sum.splits if_splits option.splits)
qed

lemma ec_verify_ok:
  assumes "keeps_host secret" "fails_with_error secret"
  shows "stage_ok I (phase x alg d {NB_created} {NB_sent, NB_sent2}) (phase x alg d {} {NB_sent, NB_sent2}) D
     (ec_verify x ok secret alg d data pub pq)"
proof (rule stage_okI)
  fix xs s xs' t
  assume xs: "phase x alg d {NB_created} {NB_sent, NB_sent2} xs" and e: "ec_verify x ok secret alg d data pub pq xs s = (Go, xs', t)"
  show "phase x alg d {} {NB_sent, NB_sent2} xs'"
  proof (cases "xs_state xs = NB_created")
    case True
    then show ?thesis using ec_verify_signs [OF e _ assms(1)] by (simp add: phase_def)
  next
    case False
    then show ?thesis using xs e by (auto simp: phase_def ec_verify_def)
  qed
next
  fix xs s rc xs' t
  assume "ec_verify x ok secret alg d data pub pq xs s = (Return rc, xs', t)"
  then show "rc \<noteq> 0 \<and> I xs'"
    by (auto simp: ec_verify_def split: prod.splits sum.splits if_splits option.splits)
qed (use ec_verify_no_success [OF assms(2)] in blast)

lemma ec_ok:
  assumes "keeps_host secret" "fails_with_error secret" "ec_phase x alg d xs"
    and "ec_exchange x tsend treq ok secret alg d data pub pq xs s = (rc, xs', t)"
  shows "ec_phase x alg d xs' \<and> (rc = 0 \<longrightarrow> keys_in_use x t)"
proof (rule run_exchange_ok [where I = "ec_phase x alg d", OF _ _ assms(3) assms(4)[unfolded ec_exchange_def]])
  show "ec_phase x alg d (kex_ecdh_exchange_state_cleanup k)" for k
    by (simp add: phase_def kex_ecdh_exchange_state_cleanup_def)
  show "stage_ok (ec_phase x alg d) (ec_phase x alg d) (\<lambda>k. False) (keys_in_use x)
      (run_stages [ec_start, ec_verify x ok secret alg d data pub pq,
        kex_send_newkeys tsend NB_sent NB_sent2, kex_finish_stage x treq alg d NB_sent2])"
    by (rule run_stages_cons [OF ec_start_ok run_stages_cons [OF ec_verify_ok [OF assms(1,2)]
        run_stages_cons [OF newkeys_ok run_stages_cons [OF finish_ok run_stages_nil]]]])
      (auto simp: phase_def)
qed

subsection \<open>The functions of the methods\<close>

definition low_ok :: "nb_state set \<Rightarrow> (kmdhgGPshakex_state \<Rightarrow> bool) \<Rightarrow> key_exchange_state_low \<Rightarrow> bool" where
  "low_ok L I lo \<longleftrightarrow> lo_state lo \<in> L \<and> I (lo_exchange lo)"

lemma low_ok_upd [simp]:
  "low_ok L I (lo\<lparr>lo_req_start := n\<rparr>) = low_ok L I lo" "low_ok L I (lo\<lparr>lo_data := b\<rparr>) = low_ok L I lo"
  "low_ok L I (lo\<lparr>lo_p := p\<rparr>) = low_ok L I lo" "low_ok L I (lo\<lparr>lo_g := g\<rparr>) = low_ok L I lo"
  by (simp_all add: low_ok_def)

lemma exchange_stage_ok:
  assumes "a \<in> L" "\<And>lo xs s rc xs' t. I xs \<Longrightarrow> exch lo xs s = (rc, xs', t) \<Longrightarrow> I xs' \<and> (rc = 0 \<longrightarrow> D t)"
  shows "stage_ok (low_ok L I) (low_ok {a} I) (\<lambda>lo. False) D (exchange_stage a exch)"
  using assms by (intro stage_okI) (auto simp: exchange_stage_def low_ok_def split: if_splits prod.splits)

lemma send_request_ok:
  "a \<in> L \<Longrightarrow> b \<in> M \<Longrightarrow> stage_ok (low_ok L I) (low_ok (insert a M) I) (low_ok M I) D (send_request tsend a b)"
  by (intro stage_okI) (auto simp: send_request_def after_call_def low_ok_def split: if_splits prod.splits)

lemma await_reply_ok:
  "a \<in> L \<Longrightarrow> b \<in> M \<Longrightarrow> stage_ok (low_ok L I) (low_ok (insert a M) I) (low_ok M I) D (await_reply treq ty a b)"
  by (intro stage_okI) (auto simp: await_reply_def after_call_def low_ok_def Let_def split: if_splits prod.splits)

lemma cleanup_low_ok:
  "NB_idle \<in> L \<Longrightarrow> (\<And>xs. xs_state xs = NB_idle \<Longrightarrow> I xs) \<Longrightarrow>
   low_ok L I (kex_diffie_hellman_cleanup lo) \<and> low_ok L I (kex_method_ecdh_cleanup lo) \<and>
   low_ok L I (kex_method_curve25519_cleanup lo) \<and> low_ok L I (kex_method_mlkem_nistp_cleanup lo) \<and>
   low_ok L I (kex_method_mlkem768x25519_cleanup lo)"
  by (auto simp: low_ok_def kex_diffie_hellman_cleanup_def kex_method_ecdh_cleanup_def kex_method_curve25519_cleanup_def
      kex_method_mlkem_nistp_cleanup_def kex_method_mlkem768x25519_cleanup_def ec_cleanup_def Let_def
      kex_diffie_hellman_state_cleanup_def kex_ecdh_exchange_state_cleanup_def)

lemma idle_phases: "xs_state xs = NB_idle \<Longrightarrow> dh_phase x alg d xs" "xs_state xs = NB_idle \<Longrightarrow> ec_phase x alg d xs"
  by (simp_all add: phase_def)

abbreviation "group_low x alg d \<equiv> low_ok {NB_idle, NB_created} (dh_phase x alg d)"
abbreviation "gex_low x alg d \<equiv> low_ok {NB_idle, NB_created, NB_sent, NB_sent1} (dh_phase x alg d)"
abbreviation "ec_low x alg d \<equiv> low_ok {NB_idle, NB_created, NB_sent, NB_sent1, NB_sent2} (ec_phase x alg d)"

lemma dh_group_init_ok: "stage_ok I (low_ok {NB_idle, NB_created} P) (low_ok {NB_created} P) D (dh_group_init x pv)"
  by (intro stage_okI) (auto simp: dh_group_init_def low_ok_def split: if_splits option.splits)

lemma dh_group_ok:
  assumes "\<And>q s. fst (tburn q s) \<noteq> 0" "group_low x alg d lo"
    and "dh_group_method x tsend treq tburn pv n alg d lo s = (rc, lo', t)"
  shows "group_low x alg d lo' \<and> (rc = 0 \<longrightarrow> keys_in_use x t)"
proof (rule run_exchange_ok [where I = "group_low x alg d", OF _ _ assms(2) assms(3)[unfolded dh_group_method_def]])
  show "group_low x alg d (kex_diffie_hellman_cleanup k)" for k
    using cleanup_low_ok idle_phases(1) by blast
  show "stage_ok (group_low x alg d) (group_low x alg d) (\<lambda>k. False) (keys_in_use x)
      (run_stages [dh_group_init x pv, exchange_stage NB_created (\<lambda>lo. kex_diffie_hellman_sha x tsend treq tburn
        (lo_g lo) (lo_p lo) n alg d SSH_MSG_KEXDH_INIT SSH_MSG_KEXDH_REPLY [])])"
    by (rule run_stages_cons [OF dh_group_init_ok run_stages_cons [OF exchange_stage_ok run_stages_nil]])
      (auto dest: dh_ok [OF assms(1)])
qed

lemma gex_init_ok:
  "stage_ok I (low_ok {NB_idle, NB_created, NB_sent, NB_sent1} P) (low_ok {NB_created, NB_sent, NB_sent1} P) D (gex_init x)"
  by (intro stage_okI) (auto simp: gex_init_def low_ok_def split: if_splits)

lemma gex_exchange_ok:
  assumes "\<And>q s. fst (tburn q s) \<noteq> 0"
  shows "stage_ok (gex_low x alg d) (low_ok {NB_sent1} (dh_phase x alg d)) (\<lambda>lo. False) (keys_in_use x)
     (gex_exchange x tsend treq tburn alg d)"
proof -
  have ex: "stage_ok (gex_low x alg d) (low_ok {NB_sent1} (dh_phase x alg d)) (\<lambda>lo. False) (keys_in_use x)
      (exchange_stage NB_sent1 (\<lambda>lo. kex_diffie_hellman_sha x tsend treq tburn (lo_g lo) (lo_p lo) n
        alg d SSH_MSG_KEX_DH_GEX_INIT SSH_MSG_KEX_DH_GEX_REPLY (tl (or_empty (lo_data lo)))))" for n
    by (rule exchange_stage_ok) (auto dest: dh_ok [OF assms(1)])
  show ?thesis
    unfolding stage_ok_def
  proof (intro allI impI)
    fix lo s fl lo' t
    assume lo: "low_ok {NB_sent1} (dh_phase x alg d) lo" and e: "gex_exchange x tsend treq tburn alg d lo s = (fl, lo', t)"
    have a: "lo_state lo = NB_sent1" using lo by (simp add: low_ok_def)
    show "case fl of Go \<Rightarrow> False | Return rc \<Rightarrow> rc \<noteq> 0 \<and> gex_low x alg d lo' | Clean rc \<Rightarrow> rc = 0 \<longrightarrow> keys_in_use x t"
    proof (cases "gex_group x (or_empty (lo_data lo))")
      case None
      then show ?thesis using e a by (auto simp: gex_exchange_def)
    next
      case (Some g)
      obtain p g' n where g: "g = (p, g', n)" using prod_cases3 by blast
      have "low_ok {NB_sent1} (dh_phase x alg d) (lo\<lparr>lo_p := p, lo_g := g'\<rparr>)" using lo by simp
      then show ?thesis
        using ex [of n, unfolded stage_ok_def, rule_format, of "lo\<lparr>lo_p := p, lo_g := g'\<rparr>" s fl lo' t] e a Some g
        by (simp add: gex_exchange_def)
    qed
  qed
qed

lemma gex_ok:
  assumes "\<And>q s. fst (tburn q s) \<noteq> 0" "gex_low x alg d lo"
    and "dh_gex_method x tsend treq tburn alg d lo s = (rc, lo', t)"
  shows "gex_low x alg d lo' \<and> (rc = 0 \<longrightarrow> keys_in_use x t)"
proof (rule run_exchange_ok [where I = "gex_low x alg d", OF _ _ assms(2) assms(3)[unfolded dh_gex_method_def]])
  show "gex_low x alg d (kex_diffie_hellman_cleanup k)" for k
    using cleanup_low_ok idle_phases(1) by blast
  show "stage_ok (gex_low x alg d) (gex_low x alg d) (\<lambda>k. False) (keys_in_use x)
      (run_stages [gex_init x, send_request tsend NB_created NB_sent, await_reply treq SSH_MSG_KEX_DH_GEX_GROUP NB_sent NB_sent1,
        gex_exchange x tsend treq tburn alg d])"
    by (rule run_stages_cons [OF gex_init_ok run_stages_cons [OF send_request_ok [where M = "{NB_sent, NB_sent1}"]
        run_stages_cons [OF await_reply_ok [where M = "{NB_sent1}"]
          run_stages_cons [OF gex_exchange_ok [OF assms(1)] run_stages_nil]]]]) simp_all
qed

text \<open>An error code of the library is not 0.\<close>

definition errors_nonzero :: "kex_lib \<Rightarrow> bool" where
  "errors_nonzero x \<longleftrightarrow> (\<forall>seed n. x_ecdsa_create_key x seed n \<noteq> Inl 0 \<and> x_curve25519_new x seed \<noteq> Inl 0 \<and>
     x_mlkem_new x seed n \<noteq> Inl 0)"

definition creates :: "key_exchange_state_low stage \<Rightarrow> bool" where
  "creates create \<longleftrightarrow> (\<forall>lo s fl lo' t. create lo s = (fl, lo', t) \<longrightarrow> lo_exchange lo' = lo_exchange lo \<and>
     (case fl of Go \<Rightarrow> lo_state lo' = (if lo_state lo = NB_created then NB_sent else lo_state lo)
      | Return rc \<Rightarrow> False | Clean rc \<Rightarrow> rc \<noteq> 0))"

lemma mlkem_pair_creates:
  assumes "errors_nonzero x" "mlkem_pair x n len pub lo s = (fl, lo', t)"
  shows "lo_exchange lo' = lo_exchange lo \<and>
    (case fl of Go \<Rightarrow> lo_state lo' = NB_sent | Return rc \<Rightarrow> False | Clean rc \<Rightarrow> rc \<noteq> 0)"
proof -
  have "x_mlkem_new x seed n = Inl rc \<Longrightarrow> rc \<noteq> 0" for seed rc
    using assms(1) by (auto simp: errors_nonzero_def)
  then show ?thesis
    using assms(2) by (auto simp: mlkem_pair_def new_key_pair_def ssh2_err_def split: sum.splits prod.splits)
qed

lemma create_creates:
  assumes "errors_nonzero x"
  shows "creates (ecdh_create x name)" "creates (curve25519_create x name)" "creates (mlkem768x25519_create x)"
    "creates (mlkem_nistp_create x name)"
proof -
  have nz: "x_ecdsa_create_key x seed n = Inl rc \<Longrightarrow> rc \<noteq> 0" "x_curve25519_new x seed = Inl rc \<Longrightarrow> rc \<noteq> 0" for seed n rc
    using assms by (auto simp: errors_nonzero_def)
  show "creates (ecdh_create x name)" "creates (curve25519_create x name)"
    by (auto simp: creates_def ecdh_create_def curve25519_create_def new_key_pair_def ssh2_err_def nz
        split: if_splits option.splits sum.splits prod.splits)
  show "creates (mlkem768x25519_create x)" "creates (mlkem_nistp_create x name)"
    by (auto simp: creates_def mlkem768x25519_create_def mlkem_nistp_create_def new_key_pair_def ssh2_err_def nz
        dest!: mlkem_pair_creates [OF assms] split: if_splits option.splits sum.splits prod.splits)
qed

lemma create_ok:
  assumes "creates create"
  shows "stage_ok I (low_ok {NB_created, NB_sent, NB_sent1, NB_sent2} P) (low_ok {NB_sent, NB_sent1, NB_sent2} P) D create"
proof (rule stage_okI)
  fix lo s lo' t
  assume "low_ok {NB_created, NB_sent, NB_sent1, NB_sent2} P lo" "create lo s = (Go, lo', t)"
  then show "low_ok {NB_sent, NB_sent1, NB_sent2} P lo'"
    using assms[unfolded creates_def, rule_format, of lo s Go lo' t] by (auto simp: low_ok_def split: if_splits)
next
  fix lo s rc lo' t
  assume "create lo s = (Return rc, lo', t)"
  then show "rc \<noteq> 0 \<and> I lo'" using assms[unfolded creates_def, rule_format, of lo s "Return rc" lo' t] by simp
next
  fix lo s lo' t
  assume "create lo s = (Clean 0, lo', t)"
  then show "D t" using assms[unfolded creates_def, rule_format, of lo s "Clean 0" lo' t] by simp
qed

lemma ec_init_ok:
  "stage_ok I (low_ok {NB_idle, NB_created, NB_sent, NB_sent1, NB_sent2} P)
     (low_ok {NB_created, NB_sent, NB_sent1, NB_sent2} P) D ec_init"
  by (intro stage_okI) (auto simp: ec_init_def low_ok_def split: if_splits)

lemma ec_method_ok:
  assumes "creates create" "\<And>lo. ec_low x alg d (cleanup lo)"
    and "\<And>lo xs s rc xs' t. ec_phase x alg d xs \<Longrightarrow> exch lo xs s = (rc, xs', t) \<Longrightarrow>
      ec_phase x alg d xs' \<and> (rc = 0 \<longrightarrow> keys_in_use x t)"
    and "ec_low x alg d lo" "ec_method tsend treq create exch cleanup lo s = (rc, lo', t)"
  shows "ec_low x alg d lo' \<and> (rc = 0 \<longrightarrow> keys_in_use x t)"
proof (rule run_exchange_ok [where I = "ec_low x alg d", OF _ assms(2,4) assms(5)[unfolded ec_method_def]])
  show "stage_ok (ec_low x alg d) (ec_low x alg d) (\<lambda>k. False) (keys_in_use x)
      (run_stages [ec_init, create, send_request tsend NB_sent NB_sent1,
        await_reply treq SSH2_MSG_KEX_ECDH_REPLY NB_sent1 NB_sent2, exchange_stage NB_sent2 exch])"
    by (rule run_stages_cons [OF ec_init_ok run_stages_cons [OF create_ok [OF assms(1)]
        run_stages_cons [OF send_request_ok [where M = "{NB_sent1, NB_sent2}"]
          run_stages_cons [OF await_reply_ok [where M = "{NB_sent2}"]
            run_stages_cons [OF exchange_stage_ok [OF _ assms(3)] run_stages_nil]]]]]) simp_all
qed

subsection \<open>Every method of the table\<close>

definition kex_is_ec :: "bytes \<Rightarrow> bool" where
  "kex_is_ec name \<longleftrightarrow> kex_is_mlkem_x25519 name \<or> kex_is_mlkem_nistp name \<or> kex_is_curve25519 name \<or> kex_is_ecdh name"

definition kex_is_gex :: "bytes \<Rightarrow> bool" where
  "kex_is_gex name \<longleftrightarrow> name = str ''diffie-hellman-group-exchange-sha256'' \<or>
     name = str ''diffie-hellman-group-exchange-sha1''"

definition method_hash :: "bytes \<Rightarrow> string \<times> nat" where
  "method_hash name =
     (if kex_is_mlkem_nistp name \<or> kex_is_ecdh name
      then curve_hash (case kex_session_curve_type name of Some c \<Rightarrow> c | None \<Rightarrow> SSH2_EC_CURVE_NISTP256)
      else if name = str ''diffie-hellman-group16-sha512'' \<or> name = str ''diffie-hellman-group18-sha512''
      then (''SSH2_SHA512_ALG'', 64)
      else if name = str ''diffie-hellman-group14-sha1'' \<or> name = str ''diffie-hellman-group1-sha1'' \<or>
        name = str ''diffie-hellman-group-exchange-sha1'' then (''SSH2_SHA1_ALG'', 20)
      else (''SSH2_SHA256_ALG'', 32))"

text \<open>What holds of the exchange's state between two calls of the method's function.\<close>

definition exchange_inv :: "kex_lib \<Rightarrow> bytes \<Rightarrow> key_exchange_state_low \<Rightarrow> bool" where
  "exchange_inv x name lo \<longleftrightarrow>
     (case method_hash name of (alg, d) \<Rightarrow>
        if kex_is_ec name then ec_low x alg d lo
        else if kex_is_gex name then gex_low x alg d lo else group_low x alg d lo)"

lemma exchange_inv_idle: "exchange_inv x name key_state_low_0"
  by (simp add: exchange_inv_def low_ok_def phase_def key_state_low_0_def exchange_state_0_def split: prod.split)

lemma nistp_exchange_ok:
  assumes "kex_session_curve_type name = Some c"
    and "ec_phase x (fst (curve_hash c)) (snd (curve_hash c)) xs"
  shows "ecdh_exchange x tsend treq name lo xs s = (rc, xs', t) \<Longrightarrow>
      ec_phase x (fst (curve_hash c)) (snd (curve_hash c)) xs' \<and> (rc = 0 \<longrightarrow> keys_in_use x t)"
    and "mlkem_nistp_exchange x tsend treq name lo xs s = (rc, xs', t) \<Longrightarrow>
      ec_phase x (fst (curve_hash c)) (snd (curve_hash c)) xs' \<and> (rc = 0 \<longrightarrow> keys_in_use x t)"
proof -
  assume e: "ecdh_exchange x tsend treq name lo xs s = (rc, xs', t)"
  show "ec_phase x (fst (curve_hash c)) (snd (curve_hash c)) xs' \<and> (rc = 0 \<longrightarrow> keys_in_use x t)"
    by (rule ec_ok [OF secrets_keep_host(1) secrets_fail(1) assms(2)])
      (use e assms(1) in \<open>simp add: ecdh_exchange_def kex_ecdh_sha2_nistp_def split: prod.splits\<close>)
next
  assume e: "mlkem_nistp_exchange x tsend treq name lo xs s = (rc, xs', t)"
  show "ec_phase x (fst (curve_hash c)) (snd (curve_hash c)) xs' \<and> (rc = 0 \<longrightarrow> keys_in_use x t)"
  proof (cases "mlkem_nistp_params c")
    case None
    then have "rc = - 1" "xs_state xs' = NB_idle"
      using e assms(1) by (simp_all add: mlkem_nistp_exchange_def kex_mlkem_nistp_def kex_ecdh_exchange_state_cleanup_def ssh2_err_def)
        (auto simp: kex_ecdh_exchange_state_cleanup_def)
    then show ?thesis by (simp add: phase_def)
  next
    case (Some p)
    obtain m pl cl where p: "p = (m, pl, cl)" using prod_cases3 by blast
    have "ec_exchange x tsend treq (\<lambda>n. n > cl)
        (mlkem_nistp_secret x (fst (curve_hash c)) (snd (curve_hash c)) m cl (or_empty (lo_private_key lo))
          (or_empty (lo_mlkem_private_key lo))) (fst (curve_hash c)) (snd (curve_hash c)) (lo_data lo)
        (or_empty (lo_public_key_oct lo)) (take pl (or_empty (lo_mlkem_public_key lo))) xs s = (rc, xs', t)"
      using e assms(1) Some p by (simp add: mlkem_nistp_exchange_def kex_mlkem_nistp_def split: prod.splits)
    then show ?thesis by (rule ec_ok [OF secrets_keep_host(4) secrets_fail(4) assms(2)])
  qed
qed

lemma curve25519_exchange_ok:
  assumes "ec_phase x ''SSH2_SHA256_ALG'' 32 xs"
  shows "curve25519_exchange x tsend treq lo xs s = (rc, xs', t) \<Longrightarrow>
      ec_phase x ''SSH2_SHA256_ALG'' 32 xs' \<and> (rc = 0 \<longrightarrow> keys_in_use x t)"
    and "mlkem768x25519_exchange x tsend treq lo xs s = (rc, xs', t) \<Longrightarrow>
      ec_phase x ''SSH2_SHA256_ALG'' 32 xs' \<and> (rc = 0 \<longrightarrow> keys_in_use x t)"
  unfolding curve25519_exchange_def kex_curve25519_sha256_def mlkem768x25519_exchange_def kex_mlkem768x25519_sha256_def
  by (rule ec_ok [OF secrets_keep_host(2) secrets_fail(2) assms], assumption)
     (rule ec_ok [OF secrets_keep_host(3) secrets_fail(3) assms], assumption)

lemma nistp_curve:
  "kex_is_mlkem_nistp name \<or> kex_is_ecdh name \<Longrightarrow> \<exists>c. kex_session_curve_type name = Some c"
  by (auto simp: kex_is_mlkem_nistp_def kex_is_ecdh_def kex_session_curve_type_def)

lemma family_eqs:
  "kex_is_mlkem_x25519 n \<Longrightarrow> \<not> kex_is_mlkem_nistp n \<and> \<not> kex_is_ecdh n"
  "kex_is_curve25519 n \<Longrightarrow> \<not> kex_is_mlkem_nistp n \<and> \<not> kex_is_ecdh n"
  by (auto simp: kex_is_mlkem_x25519_def kex_is_mlkem_nistp_def kex_is_ecdh_def kex_is_curve25519_def str_def)

lemma x25519_hashes:
  "method_hash (str ''mlkem768x25519-sha256'') = (''SSH2_SHA256_ALG'', 32)"
  "method_hash (str ''curve25519-sha256'') = (''SSH2_SHA256_ALG'', 32)"
  "method_hash (str ''curve25519-sha256@libssh.org'') = (''SSH2_SHA256_ALG'', 32)"
  by code_simp+

lemma x25519_hash:
  "kex_is_mlkem_x25519 n \<or> kex_is_curve25519 n \<Longrightarrow> method_hash n = (''SSH2_SHA256_ALG'', 32)"
  unfolding kex_is_mlkem_x25519_def kex_is_curve25519_def using x25519_hashes by blast

lemma ec_cleanups:
  "ec_low x alg d (kex_method_ecdh_cleanup lo)" "ec_low x alg d (kex_method_curve25519_cleanup lo)"
  "ec_low x alg d (kex_method_mlkem_nistp_cleanup lo)" "ec_low x alg d (kex_method_mlkem768x25519_cleanup lo)"
  using cleanup_low_ok [of "{NB_idle, NB_created, NB_sent, NB_sent1, NB_sent2}" "ec_phase x alg d" lo] idle_phases(2)
  by blast+

lemma ec_keys_ok:
  assumes "errors_nonzero x" "kex_is_ec name" "exchange_inv x name lo"
    and "kex_exchange_keys x tsend treq tburn name lo s = (rc, lo', t)"
  shows "exchange_inv x name lo' \<and> (rc = 0 \<longrightarrow> keys_in_use x t)"
proof (cases "kex_is_mlkem_x25519 name \<or> kex_is_curve25519 name")
  case True
  note h = x25519_hash [OF True]
  have low: "ec_low x ''SSH2_SHA256_ALG'' 32 lo" using assms(2,3) h by (simp add: exchange_inv_def)
  note m = ec_method_ok [where x = x and alg = "''SSH2_SHA256_ALG''" and d = 32, OF create_creates(3) [OF assms(1)] ec_cleanups(4)
      curve25519_exchange_ok(2) low]
    ec_method_ok [where x = x and alg = "''SSH2_SHA256_ALG''" and d = 32, OF create_creates(2) [OF assms(1)] ec_cleanups(2)
      curve25519_exchange_ok(1) low]
  have "ec_low x ''SSH2_SHA256_ALG'' 32 lo' \<and> (rc = 0 \<longrightarrow> keys_in_use x t)"
    using assms(4) True family_eqs [of name] m
    by (auto simp: kex_exchange_keys_def kex_method_mlkem768x25519_key_exchange_def kex_method_curve25519_key_exchange_def
        split: if_splits)
  then show ?thesis using assms(2) h by (simp add: exchange_inv_def)
next
  case False
  then have n: "kex_is_mlkem_nistp name \<or> kex_is_ecdh name" using assms(2) by (simp add: kex_is_ec_def)
  then obtain c where c: "kex_session_curve_type name = Some c" using nistp_curve by blast
  obtain alg d where ad: "curve_hash c = (alg, d)" by fastforce
  have h: "method_hash name = (alg, d)" using n c ad by (simp add: method_hash_def)
  have low: "ec_low x alg d lo" using assms(2,3) h by (simp add: exchange_inv_def)
  note e = nistp_exchange_ok [OF c, unfolded ad fst_conv snd_conv]
  note m = ec_method_ok [where x = x and alg = alg and d = d, OF create_creates(1) [OF assms(1)] ec_cleanups(1) e(1) low]
    ec_method_ok [where x = x and alg = alg and d = d, OF create_creates(4) [OF assms(1)] ec_cleanups(3) e(2) low]
  have "ec_low x alg d lo' \<and> (rc = 0 \<longrightarrow> keys_in_use x t)"
    using assms(4) False n m
    by (auto simp: kex_exchange_keys_def kex_method_ecdh_key_exchange_def kex_method_mlkem_nistp_key_exchange_def
        split: if_splits)
  then show ?thesis using assms(2) h by (simp add: exchange_inv_def)
qed

lemma dh_hashes:
  "method_hash (str ''diffie-hellman-group-exchange-sha256'') = (''SSH2_SHA256_ALG'', 32)"
  "method_hash (str ''diffie-hellman-group-exchange-sha1'') = (''SSH2_SHA1_ALG'', 20)"
  "method_hash (str ''diffie-hellman-group16-sha512'') = (''SSH2_SHA512_ALG'', 64)"
  "method_hash (str ''diffie-hellman-group18-sha512'') = (''SSH2_SHA512_ALG'', 64)"
  "method_hash (str ''diffie-hellman-group14-sha256'') = (''SSH2_SHA256_ALG'', 32)"
  "method_hash (str ''diffie-hellman-group14-sha1'') = (''SSH2_SHA1_ALG'', 20)"
  "method_hash (str ''diffie-hellman-group1-sha1'') = (''SSH2_SHA1_ALG'', 20)"
  by code_simp+

lemma dh_kinds:
  "kex_is_gex (str ''diffie-hellman-group-exchange-sha256'') \<and> kex_is_gex (str ''diffie-hellman-group-exchange-sha1'')"
  "\<not> kex_is_gex (str ''diffie-hellman-group16-sha512'') \<and> \<not> kex_is_gex (str ''diffie-hellman-group18-sha512'')"
  "\<not> kex_is_gex (str ''diffie-hellman-group14-sha256'') \<and> \<not> kex_is_gex (str ''diffie-hellman-group14-sha1'')"
  "\<not> kex_is_gex (str ''diffie-hellman-group1-sha1'')"
  by code_simp+

lemma dh_keys_ok:
  assumes "\<And>q s. fst (tburn q s) \<noteq> 0" "\<not> kex_is_ec name" "exchange_inv x name lo"
    and e: "kex_exchange_keys x tsend treq tburn name lo s = (rc, lo', t)"
  shows "exchange_inv x name lo' \<and> (rc = 0 \<longrightarrow> keys_in_use x t)"
proof -
  obtain alg d where h: "method_hash name = (alg, d)" by fastforce
  have ec: "\<not> kex_is_mlkem_x25519 name" "\<not> kex_is_mlkem_nistp name" "\<not> kex_is_curve25519 name" "\<not> kex_is_ecdh name"
    using assms(2) by (simp_all add: kex_is_ec_def)
  consider (gex) "kex_is_gex name" "kex_exchange_keys x tsend treq tburn name = dh_gex_method x tsend treq tburn alg d"
    | (group) pv n where "\<not> kex_is_gex name" "kex_exchange_keys x tsend treq tburn name = dh_group_method x tsend treq tburn pv n alg d"
    | (none) "rc \<noteq> 0" "lo' = lo"
  proof -
    note defs = kex_exchange_keys_def kex_method_diffie_hellman_group1_sha1_key_exchange_def
      kex_method_diffie_hellman_group14_key_exchange_def kex_method_diffie_hellman_group16_sha512_key_exchange_def
      kex_method_diffie_hellman_group18_sha512_key_exchange_def
    note dh = dh_hashes dh_kinds
    show thesis
    proof (cases "name = str ''diffie-hellman-group-exchange-sha256''")
      case True then show thesis using ec h dh that(1) by (simp add: defs)
    next
      case a: False show thesis
    proof (cases "name = str ''diffie-hellman-group16-sha512''")
      case True then show thesis using a ec h dh that(2) by (simp add: defs)
    next
      case b: False show thesis
    proof (cases "name = str ''diffie-hellman-group18-sha512''")
      case True then show thesis using a b ec h dh that(2) by (simp add: defs)
    next
      case c: False show thesis
    proof (cases "name = str ''diffie-hellman-group14-sha256''")
      case True then show thesis using a b c ec h dh that(2) by (simp add: defs)
    next
      case d: False show thesis
    proof (cases "name = str ''diffie-hellman-group14-sha1''")
      case True then show thesis using a b c d ec h dh that(2) by (simp add: defs)
    next
      case g: False show thesis
    proof (cases "name = str ''diffie-hellman-group1-sha1''")
      case True then show thesis using a b c d g ec h dh that(2) by (simp add: defs)
    next
      case i: False show thesis
    proof (cases "name = str ''diffie-hellman-group-exchange-sha1''")
      case True then show thesis using a b c d g i ec h dh that(1) by (simp add: defs)
    next
      case False then show thesis using a b c d g i ec e that(3) by (auto simp: defs)
    qed qed qed qed qed qed qed
  qed
  then show ?thesis
  proof cases
    case gex
    have "gex_low x alg d lo" using assms(2,3) h gex(1) by (simp add: exchange_inv_def)
    from gex_ok [OF assms(1) this e [unfolded gex(2)]] show ?thesis
      using assms(2) h gex(1) by (simp add: exchange_inv_def)
  next
    case group
    have "group_low x alg d lo" using assms(2,3) h group(1) by (simp add: exchange_inv_def)
    from dh_group_ok [OF assms(1) this e [unfolded group(2)]] show ?thesis
      using assms(2) h group(1) by (simp add: exchange_inv_def)
  next
    case none
    then show ?thesis using assms(3) by simp
  qed
qed

subsection \<open>The exchange over the session's transport\<close>

lemma askv_type_member: "askv_type disc ts s = (Some ty, s') \<Longrightarrow> ty \<in> set ts"
  by (induction ts arbitrary: s) (auto split: prod.splits if_splits)

lemma burn_loop_nonzero: "fst (burn_loop tread disc n s) \<noteq> 0"
  by (induction n arbitrary: s) (auto split: prod.split)

lemma tburn_nonzero: "fst (kex_tburn q s) \<noteq> 0"
proof -
  have "ty \<noteq> 0" if "ty \<in> set (map of_nat [1..<255])" for ty :: u8
  proof -
    have "ty \<in> of_nat ` {1..<255}" using that by simp
    then obtain n where n: "n \<in> {1..<255}" "ty = of_nat n" by blast
    then have "unat ty = n" by (simp add: unat_of_nat)
    then show ?thesis using n(1) by auto
  qed
  then have "ty \<noteq> 0" if "askv_type disc (map of_nat [1..<255]) s = (Some ty, s')" for disc ty s s'
    using askv_type_member [OF that] .
  then have "uint ty \<noteq> 0" if "askv_type disc (map of_nat [1..<255]) s = (Some ty, s')" for disc ty s s'
    using that by (simp add: uint_0_iff)
  then show ?thesis
    by (auto simp: kex_tburn_def ssh2_packet_burn_def burn_loop_nonzero simp del: burn_loop.simps split: prod.split option.split)
qed

lemma low_set_low [simp]: "low_state (set_low lo s) = lo"
  by (simp add: low_state_def set_low_def)

text \<open>
  C3. Keys are put in use only when the signature of the host key verified over an exchange hash that covers both
  identification strings, both KEXINIT messages, this host key and the shared secret; they are derived from that
  secret and that hash.  However often the exchange is interrupted, the state it leaves keeps this true.
\<close>

theorem keys_only_from_signed_hash:
  assumes "errors_nonzero x" "exchange_inv x (km_name m) (low_state s)" "exchange_keys x m s = (rc, s')"
  shows "exchange_inv x (km_name m) (low_state s') \<and>
    (rc = 0 \<longrightarrow> (\<exists>t. keys_in_use x t \<and> s' = set_low (low_state s') t))"
proof -
  obtain lo t where k: "kex_exchange_keys x kex_send kex_treq kex_tburn (km_name m) (low_state s) s = (rc, lo, t)"
    and s': "s' = set_low lo t"
    using assms(3) by (auto simp: exchange_keys_def split: prod.splits)
  have "exchange_inv x (km_name m) lo \<and> (rc = 0 \<longrightarrow> keys_in_use x t)"
    using ec_keys_ok [OF assms(1) _ assms(2) k] dh_keys_ok [OF tburn_nonzero _ assms(2) k] by blast
  then show ?thesis unfolding s' by auto
qed

lemma curve25519_dispatch:
  "kex_exchange_keys x tsend treq tburn (km_name curve25519_method) =
     kex_method_curve25519_key_exchange x tsend treq (km_name curve25519_method)"
proof -
  have "kex_is_curve25519 (km_name curve25519_method)" "\<not> kex_is_mlkem_x25519 (km_name curve25519_method)"
    "\<not> kex_is_mlkem_nistp (km_name curve25519_method)"
    by code_simp+
  then show ?thesis by (simp add: kex_exchange_keys_def)
qed

lemma replied_finishes: "fst (exchange_keys example_lib curve25519_method replied) = 0"
proof -
  have "fst (kex_method_curve25519_key_exchange example_lib kex_send kex_treq (km_name curve25519_method)
      (low_state replied) replied) = 0"
    by code_simp
  then show ?thesis
    unfolding exchange_keys_def curve25519_dispatch by (simp add: case_prod_beta)
qed

theorem keys_only_from_signed_hash_witness:
  "\<exists>s' t. exchange_keys example_lib curve25519_method replied = (0, s') \<and> keys_in_use example_lib t \<and>
     s' = set_low (low_state s') t"
proof -
  obtain s' where e: "exchange_keys example_lib curve25519_method replied = (0, s')"
    using replied_finishes by (metis prod.collapse)
  let ?h = "\<lparr>hm_name = [], hm_sig_verify = True, hm_encrypt = False, hm_dtor = False\<rparr> :: hostkey_method"
  have "host_signed example_lib ''SSH2_SHA256_ALG'' 32 (lo_exchange (low_state replied))"
    unfolding host_signed_def
    by (rule exI [of _ "bare_session\<lparr>hostkey := Some ?h\<rparr>"], rule exI [of _ ?h], rule exI [of _ "[]"],
        rule exI [of _ "[9]"], rule exI [of _ "[]"])
      (simp add: example_lib_def replied_def key_state_low_0_def exchange_state_0_def kex_hash_head_def client_version_def
        LIBSSH2_SSH_DEFAULT_BANNER_def or_empty_def bare_session_def session_init_defs str_def)
  then have "exchange_inv example_lib (km_name curve25519_method) (low_state replied)"
    using x25519_hashes(2)
    by (simp add: exchange_inv_def curve25519_method_def replied_def low_ok_def phase_def key_state_low_0_def
        exchange_state_0_def kex_is_ec_def kex_is_curve25519_def)
  moreover have "errors_nonzero example_lib" by (simp add: errors_nonzero_def example_lib_def)
  ultimately show ?thesis using keys_only_from_signed_hash [OF _ _ e] e by blast
qed

subsection \<open>An exchange keeps the books\<close>

definition stage_runs :: "'k stage \<Rightarrow> bool" where
  "stage_runs f \<longleftrightarrow> (\<forall>k s0 s. exchange_run s0 s \<longrightarrow> exchange_run s0 (snd (snd (f k s))))"

lemma stage_runs_list: "(\<And>f. f \<in> set fs \<Longrightarrow> stage_runs f) \<Longrightarrow> stage_runs (run_stages fs)"
proof (induction fs)
  case (Cons f fs)
  then have "stage_runs f" "stage_runs (run_stages fs)" by auto
  then show ?case unfolding stage_runs_def by (auto split: prod.split) (metis snd_conv)+
qed (simp add: stage_runs_def)

lemma run_exchange_runs:
  assumes "stage_runs (run_stages fs)" "exchange_run s0 s"
  shows "exchange_run s0 (snd (snd (run_exchange c fs k s)))"
proof -
  have "exchange_run s0 (snd (snd (run_stages fs k s)))" using assms unfolding stage_runs_def by blast
  then show ?thesis
    unfolding run_exchange_def by (cases "run_stages fs k s" rule: prod_cases3) (simp split: flow.split)
qed

lemma run_treq: "exchange_run s0 s \<Longrightarrow> ty \<notin> {SSH_MSG_CHANNEL_DATA, SSH_MSG_CHANNEL_EXTENDED_DATA} \<Longrightarrow>
    exchange_run s0 (snd (snd (snd (kex_treq ty start s))))"
  unfolding kex_treq_def by (rule run_wait) auto

lemma run_treq_eq:
  "kex_treq ty start s = (rc, n, d, t) \<Longrightarrow> exchange_run s0 s \<Longrightarrow>
   ty \<notin> {SSH_MSG_CHANNEL_DATA, SSH_MSG_CHANNEL_EXTENDED_DATA} \<Longrightarrow> exchange_run s0 t"
  using run_treq [of s0 s ty start] by simp

lemma run_send_eq: "kex_send p d d2 s = (rc, t) \<Longrightarrow> exchange_run s0 s \<Longrightarrow> exchange_run s0 t"
  using run_send [of s0 s p d d2] by simp

lemma run_upd: "exchange_run s0 s \<Longrightarrow> same_core s t \<Longrightarrow> exchange_run s0 t"
  by (rule run_keys)

lemma send_request_runs: "stage_runs (send_request kex_send a b)"
  unfolding stage_runs_def
  by (auto simp: send_request_def after_call_def split: prod.split intro: run_send_eq run_upd [OF run_send_eq])

lemma await_reply_runs:
  "ty \<notin> {SSH_MSG_CHANNEL_DATA, SSH_MSG_CHANNEL_EXTENDED_DATA} \<Longrightarrow> stage_runs (await_reply kex_treq ty a b)"
  unfolding stage_runs_def
  by (auto simp: await_reply_def after_call_def Let_def split: prod.split intro: run_treq_eq run_upd [OF run_treq_eq])

lemma send_newkeys_runs: "stage_runs (kex_send_newkeys kex_send a b)"
  unfolding stage_runs_def
  by (auto simp: kex_send_newkeys_def after_call_def split: prod.split intro: run_send_eq run_upd [OF run_send_eq])

text \<open>What a stage does to the session besides sending and waiting stays outside the books.\<close>

definition calm_stage :: "'k stage \<Rightarrow> bool" where
  "calm_stage f \<longleftrightarrow> (\<forall>k s fl k' t. f k s = (fl, k', t) \<longrightarrow> same_core s t)"

lemma calm_stage_runs: "calm_stage f \<Longrightarrow> stage_runs f"
  unfolding calm_stage_def stage_runs_def by (metis prod_cases3 run_keys snd_conv)

lemma draw_core: "draw s = (r, t) \<Longrightarrow> same_core s t"
  by (auto simp: draw_def same_core_def split: list.splits)

lemma bn_mpint_core: "bn_mpint x n s = (r, t) \<Longrightarrow> same_core s t"
  by (auto simp: bn_mpint_def ssh2_err_def Let_def dest!: alloc_core split: prod.splits if_splits option.splits)

lemma new_key_pair_core: "new_key_pair f s = (r, t) \<Longrightarrow> same_core s t"
  by (auto simp: new_key_pair_def ssh2_err_def dest!: draw_core split: prod.splits sum.splits)

lemma proc_hostkey_core: "kex_proc_hostkey x data s = (rc, buf, t) \<Longrightarrow> same_core s t"
  by (auto simp: kex_proc_hostkey_def kex_copy_hostkey_def kex_fingerprints_def ssh2_err_def Let_def
      dest!: alloc_core split: if_splits option.splits prod.splits)

lemma check_signature_core: "kex_check_signature x alg d m sig xs s = (rc, xs', t) \<Longrightarrow> same_core s t"
  by (auto simp: kex_check_signature_def ssh2_err_def Let_def split: if_splits option.splits)

definition calm_secret :: "(bytes \<Rightarrow> session \<Rightarrow> (rc + bytes) \<times> session) \<Rightarrow> bool" where
  "calm_secret secret \<longleftrightarrow> (\<forall>pk s r t. secret pk s = (r, t) \<longrightarrow> same_core s t)"

lemma hybrid_value_core: "hybrid_value x alg d m s = (r, t) \<Longrightarrow> same_core s t"
  by (auto simp: hybrid_value_def ssh2_err_def split: option.splits)

lemma c_assert_core: "same_core (c_assert P s) t \<Longrightarrow> same_core s t"
  by (rule same_core_faults_left(2))

lemma secrets_calm:
  "calm_secret (ecdh_secret x priv)" "calm_secret (curve25519_secret x priv)"
  "calm_secret (mlkem768x25519_secret x priv pq)" "calm_secret (mlkem_nistp_secret x alg d m c priv pq)"
  by (auto simp: calm_secret_def ecdh_secret_def curve25519_secret_def mlkem768x25519_secret_def
      mlkem_nistp_secret_def err_left_def ssh2_err_def
      dest!: bn_mpint_core alloc_core hybrid_value_core c_assert_core intro: same_core_trans split: prod.splits if_splits option.splits)

lemma ec_verify_calm: "calm_secret secret \<Longrightarrow> calm_stage (ec_verify x ok secret alg d data pub pq)"
  by (auto simp: calm_stage_def calm_secret_def ec_verify_def kex_method_ec_sha_hash_create_verify_def
      dest!: proc_hostkey_core check_signature_core split: if_splits option.splits prod.splits sum.splits)
     (blast intro: same_core_trans)+

lemma kex_value_hash_core: "kex_value_hash x alg d xs n l s = (r, t) \<Longrightarrow> same_core s t"
  by (auto simp: kex_value_hash_def dest!: alloc_core split: if_splits prod.splits)

lemma new_crypt_core: "kex_new_crypt x alg d xs a b enc e s = (rc, e', t) \<Longrightarrow> same_core s t"
  by (auto simp: kex_new_crypt_def ssh2_err_def Let_def dest!: kex_value_hash_core alloc_core
      intro: same_core_trans split: option.splits prod.splits if_splits)

lemma new_mac_core: "kex_new_mac x alg d xs a e s = (rc, e', t) \<Longrightarrow> same_core s t"
  by (auto simp: kex_new_mac_def ssh2_err_def Let_def dest!: kex_value_hash_core split: option.splits prod.splits if_splits)

lemma new_comp_core: "kex_new_comp c e s = (rc, e', t) \<Longrightarrow> same_core s t"
  by (auto simp: kex_new_comp_def dest!: alloc_core split: option.splits prod.splits)

lemma in_turn_core:
  "(\<And>f s. f \<in> set fs \<Longrightarrow> same_core s (snd (f s))) \<Longrightarrow> same_core s (snd (in_turn fs s))"
proof (induction fs arbitrary: s)
  case (Cons f fs)
  have "same_core s (snd (f s))" using Cons.prems [of f s] by simp
  moreover have "same_core t (snd (in_turn fs t))" for t using Cons.prems by (intro Cons.IH) simp
  ultimately show ?case using same_core_trans by (auto split: prod.split)
qed simp

lemma new_keys_core: "same_core s (snd (kex_new_keys x alg d xs s))"
  unfolding kex_new_keys_def
  by (rule in_turn_core)
     (auto simp: on_local_def on_remote_def dest!: new_crypt_core new_mac_core new_comp_core split: prod.splits)

lemma session_id_core: "same_core s (snd (kex_session_id d xs s))"
  by (auto simp: kex_session_id_def ssh2_err_def dest!: alloc_core split: option.splits prod.splits)

lemma finish_runs: "stage_runs (kex_finish_stage x kex_treq alg d a)"
  unfolding stage_runs_def
proof (intro allI impI)
  fix xs :: kmdhgGPshakex_state and s0 s
  assume s: "exchange_run s0 s"
  obtain rc n tmp t where r: "kex_treq SSH_MSG_NEWKEYS (xs_req_start xs) s = (rc, n, tmp, t)" using prod_cases4 by blast
  have t: "exchange_run s0 t" using run_treq_eq [OF r s] by simp
  define xs1 :: kmdhgGPshakex_state where "xs1 = xs\<lparr>xs_req_start := n\<rparr>"
  let ?u = "set_st SSH2_STATE_NEWKEYS t"
  let ?k = "in_turn [kex_session_id d xs1, kex_new_keys x alg d xs1] ?u"
  have k: "exchange_run s0 (snd ?k)"
    by (rule run_keys [OF run_newkeys [OF t]], rule in_turn_core) (auto simp: new_keys_core session_id_core)
  have e: "exchange_run s0 (snd (ssh2_err c t))" for c
    by (rule run_keys [OF t]) (simp add: ssh2_err_def)
  have f: "exchange_run s0 (snd (snd (kex_finish x kex_treq alg d xs s)))"
    using t k e unfolding kex_finish_def r prod.case Let_def xs1_def by (simp add: case_prod_beta del: in_turn.simps)
  then show "exchange_run s0 (snd (snd (kex_finish_stage x kex_treq alg d a xs s)))"
    using s by (auto simp: kex_finish_stage_def split: prod.split)
qed

lemma ec_exchange_runs:
  assumes "calm_secret secret" "exchange_run s0 s"
  shows "exchange_run s0 (snd (snd (ec_exchange x kex_send kex_treq ok secret alg d data pub pq xs s)))"
  unfolding ec_exchange_def
proof (rule run_exchange_runs [OF stage_runs_list assms(2)])
  have "calm_stage ec_start" by (simp add: calm_stage_def ec_start_def)
  moreover fix f
  assume "f \<in> set [ec_start, ec_verify x ok secret alg d data pub pq, kex_send_newkeys kex_send NB_sent NB_sent2,
    kex_finish_stage x kex_treq alg d NB_sent2]"
  ultimately show "stage_runs f"
    using ec_verify_calm [OF assms(1)] by (auto intro: calm_stage_runs send_newkeys_runs finish_runs)
qed

lemma exchange_stage_runs:
  assumes "\<And>lo xs s0 s. exchange_run s0 s \<Longrightarrow> exchange_run s0 (snd (snd (exch lo xs s)))"
  shows "stage_runs (exchange_stage a exch)"
  unfolding stage_runs_def
proof (intro allI impI)
  fix lo s0 s
  assume "exchange_run s0 s"
  then show "exchange_run s0 (snd (snd (exchange_stage a exch lo s)))"
    using assms [of s0 s lo "lo_exchange lo"] by (auto simp: exchange_stage_def split: prod.split)
qed

lemma ec_method_runs:
  assumes "calm_stage create" "\<And>lo xs s0 s. exchange_run s0 s \<Longrightarrow> exchange_run s0 (snd (snd (exch lo xs s)))"
    and "exchange_run s0 s"
  shows "exchange_run s0 (snd (snd (ec_method kex_send kex_treq create exch c lo s)))"
  unfolding ec_method_def
proof (rule run_exchange_runs [OF stage_runs_list assms(3)])
  have "calm_stage ec_init" by (simp add: calm_stage_def ec_init_def)
  moreover fix f
  assume "f \<in> set [ec_init, create, send_request kex_send NB_sent NB_sent1,
    await_reply kex_treq SSH2_MSG_KEX_ECDH_REPLY NB_sent1 NB_sent2, exchange_stage NB_sent2 exch]"
  ultimately show "stage_runs f"
    using assms(1) by (auto intro: calm_stage_runs send_request_runs await_reply_runs exchange_stage_runs [OF assms(2)])
qed

lemma creates_calm:
  "calm_stage (ecdh_create x name)" "calm_stage (curve25519_create x name)" "calm_stage (mlkem768x25519_create x)"
  "calm_stage (mlkem_nistp_create x name)"
  by (auto simp: calm_stage_def ecdh_create_def curve25519_create_def mlkem768x25519_create_def mlkem_nistp_create_def
      mlkem_pair_def dest!: new_key_pair_core split: if_splits option.splits sum.splits prod.splits)
     (blast intro: same_core_trans)+

text \<open>The methods over elliptic curves never burn a packet; they keep the books of channels and packets.\<close>

lemma run_err: "exchange_run s0 t \<Longrightarrow> exchange_run s0 (t\<lparr>err_code := e\<rparr>)"
  by (rule run_keys, assumption, simp)

lemma nist_runs:
  assumes "exchange_run s0 t"
  shows "exchange_run s0 (snd (snd (ecdh_exchange x kex_send kex_treq name lo xs t)))"
    and "exchange_run s0 (snd (snd (mlkem_nistp_exchange x kex_send kex_treq name lo xs t)))"
proof -
  note ec = ec_exchange_runs [OF _ assms]
  show "exchange_run s0 (snd (snd (ecdh_exchange x kex_send kex_treq name lo xs t)))"
    using run_err [OF assms]
    by (cases "kex_session_curve_type name")
       (simp_all add: ecdh_exchange_def kex_ecdh_sha2_nistp_def ssh2_err_def case_prod_beta ec secrets_calm)
  show "exchange_run s0 (snd (snd (mlkem_nistp_exchange x kex_send kex_treq name lo xs t)))"
    using run_err [OF assms]
    by (cases "Option.bind (kex_session_curve_type name) (\<lambda>c. map_option (\<lambda>p. (c, p)) (mlkem_nistp_params c))")
       (simp_all add: mlkem_nistp_exchange_def kex_mlkem_nistp_def ssh2_err_def case_prod_beta ec secrets_calm)
qed

lemma x25519_runs:
  assumes "exchange_run s0 t"
  shows "exchange_run s0 (snd (snd (curve25519_exchange x kex_send kex_treq lo xs t)))"
    and "exchange_run s0 (snd (snd (mlkem768x25519_exchange x kex_send kex_treq lo xs t)))"
  unfolding curve25519_exchange_def kex_curve25519_sha256_def mlkem768x25519_exchange_def kex_mlkem768x25519_sha256_def
  by (intro ec_exchange_runs secrets_calm assms)+

lemma ec_methods_run:
  "exchange_run s (snd (snd (kex_method_mlkem768x25519_key_exchange x kex_send kex_treq lo s)))"
  "exchange_run s (snd (snd (kex_method_mlkem_nistp_key_exchange x kex_send kex_treq name lo s)))"
  "exchange_run s (snd (snd (kex_method_curve25519_key_exchange x kex_send kex_treq name lo s)))"
  "exchange_run s (snd (snd (kex_method_ecdh_key_exchange x kex_send kex_treq name lo s)))"
  unfolding kex_method_mlkem768x25519_key_exchange_def kex_method_mlkem_nistp_key_exchange_def
    kex_method_curve25519_key_exchange_def kex_method_ecdh_key_exchange_def
  subgoal by (rule ec_method_runs [OF creates_calm(3) x25519_runs(2) run_done])
  subgoal by (rule ec_method_runs [OF creates_calm(4) nist_runs(2) run_done])
  subgoal by (rule ec_method_runs [OF creates_calm(2) x25519_runs(1) run_done])
  subgoal by (rule ec_method_runs [OF creates_calm(1) nist_runs(1) run_done])
  done

definition ec_keys :: "kex_lib \<Rightarrow> exchange" where
  "ec_keys x m s =
     (if kex_is_ec (km_name m) then exchange_keys x m s else (LIBSSH2_ERROR_KEX_FAILURE, set_fault s))"

lemma ec_keys_proper: "proper_exchange (ec_keys x)"
  unfolding proper_exchange_def
proof (intro allI)
  fix m s
  have "exchange_run s (snd (snd (kex_exchange_keys x kex_send kex_treq tburn name lo s)))" if "kex_is_ec name" for tburn name lo
    using that ec_methods_run [of s x] unfolding kex_exchange_keys_def kex_is_ec_def
    by (cases "kex_is_mlkem_x25519 name"; cases "kex_is_mlkem_nistp name"; cases "kex_is_curve25519 name") simp_all
  note run = this
  show "exchange_run s (snd (ec_keys x m s))"
  proof (cases "kex_is_ec (km_name m)")
    case True
    obtain rc lo t where e: "kex_exchange_keys x kex_send kex_treq kex_tburn (km_name m) (low_state s) s = (rc, lo, t)"
      using prod_cases3 by blast
    then have "exchange_run s t" using run [OF True, of kex_tburn "low_state s"] by simp
    then have "exchange_run s (set_low lo t)" by (rule run_keys) (simp add: set_low_def)
    then show ?thesis using True by (simp add: ec_keys_def exchange_keys_def e)
  next
    case False
    then show ?thesis by (auto simp: ec_keys_def intro: run_keys [OF run_done])
  qed
qed

end
