(* ===== verification/Startup.thy ===== *)
theory Startup
  imports Stack KexExchange
begin

text \<open>
  The beginning of a connection, \<open>session.c\<close>: the identification strings (banners), the first exchange of keys
  and the request for the service \<open>ssh-userauth\<close>.
\<close>

unbundle bit_operations_syntax

abbreviation (input) LIBSSH2_ERROR_BANNER_RECV :: int where "LIBSSH2_ERROR_BANNER_RECV \<equiv> - 2"
abbreviation (input) LIBSSH2_ERROR_BAD_SOCKET :: int where "LIBSSH2_ERROR_BAD_SOCKET \<equiv> - 45"
abbreviation (input) SSH_MSG_SERVICE_REQUEST :: u8 where "SSH_MSG_SERVICE_REQUEST \<equiv> 5"
abbreviation (input) SSH_MSG_SERVICE_ACCEPT :: u8 where "SSH_MSG_SERVICE_ACCEPT \<equiv> 6"

subsection \<open>The peer's identification string\<close>

text \<open>The size of \<open>banner_TxRx_banner\<close>; CR and LF are 13 and 10.\<close>

definition BANNER_SIZE :: nat where "BANNER_SIZE = 8192"

definition ends_in :: "u8 set \<Rightarrow> bytes \<Rightarrow> bool" where
  "ends_in A line \<longleftrightarrow> line \<noteq> [] \<and> last line \<in> A"

lemma recv_shrinks:
  "(ret, bs, t) = ssh2_recv n s \<Longrightarrow> 0 < ret \<Longrightarrow> script_size (sock_in t) < script_size (sock_in s)"
  by (auto simp: ssh2_recv_def split: list.splits recv_event.splits if_splits)

text \<open>
  The loop reads byte by byte; \<open>line\<close> is the beginning of \<open>banner_TxRx_banner\<close> that is in use.  Between two
  calls its length is \<open>banner_TxRx_total_send\<close>.  The result is an error, or the line.
\<close>

function banner_loop :: "bytes \<Rightarrow> session \<Rightarrow> (rc + bytes) \<times> session" where
  "banner_loop line s =
     (if length line < BANNER_SIZE \<and> \<not> ends_in {10} line then
        case ssh2_recv 1 (s\<lparr>block_directions := block_directions s AND NOT LIBSSH2_SESSION_BLOCK_INBOUND\<rparr>) of
          (ret, bs, s) \<Rightarrow>
            if ret < 0 then
              if ret = - EAGAIN
              then (Inl LIBSSH2_ERROR_EAGAIN,
                    s\<lparr>block_directions := LIBSSH2_SESSION_BLOCK_INBOUND, banner_TxRx_banner := line,
                      banner_TxRx_total_send := length line\<rparr>)
              else (Inl LIBSSH2_ERROR_SOCKET_RECV, s\<lparr>banner_TxRx_state := NB_idle, banner_TxRx_total_send := 0\<rparr>)
            else if ret = 0 then (Inl LIBSSH2_ERROR_SOCKET_DISCONNECT, s\<lparr>socket_st := SOCKET_DISCONNECTED\<rparr>)
            else if hd bs \<in> {13, 10} \<and> line = [] then banner_loop line s
            else if hd bs = 0
            then (Inl LIBSSH2_ERROR_BANNER_RECV, s\<lparr>banner_TxRx_state := NB_idle, banner_TxRx_total_send := 0\<rparr>)
            else banner_loop (line @ [hd bs]) s
      else (Inr line, s))"
  by pat_completeness auto
termination
  by (relation "measure (\<lambda>(line, s). script_size (sock_in s))") (auto dest!: recv_shrinks)

declare banner_loop.simps [simp del]

fun strip_end :: "bytes \<Rightarrow> bytes" where
  "strip_end line = rev (dropWhile (\<lambda>c. c = 10 \<or> c = 13) (rev line))"

text \<open>While this runs \<open>remote.banner\<close> may be an older one, which is freed before the new one is allocated.\<close>

definition session_banner_receive :: "session \<Rightarrow> rc \<times> session" where
  "session_banner_receive s =
     (let (line, s) =
            (if banner_TxRx_state s = NB_idle then ([], s\<lparr>banner_TxRx_state := NB_created\<rparr>)
             else (take (banner_TxRx_total_send s) (banner_TxRx_banner s), s))
      in case banner_loop line s of
           (Inl rc, s) \<Rightarrow> (rc, s)
         | (Inr line, s) \<Rightarrow>
             let line = strip_end line;
                 s = s\<lparr>banner_TxRx_state := NB_idle, banner_TxRx_total_send := 0\<rparr>
             in if line = [] then (LIBSSH2_ERROR_BANNER_RECV, s)
                else case ssh2_alloc (upd_remote (\<lambda>e. e\<lparr>banner := None\<rparr>) s) of (ok, s) \<Rightarrow>
                       if \<not> ok then ssh2_err LIBSSH2_ERROR_ALLOC s
                       else (LIBSSH2_ERROR_NONE, upd_remote (\<lambda>e. e\<lparr>banner := Some line\<rparr>) s))"

subsection \<open>Our identification string\<close>

definition LIBSSH2_SSH_DEFAULT_BANNER_WITH_CRLF :: bytes where
  "LIBSSH2_SSH_DEFAULT_BANNER_WITH_CRLF = LIBSSH2_SSH_DEFAULT_BANNER @ [13, 10]"

text \<open>
  A banner of our own is chosen only when the state is idle, so a call that goes on with a string sent in part
  works with the default one; an offset behind its end is a fault.
\<close>

definition session_banner_send :: "session \<Rightarrow> rc \<times> session" where
  "session_banner_send s =
     (let (line, s) =
            (if banner_TxRx_state s = NB_idle
             then (case banner (local s) of Some v \<Rightarrow> v | None \<Rightarrow> LIBSSH2_SSH_DEFAULT_BANNER_WITH_CRLF,
                   s\<lparr>banner_TxRx_state := NB_created\<rparr>)
             else (LIBSSH2_SSH_DEFAULT_BANNER_WITH_CRLF, s));
          s = s\<lparr>block_directions := block_directions s AND NOT LIBSSH2_SESSION_BLOCK_OUTBOUND\<rparr>;
          s = c_assert (banner_TxRx_total_send s \<le> length line) s
      in case ssh2_send (drop (banner_TxRx_total_send s) line) s of (ret, s) \<Rightarrow>
           if ret \<noteq> int (length line - banner_TxRx_total_send s) then
             if ret \<ge> 0 \<or> ret = - EAGAIN
             then (LIBSSH2_ERROR_EAGAIN,
                   s\<lparr>block_directions := LIBSSH2_SESSION_BLOCK_OUTBOUND,
                     banner_TxRx_total_send := banner_TxRx_total_send s + nat ret\<rparr>)
             else (LIBSSH2_ERROR_SOCKET_RECV, s\<lparr>banner_TxRx_state := NB_idle, banner_TxRx_total_send := 0\<rparr>)
           else (0, s\<lparr>banner_TxRx_state := NB_idle, banner_TxRx_total_send := 0\<rparr>))"

text \<open>\<open>None\<close> is the NULL pointer; a string has no NUL byte.\<close>

definition libssh2_session_banner_set :: "bytes option \<Rightarrow> session \<Rightarrow> rc \<times> session" where
  "libssh2_session_banner_set new s =
     (let line = (case new of Some v \<Rightarrow> v | None \<Rightarrow> [])
      in if length line > 4 * 1024 * 1024 then (LIBSSH2_ERROR_OUT_OF_BOUNDARY, s)
         else
           let s = upd_local (\<lambda>e. e\<lparr>banner := None\<rparr>) s
           in if line = [] then (0, s)
              else case ssh2_alloc s of (ok, s) \<Rightarrow>
                     if \<not> ok then ssh2_err LIBSSH2_ERROR_ALLOC s
                     else (0, upd_local (\<lambda>e. e\<lparr>banner := Some (line @ [13, 10])\<rparr>) s))"

subsection \<open>Starting up\<close>

text \<open>
  The lines before the identification string are skipped.  Each round that is followed by another takes a byte
  off the socket, or the line the last call left behind; running out of the bound is a fault.
\<close>

fun banner_lines :: "nat \<Rightarrow> session \<Rightarrow> rc \<times> session" where
  "banner_lines 0 s = (LIBSSH2_ERROR_BANNER_RECV, set_fault s)"
| "banner_lines (Suc n) s =
     (case session_banner_receive s of (rc, s) \<Rightarrow>
        if rc = LIBSSH2_ERROR_EAGAIN then (rc, s)
        else if rc \<noteq> 0 then ssh2_err rc s
        else if take 4 (or_empty (banner (remote s))) = str ''SSH-'' then (0, s)
        else banner_lines n s)"

text \<open>The socket: whether it is in blocking mode, and what switching that off returns.\<close>

record sock_info =
  si_blocking :: bool
  si_nonblock :: int

definition startup_stage :: "nb_state \<Rightarrow> nb_state \<Rightarrow> (session \<Rightarrow> rc \<times> session) \<Rightarrow> session \<Rightarrow> rc option \<times> session" where
  "startup_stage a b f s =
     (if startup_state s \<noteq> a then (None, s)
      else case f s of (rc, s) \<Rightarrow> if rc = 0 then (None, s\<lparr>startup_state := b\<rparr>) else (Some rc, s))"

text \<open>What follows a call: to be called again, or the error noted.\<close>

definition or_error :: "rc \<times> session \<Rightarrow> rc \<times> session" where
  "or_error r = (case r of (rc, s) \<Rightarrow> if rc = 0 \<or> rc = LIBSSH2_ERROR_EAGAIN then (rc, s) else ssh2_err rc s)"

definition startup_socket :: "sock_info option \<Rightarrow> session \<Rightarrow> rc \<times> session" where
  "startup_socket sock s =
     (case sock of
        None \<Rightarrow> ssh2_err LIBSSH2_ERROR_BAD_SOCKET s
      | Some i \<Rightarrow> if si_blocking i \<and> si_nonblock i \<noteq> 0 then ssh2_err (si_nonblock i) s else (0, s))"

definition startup_banner :: "session \<Rightarrow> rc \<times> session" where
  "startup_banner s =
     (case or_error (session_banner_send s) of (rc, s) \<Rightarrow>
        (rc, if rc = 0 then s\<lparr>banner_TxRx_state := NB_idle\<rparr> else s))"

definition userauth_service :: bytes where
  "userauth_service = str ''ssh-userauth''"

definition startup_request :: "session \<Rightarrow> rc \<times> session" where
  "startup_request s = (0, s\<lparr>startup_service := SSH_MSG_SERVICE_REQUEST # enc_string userauth_service\<rparr>)"

definition startup_accept :: "requirer \<Rightarrow> session \<Rightarrow> rc \<times> session" where
  "startup_accept treq s =
     (case treq SSH_MSG_SERVICE_ACCEPT (startup_req_start s) s of (rc, start, data, s) \<Rightarrow>
        let s = s\<lparr>startup_req_start := start\<rparr>
        in if rc \<noteq> 0 then ssh2_err rc s
           else if fst (ssh2_match_string ((string_buf_of data)\<lparr>sb_ptr := 1\<rparr>) userauth_service) then (0, s)
           else ssh2_err LIBSSH2_ERROR_PROTO s)"

fun run_startup :: "(nb_state \<times> nb_state \<times> (session \<Rightarrow> rc \<times> session)) list \<Rightarrow> session \<Rightarrow> rc option \<times> session" where
  "run_startup [] s = (None, s)"
| "run_startup ((a, b, f) # fs) s =
     (case startup_stage a b f s of
        (Some rc, s) \<Rightarrow> (Some rc, s)
      | (None, s) \<Rightarrow> run_startup fs s)"

text \<open>The last stage leaves the function; without it the state was none of the known ones.\<close>

definition startup_stages :: "build \<Rightarrow> exchange \<Rightarrow> sender \<Rightarrow> requirer \<Rightarrow> sock_info option \<Rightarrow>
    (nb_state \<times> nb_state \<times> (session \<Rightarrow> rc \<times> session)) list" where
  "startup_stages b xk tsend treq sock =
     [(NB_idle, NB_created, startup_socket sock),
      (NB_created, NB_sent, startup_banner),
      (NB_sent, NB_sent1, \<lambda>s. banner_lines (Suc (Suc (script_size (sock_in s)))) s),
      (NB_sent1, NB_sent2, \<lambda>s. or_error (ssh2_kex_exchange b no_kex kex_require xk False s)),
      (NB_sent2, NB_sent3, startup_request),
      (NB_sent3, NB_sent4, \<lambda>s. or_error (tsend (''startup_service'', 0) (startup_service s) [] s))]"

definition session_startup :: "build \<Rightarrow> exchange \<Rightarrow> sender \<Rightarrow> requirer \<Rightarrow> sock_info option \<Rightarrow> session \<Rightarrow> rc \<times> session" where
  "session_startup b xk tsend treq sock s =
     (case run_startup (startup_stages b xk tsend treq sock) s of
        (Some rc, s) \<Rightarrow> (rc, s)
      | (None, s) \<Rightarrow>
          if startup_state s \<noteq> NB_sent4 then (LIBSSH2_ERROR_INVAL, s)
          else case startup_accept treq s of (rc, s) \<Rightarrow>
                 (rc, if rc = 0 then s\<lparr>startup_state := NB_idle\<rparr> else s))"

definition t_require :: "build \<Rightarrow> exchange \<Rightarrow> requirer" where
  "t_require b xk ty start s = ssh2_packet_require (t_read b xk) (t_disconnect b xk) ty 0 [] start s"

definition libssh2_session_handshake :: "build \<Rightarrow> exchange \<Rightarrow> sock_info option \<Rightarrow> session \<Rightarrow> rc \<times> session" where
  "libssh2_session_handshake b xk sock =
     block_adjust (t_send b xk) (session_startup b xk (t_send b xk) (t_require b xk) sock)"

end
