(* ===== verification/StartupProps.thy ===== *)
theory StartupProps
  imports Startup TransportRead
begin

text \<open>
  The identification strings: the peer's is read however the socket delivers it; ours is completed with the wrong
  string when the socket takes it in parts.
\<close>

unbundle bit_operations_syntax

subsection \<open>Reading a line\<close>

definition avail :: "session \<Rightarrow> bytes" where
  "avail s = concat (map ev_bytes (sock_in s))"

definition got :: "session \<Rightarrow> bytes" where
  "got s = (if banner_TxRx_state s = NB_idle then [] else take (banner_TxRx_total_send s) (banner_TxRx_banner s))"

text \<open>What reading does to the session, apart from the banner.\<close>

definition rest_same :: "session \<Rightarrow> session \<Rightarrow> bool" where
  "rest_same s t \<longleftrightarrow> remote t = remote s \<and> local t = local s \<and> allocs t = allocs s \<and> socket_st t = socket_st s \<and>
     banner_TxRx_state t = banner_TxRx_state s"

lemma rest_same_refl [simp]: "rest_same s s"
  by (simp add: rest_same_def)

lemma rest_same_trans: "rest_same s t \<Longrightarrow> rest_same t u \<Longrightarrow> rest_same s u"
  by (simp add: rest_same_def)

lemma rest_same_upd [simp]:
  "rest_same s (t\<lparr>block_directions := d\<rparr>) = rest_same s t" "rest_same (s\<lparr>block_directions := d\<rparr>) t = rest_same s t"
  "rest_same s (t\<lparr>banner_TxRx_banner := l\<rparr>) = rest_same s t" "rest_same s (t\<lparr>banner_TxRx_total_send := n\<rparr>) = rest_same s t"
  by (simp_all add: rest_same_def)

lemma recv_one:
  assumes "data_only (sock_in s)" "avail s = c # r"
  shows "\<exists>t. ssh2_recv 1 s = (1, [c], t) \<and> data_only (sock_in t) \<and> avail t = r \<and> rest_same s t"
proof -
  obtain b es where s: "sock_in s = Recv_bytes b # es" and b: "b \<noteq> []" "data_only es"
    using assms by (cases "sock_in s") (auto simp: avail_def)
  obtain d where d: "b = c # d" using assms(2) b(1) by (cases b) (auto simp: avail_def s)
  show ?thesis
    using assms(2) b(2) by (cases d) (auto simp: ssh2_recv_def s d avail_def rest_same_def)
qed

lemma recv_none: "data_only (sock_in s) \<Longrightarrow> avail s = [] \<Longrightarrow> ssh2_recv n s = (- EAGAIN, [], s)"
  by (cases "sock_in s") (auto simp: ssh2_recv_def avail_def)

text \<open>The bytes of a line: no line feed and no NUL, and it does not begin with a line end.\<close>

definition line_ok :: "bytes \<Rightarrow> bool" where
  "line_ok w \<longleftrightarrow> 10 \<notin> set w \<and> 0 \<notin> set w \<and> (w \<noteq> [] \<longrightarrow> hd w \<noteq> 13)"

lemma not_ended: "10 \<notin> set line \<Longrightarrow> \<not> ends_in {10} line"
  unfolding ends_in_def by (metis last_in_set singletonD)

lemma loop_step:
  assumes "data_only (sock_in s)" "avail s = c # r" "length line < BANNER_SIZE" "10 \<notin> set line"
  shows "\<exists>t. data_only (sock_in t) \<and> avail t = r \<and> rest_same s t \<and>
    banner_loop line s = (if c \<in> {13, 10} \<and> line = [] then banner_loop line t
      else if c = 0 then (Inl LIBSSH2_ERROR_BANNER_RECV, t\<lparr>banner_TxRx_state := NB_idle, banner_TxRx_total_send := 0\<rparr>)
      else banner_loop (line @ [c]) t)"
proof -
  let ?s = "s\<lparr>block_directions := block_directions s AND NOT LIBSSH2_SESSION_BLOCK_INBOUND\<rparr>"
  have "data_only (sock_in ?s)" "avail ?s = c # r" using assms(1,2) by (simp_all add: avail_def)
  from recv_one [OF this] obtain t where t: "ssh2_recv 1 ?s = (1, [c], t)" "data_only (sock_in t)" "avail t = r" "rest_same s t"
    by auto
  have "\<not> ends_in {10} line" using assms(4) by (rule not_ended)
  then show ?thesis
    using t assms(3) by (intro exI [of _ t]) (subst banner_loop.simps, simp)
qed

lemma loop_waits:
  assumes "data_only (sock_in s)" "avail s = w" "length (line @ w) < BANNER_SIZE" "line_ok (line @ w)"
  shows "\<exists>t. banner_loop line s = (Inl LIBSSH2_ERROR_EAGAIN, t) \<and> data_only (sock_in t) \<and> avail t = [] \<and> rest_same s t \<and>
    banner_TxRx_banner t = line @ w \<and> banner_TxRx_total_send t = length (line @ w)"
  using assms
proof (induction w arbitrary: line s)
  case Nil
  let ?s = "s\<lparr>block_directions := block_directions s AND NOT LIBSSH2_SESSION_BLOCK_INBOUND\<rparr>"
  have "ssh2_recv 1 ?s = (- EAGAIN, [], ?s)" using Nil.prems by (intro recv_none) (simp_all add: avail_def)
  moreover have "\<not> ends_in {10} line" using Nil.prems by (intro not_ended) (simp add: line_ok_def)
  ultimately have "banner_loop line s = (Inl LIBSSH2_ERROR_EAGAIN, ?s\<lparr>block_directions := LIBSSH2_SESSION_BLOCK_INBOUND,
      banner_TxRx_banner := line, banner_TxRx_total_send := length line\<rparr>)"
    using Nil.prems by (subst banner_loop.simps) simp
  then show ?case using Nil.prems by (simp add: avail_def)
next
  case (Cons c w)
  from loop_step [OF Cons.prems(1,2), of line] Cons.prems(3,4)
  obtain t where t: "data_only (sock_in t)" "avail t = w" "rest_same s t" "banner_loop line s = banner_loop (line @ [c]) t"
    by (cases line) (auto simp: line_ok_def)
  show ?case using Cons.IH [OF t(1,2), of "line @ [c]"] Cons.prems(3,4) t(3,4) by (auto intro: rest_same_trans)
qed

lemma loop_line:
  assumes "data_only (sock_in s)" "avail s = w @ 10 # r" "length (line @ w) < BANNER_SIZE" "line_ok (line @ w)" "line @ w \<noteq> []"
  shows "\<exists>t. banner_loop line s = (Inr (line @ w @ [10]), t) \<and> data_only (sock_in t) \<and> avail t = r \<and> rest_same s t"
  using assms
proof (induction w arbitrary: line s)
  case Nil
  from loop_step [OF Nil.prems(1), of 10 r line] Nil.prems
  obtain t where t: "data_only (sock_in t)" "avail t = r" "rest_same s t" "banner_loop line s = banner_loop (line @ [10]) t"
    by (auto simp: line_ok_def)
  then show ?case by (subst (asm) (2) banner_loop.simps) (simp add: ends_in_def)
next
  case (Cons c w)
  from loop_step [OF Cons.prems(1), of c "w @ 10 # r" line] Cons.prems(2-4)
  obtain t where t: "data_only (sock_in t)" "avail t = w @ 10 # r" "rest_same s t" "banner_loop line s = banner_loop (line @ [c]) t"
    by (cases line) (auto simp: line_ok_def)
  show ?case using Cons.IH [OF t(1,2), of "line @ [c]"] Cons.prems(3,4) t(3,4) by (auto intro: rest_same_trans)
qed

lemma loop_skips:
  assumes "data_only (sock_in s)" "avail s = skip @ r" "set skip \<subseteq> {10, 13}"
  shows "\<exists>t. banner_loop [] s = banner_loop [] t \<and> data_only (sock_in t) \<and> avail t = r \<and> rest_same s t"
  using assms
proof (induction skip arbitrary: s)
  case Nil
  then show ?case by (intro exI [of _ s]) simp
next
  case (Cons c w)
  from loop_step [OF Cons.prems(1), of c "w @ r" "[]"] Cons.prems
  obtain t where t: "data_only (sock_in t)" "avail t = w @ r" "rest_same s t" "banner_loop [] s = banner_loop [] t"
    by (auto simp: BANNER_SIZE_def)
  show ?case using Cons.IH [OF t(1,2)] Cons.prems(3) t(3,4) by (auto intro: rest_same_trans)
qed

text \<open>
  One call: with a whole line in sight it ends, otherwise it keeps what it has and asks to be called again.
\<close>

lemma receive_starts:
  assumes "data_only (sock_in s)" "avail s = skip @ r" "set skip \<subseteq> {10, 13}" "got s \<noteq> [] \<longrightarrow> skip = []"
  shows "\<exists>t. data_only (sock_in t) \<and> avail t = r \<and> rest_same (s\<lparr>banner_TxRx_state := banner_TxRx_state t\<rparr>) t \<and> banner_TxRx_state t \<noteq> NB_idle \<and>
    session_banner_receive s =
      (case banner_loop (got s) t of
         (Inl rc, s) \<Rightarrow> (rc, s)
       | (Inr line, s) \<Rightarrow>
           let line = strip_end line; s = s\<lparr>banner_TxRx_state := NB_idle, banner_TxRx_total_send := 0\<rparr>
           in if line = [] then (LIBSSH2_ERROR_BANNER_RECV, s)
              else case ssh2_alloc (upd_remote (\<lambda>e. e\<lparr>banner := None\<rparr>) s) of (ok, s) \<Rightarrow>
                     if \<not> ok then ssh2_err LIBSSH2_ERROR_ALLOC s
                     else (LIBSSH2_ERROR_NONE, upd_remote (\<lambda>e. e\<lparr>banner := Some line\<rparr>) s))"
proof -
  define s0 where "s0 = (if banner_TxRx_state s = NB_idle then s\<lparr>banner_TxRx_state := NB_created\<rparr> else s)"
  have s0: "data_only (sock_in s0)" "avail s0 = skip @ r" "rest_same (s\<lparr>banner_TxRx_state := banner_TxRx_state s0\<rparr>) s0"
    "banner_TxRx_state s0 \<noteq> NB_idle"
    using assms(1,2) by (auto simp: s0_def avail_def rest_same_def)
  obtain t where t: "banner_loop (got s) s0 = banner_loop (got s) t" "data_only (sock_in t)" "avail t = r" "rest_same s0 t"
  proof (cases "got s = []")
    case True
    then show ?thesis using loop_skips [OF s0(1,2) assms(3)] that by metis
  next
    case False
    then show ?thesis using that [of s0] s0 assms(4) by simp
  qed
  have "session_banner_receive s = (case banner_loop (got s) s0 of
         (Inl rc, s) \<Rightarrow> (rc, s)
       | (Inr line, s) \<Rightarrow>
           let line = strip_end line; s = s\<lparr>banner_TxRx_state := NB_idle, banner_TxRx_total_send := 0\<rparr>
           in if line = [] then (LIBSSH2_ERROR_BANNER_RECV, s)
              else case ssh2_alloc (upd_remote (\<lambda>e. e\<lparr>banner := None\<rparr>) s) of (ok, s) \<Rightarrow>
                     if \<not> ok then ssh2_err LIBSSH2_ERROR_ALLOC s
                     else (LIBSSH2_ERROR_NONE, upd_remote (\<lambda>e. e\<lparr>banner := Some line\<rparr>) s))"
    unfolding session_banner_receive_def by (simp add: s0_def got_def)
  then show ?thesis using t s0 by (intro exI [of _ t]) (auto simp: rest_same_def)
qed

lemma strip_end_lf: "strip_end (w @ [10]) = strip_end w"
  by simp

text \<open>
  C23. However the socket delivers the peer's identification string, and in however many calls: a call that has
  seen the line feed ends with the line, without its line end and without the empty lines before it; a call that
  has not keeps what it has and asks to be called again.
\<close>

theorem banner_received_whole:
  assumes "data_only (sock_in s)" "avail s = skip @ w @ tail" "set skip \<subseteq> {10, 13}" "got s \<noteq> [] \<longrightarrow> skip = []"
    and "line_ok (got s @ w)" "got s @ w \<noteq> []" "length (got s @ w) < BANNER_SIZE" "allocs s = []"
  shows "(tail = [] \<longrightarrow> (\<exists>s'. session_banner_receive s = (LIBSSH2_ERROR_EAGAIN, s') \<and> got s' = got s @ w \<and>
      avail s' = [] \<and> data_only (sock_in s') \<and> remote s' = remote s \<and> allocs s' = [])) \<and>
    (\<forall>r'. tail = 10 # r' \<longrightarrow> (\<exists>s'. session_banner_receive s = (0, s') \<and> banner (remote s') = Some (strip_end (got s @ w)) \<and>
      avail s' = r' \<and> data_only (sock_in s') \<and> banner_TxRx_state s' = NB_idle))"
proof -
  have "avail s = skip @ (w @ tail)" using assms(2) by simp
  from receive_starts [OF assms(1) this assms(3,4)] obtain t
    where t: "data_only (sock_in t)" "avail t = w @ tail" "rest_same (s\<lparr>banner_TxRx_state := banner_TxRx_state t\<rparr>) t"
      "banner_TxRx_state t \<noteq> NB_idle"
      and r: "session_banner_receive s =
      (case banner_loop (got s) t of
         (Inl rc, s) \<Rightarrow> (rc, s)
       | (Inr line, s) \<Rightarrow>
           let line = strip_end line; s = s\<lparr>banner_TxRx_state := NB_idle, banner_TxRx_total_send := 0\<rparr>
           in if line = [] then (LIBSSH2_ERROR_BANNER_RECV, s)
              else case ssh2_alloc (upd_remote (\<lambda>e. e\<lparr>banner := None\<rparr>) s) of (ok, s) \<Rightarrow>
                     if \<not> ok then ssh2_err LIBSSH2_ERROR_ALLOC s
                     else (LIBSSH2_ERROR_NONE, upd_remote (\<lambda>e. e\<lparr>banner := Some line\<rparr>) s))" by blast
  show ?thesis
  proof (intro conjI impI allI)
    assume "tail = []"
    then obtain u where u: "banner_loop (got s) t = (Inl LIBSSH2_ERROR_EAGAIN, u)" "data_only (sock_in u)" "avail u = []"
        "rest_same t u" "banner_TxRx_banner u = got s @ w" "banner_TxRx_total_send u = length (got s @ w)"
      using loop_waits [OF t(1), of w "got s"] t(2) assms(5,7) by auto
    have "got u = got s @ w" using u(4-6) t(4) by (simp add: got_def rest_same_def)
    then show "\<exists>s'. session_banner_receive s = (LIBSSH2_ERROR_EAGAIN, s') \<and> got s' = got s @ w \<and>
      avail s' = [] \<and> data_only (sock_in s') \<and> remote s' = remote s \<and> allocs s' = []"
      using r u t(3) assms(8) by (auto simp: rest_same_def)
  next
    fix r'
    assume tail: "tail = 10 # r'"
    then obtain u where u: "banner_loop (got s) t = (Inr (got s @ w @ [10]), u)" "data_only (sock_in u)" "avail u = r'" "rest_same t u"
      using loop_line [OF t(1), of w r' "got s"] t(2) assms(5-7) by auto
    have "hd (got s @ w) \<notin> {10, 13}" using assms(5,6) by (cases "got s @ w") (auto simp: line_ok_def)
    moreover have "hd (got s @ w) \<in> set (got s @ w)" using assms(6) by (rule hd_in_set)
    ultimately have ne: "strip_end (got s @ w) \<noteq> []"
      unfolding strip_end.simps rev_is_Nil_conv dropWhile_eq_Nil_conv set_rev by blast
    have "strip_end (got s @ w @ [10]) = strip_end (got s @ w)" using strip_end_lf [of "got s @ w"] by simp
    moreover have "allocs u = []" using u(4) t(3) assms(8) by (simp add: rest_same_def)
    ultimately show "\<exists>s'. session_banner_receive s = (0, s') \<and> banner (remote s') = Some (strip_end (got s @ w)) \<and>
      avail s' = r' \<and> data_only (sock_in s') \<and> banner_TxRx_state s' = NB_idle"
      using r u ne tail by (simp add: ssh2_alloc_def upd_remote_def avail_def Let_def del: strip_end.simps)
  qed
qed

text \<open>The string arrives in two pieces, after an empty line.\<close>

definition greeting :: session where
  "greeting = bare_session\<lparr>sock_in := [Recv_bytes [13, 10, 83, 83], Recv_bytes [72, 45, 13, 10, 20]]\<rparr>"

theorem banner_received_whole_witness:
  "\<exists>s'. session_banner_receive greeting = (0, s') \<and> banner (remote s') = Some [83, 83, 72, 45] \<and> avail s' = [20]"
proof -
  have "data_only (sock_in greeting)" "avail greeting = [13, 10] @ [83, 83, 72, 45, 13] @ [10, 20]" "got greeting = []"
    "allocs greeting = []"
    by (simp_all add: greeting_def avail_def got_def bare_session_def session_init_defs)
  then show ?thesis
    using banner_received_whole [of greeting "[13, 10]" "[83, 83, 72, 45, 13]" "[10, 20]"]
    by (auto simp: line_ok_def BANNER_SIZE_def)
qed

subsection \<open>Sending in parts\<close>

text \<open>
  C37. When the socket takes only a part of a banner of our own, the rest that follows is that of the default
  banner.
\<close>

theorem banner_resumed_with_default:
  assumes "banner (local s) = Some v" "banner_TxRx_state s = NB_idle" "banner_TxRx_total_send s = 0"
    and "sock_out s = [Send_upto k]" "0 < k" "k < length v" "k < length LIBSSH2_SSH_DEFAULT_BANNER_WITH_CRLF"
  shows "\<exists>s1 s2. session_banner_send s = (LIBSSH2_ERROR_EAGAIN, s1) \<and> session_banner_send s1 = (0, s2) \<and>
    wire s2 = wire s @ take k v @ drop k LIBSSH2_SSH_DEFAULT_BANNER_WITH_CRLF"
proof -
  define s1 where "s1 = s\<lparr>sock_out := [], wire := wire s @ take k v, banner_TxRx_state := NB_created,
    block_directions := LIBSSH2_SESSION_BLOCK_OUTBOUND, banner_TxRx_total_send := k\<rparr>"
  have "session_banner_send s = (LIBSSH2_ERROR_EAGAIN, s1)"
    using assms by (simp add: session_banner_send_def ssh2_send_def s1_def Let_def c_assert_def)
  moreover have "fst (session_banner_send s1) = 0"
    "wire (snd (session_banner_send s1)) = wire s @ take k v @ drop k LIBSSH2_SSH_DEFAULT_BANNER_WITH_CRLF"
    using assms by (simp_all add: session_banner_send_def ssh2_send_def s1_def Let_def c_assert_def)
  ultimately show ?thesis by (metis prod.collapse)
qed

theorem banner_resumed_with_default_witness:
  "\<exists>s1 s2. session_banner_send (bare_session\<lparr>local := endpoint_0\<lparr>banner := Some [83, 83, 72, 45, 50, 13, 10]\<rparr>,
      sock_out := [Send_upto 4]\<rparr>) = (LIBSSH2_ERROR_EAGAIN, s1) \<and>
    session_banner_send s1 = (0, s2) \<and>
    wire s2 = [83, 83, 72, 45] @ drop 4 LIBSSH2_SSH_DEFAULT_BANNER_WITH_CRLF"
proof -
  let ?s = "bare_session\<lparr>local := endpoint_0\<lparr>banner := Some [83, 83, 72, 45, 50, 13, 10]\<rparr>, sock_out := [Send_upto 4]\<rparr>"
  have "4 < length LIBSSH2_SSH_DEFAULT_BANNER_WITH_CRLF"
    by (simp add: LIBSSH2_SSH_DEFAULT_BANNER_WITH_CRLF_def LIBSSH2_SSH_DEFAULT_BANNER_def str_def)
  then show ?thesis
    using banner_resumed_with_default [of ?s "[83, 83, 72, 45, 50, 13, 10]" 4]
    by (simp add: bare_session_def session_init_defs)
qed

subsection \<open>The lines before the string\<close>

lemma banner_loop_shrinks:
  "banner_loop line s = (Inr l, t) \<Longrightarrow>
   script_size (sock_in t) \<le> script_size (sock_in s) \<and> (line = [] \<longrightarrow> script_size (sock_in t) < script_size (sock_in s))"
proof (induction "script_size (sock_in s)" arbitrary: line s rule: less_induct)
  case less
  let ?s = "s\<lparr>block_directions := block_directions s AND NOT LIBSSH2_SESSION_BLOCK_INBOUND\<rparr>"
  obtain ret bs u where r: "ssh2_recv 1 ?s = (ret, bs, u)" using prod_cases3 by blast
  have line: "line = [] \<longrightarrow> length line < BANNER_SIZE \<and> \<not> ends_in {10} line" by (simp add: BANNER_SIZE_def ends_in_def)
  show ?case
  proof (cases "length line < BANNER_SIZE \<and> \<not> ends_in {10} line")
    case False
    then show ?thesis using less.prems line by (subst (asm) banner_loop.simps) auto
  next
    case True
    then have ret: "0 < ret" and e: "banner_loop line s = (if hd bs \<in> {13, 10} \<and> line = [] then banner_loop line u else banner_loop (line @ [hd bs]) u)"
      using less.prems r by (subst (asm) banner_loop.simps, simp split: if_splits, linarith?)+
    have u: "script_size (sock_in u) < script_size (sock_in s)"
      using recv_shrinks [OF r [symmetric] ret] by simp
    show ?thesis
      using less.hyps [OF u, of line] less.hyps [OF u, of "line @ [hd bs]"] less.prems e u by (auto split: if_splits)
  qed
qed

lemma banner_loop_error: "banner_loop line s = (Inl rc, t) \<Longrightarrow> rc \<noteq> 0"
proof (induction "script_size (sock_in s)" arbitrary: line s rule: less_induct)
  case less
  let ?s = "s\<lparr>block_directions := block_directions s AND NOT LIBSSH2_SESSION_BLOCK_INBOUND\<rparr>"
  obtain ret bs u where r: "ssh2_recv 1 ?s = (ret, bs, u)" using prod_cases3 by blast
  have u: "0 < ret \<Longrightarrow> script_size (sock_in u) < script_size (sock_in s)" using recv_shrinks [OF r [symmetric]] by simp
  show ?case
    using less.prems r less.hyps [of u "[]"] less.hyps [of u "line @ [hd bs]"] u
    by (subst (asm) banner_loop.simps) (auto split: if_splits)
qed

lemma receive_shrinks:
  assumes "session_banner_receive s = (0, t)"
  shows "banner_TxRx_state t = NB_idle \<and> script_size (sock_in t) \<le> script_size (sock_in s) \<and>
    (banner_TxRx_state s = NB_idle \<longrightarrow> script_size (sock_in t) < script_size (sock_in s))"
proof -
  define s0 where "s0 = (if banner_TxRx_state s = NB_idle then s\<lparr>banner_TxRx_state := NB_created\<rparr> else s)"
  obtain q u where q: "banner_loop (got s) s0 = (q, u)" by fastforce
  have s0: "sock_in s0 = sock_in s" by (simp add: s0_def)
  have "\<exists>l. q = Inr l \<and> banner_TxRx_state t = NB_idle \<and> sock_in t = sock_in u"
    using assms q banner_loop_error [of "got s" s0]
    by (auto simp: session_banner_receive_def s0_def got_def ssh2_alloc_def ssh2_err_def upd_remote_def Let_def
        simp del: strip_end.simps split: sum.splits if_splits list.splits prod.splits)
  then show ?thesis using banner_loop_shrinks [of "got s" s0] q s0 by (auto simp: got_def)
qed

text \<open>The bound of the model is never used up.\<close>

lemma banner_lines_enough:
  "banner_TxRx_state s = NB_idle \<Longrightarrow> script_size (sock_in s) < n \<Longrightarrow>
   banner_lines n s = banner_lines (Suc (script_size (sock_in s))) s"
proof (induction "script_size (sock_in s)" arbitrary: n s rule: less_induct)
  case less
  obtain k where n: "n = Suc k" using less.prems(2) by (cases n) auto
  obtain rc t where r: "session_banner_receive s = (rc, t)" by fastforce
  show ?case
  proof (cases "rc = 0")
    case True
    note t = receive_shrinks [OF r [unfolded True]]
    have lt: "script_size (sock_in t) < script_size (sock_in s)" "banner_TxRx_state t = NB_idle"
      using t less.prems by auto
    have "banner_lines k t = banner_lines (Suc (script_size (sock_in t))) t"
      using lt less.prems n by (intro less.hyps) simp_all
    moreover have "banner_lines (script_size (sock_in s)) t = banner_lines (Suc (script_size (sock_in t))) t"
      using lt by (intro less.hyps) simp_all
    ultimately have "banner_lines k t = banner_lines (script_size (sock_in s)) t" by metis
    then show ?thesis using n r by (simp add: True)
  next
    case False
    then show ?thesis using n r by simp
  qed
qed

end
