(* ===== verification/Spec2Isabelle.thy ===== *)
theory Spec2Isabelle
  imports Wire Base64 DList Scp TransportSend TransportRead TransportEnds Chacha KexNegProps BooksProps KnownHostProps
    ChannelProps KexExchangeProps StartupProps
begin

text \<open>
  A verification library for the SSH client library in src/src/libssh2.
\<close>

end
